theory Spec2Isabelle
  imports Main "HOL-Library.Sublist" "HOL-Library.List_Lexorder" "HOL-Library.Char_ord"
begin

section \<open>Strings: the functions of Go's \<open>strings\<close> and \<open>fmt\<close> packages the loader uses\<close>

text \<open>
  A Go string is a sequence of bytes; \<open>string\<close> (a list of 8-bit characters) is the
  same thing.  \<open>sort.Strings\<close> orders strings bytewise, which is the lexicographic
  order on character lists over the order of character codes.
\<close>

definition HasPrefix :: "string \<Rightarrow> string \<Rightarrow> bool" where
  "HasPrefix s p = (length p \<le> length s \<and> take (length p) s = p)"

definition HasSuffix :: "string \<Rightarrow> string \<Rightarrow> bool" where
  "HasSuffix s p = (length p \<le> length s \<and> drop (length s - length p) s = p)"

definition TrimPrefix :: "string \<Rightarrow> string \<Rightarrow> string" where
  "TrimPrefix s p = (if HasPrefix s p then drop (length p) s else s)"

definition TrimSuffix :: "string \<Rightarrow> string \<Rightarrow> string" where
  "TrimSuffix s p = (if HasSuffix s p then take (length s - length p) s else s)"

text \<open>
  \<open>strings.TrimSpace\<close> removes leading and trailing white space as Unicode defines it.
  On the bytes of a string that is: the six ASCII characters tab, line feed, vertical
  tab, form feed, carriage return and space, and the UTF-8 encodings of U+0085, U+00A0,
  U+1680, U+2000 to U+200A, U+2028, U+2029, U+202F, U+205F and U+3000.
\<close>

definition spaces :: "string list" where
  "spaces =
    [[CHR 0x09], [CHR 0x0A], [CHR 0x0B], [CHR 0x0C], [CHR 0x0D], [CHR 0x20],
     [CHR 0xC2, CHR 0x85], [CHR 0xC2, CHR 0xA0],
     [CHR 0xE1, CHR 0x9A, CHR 0x80],
     [CHR 0xE2, CHR 0x80, CHR 0x80], [CHR 0xE2, CHR 0x80, CHR 0x81],
     [CHR 0xE2, CHR 0x80, CHR 0x82], [CHR 0xE2, CHR 0x80, CHR 0x83],
     [CHR 0xE2, CHR 0x80, CHR 0x84], [CHR 0xE2, CHR 0x80, CHR 0x85],
     [CHR 0xE2, CHR 0x80, CHR 0x86], [CHR 0xE2, CHR 0x80, CHR 0x87],
     [CHR 0xE2, CHR 0x80, CHR 0x88], [CHR 0xE2, CHR 0x80, CHR 0x89],
     [CHR 0xE2, CHR 0x80, CHR 0x8A],
     [CHR 0xE2, CHR 0x80, CHR 0xA8], [CHR 0xE2, CHR 0x80, CHR 0xA9],
     [CHR 0xE2, CHR 0x80, CHR 0xAF], [CHR 0xE2, CHR 0x81, CHR 0x9F],
     [CHR 0xE3, CHR 0x80, CHR 0x80]]"

definition leading_space :: "string \<Rightarrow> string option" where
  "leading_space s = find (HasPrefix s) spaces"

definition trailing_space :: "string \<Rightarrow> string option" where
  "trailing_space s = find (HasSuffix s) spaces"

lemma spaces_nonempty: "w \<in> set spaces \<Longrightarrow> w \<noteq> []"
  by (auto simp: spaces_def)

lemma leading_space_shorter:
  "leading_space s = Some w \<Longrightarrow> length (drop (length w) s) < length s"
proof -
  assume "leading_space s = Some w"
  then have "w \<in> set spaces" and "HasPrefix s w"
    by (auto simp: leading_space_def find_Some_iff)
  then have "0 < length w" and "length w \<le> length s"
    using spaces_nonempty by (auto simp: HasPrefix_def)
  then show ?thesis by (cases w) auto
qed

lemma trailing_space_shorter:
  "trailing_space s = Some w \<Longrightarrow> length (take (length s - length w) s) < length s"
proof -
  assume "trailing_space s = Some w"
  then have "w \<in> set spaces" and "HasSuffix s w"
    by (auto simp: trailing_space_def find_Some_iff)
  then have "0 < length w" and "length w \<le> length s"
    using spaces_nonempty by (auto simp: HasSuffix_def)
  then show ?thesis by (cases w) auto
qed

function TrimLeft :: "string \<Rightarrow> string" where
  "TrimLeft s =
    (case leading_space s of
       None \<Rightarrow> s
     | Some w \<Rightarrow> TrimLeft (drop (length w) s))"
  by pat_completeness auto
termination
  by (relation "measure length") (auto dest: leading_space_shorter)

function TrimRight :: "string \<Rightarrow> string" where
  "TrimRight s =
    (case trailing_space s of
       None \<Rightarrow> s
     | Some w \<Rightarrow> TrimRight (take (length s - length w) s))"
  by pat_completeness auto
termination
  by (relation "measure length") (auto dest: trailing_space_shorter)

declare TrimLeft.simps [simp del] TrimRight.simps [simp del]

definition TrimSpace :: "string \<Rightarrow> string" where
  "TrimSpace s = TrimRight (TrimLeft s)"

text \<open>\<open>strings.Join\<close>.\<close>

fun Join :: "string list \<Rightarrow> string \<Rightarrow> string" where
  "Join [] sep = []"
| "Join [x] sep = x"
| "Join (x # y # ys) sep = x @ sep @ Join (y # ys) sep"

text \<open>The verb \<open>%d\<close> of \<open>fmt.Sprintf\<close> on a number that is not negative.\<close>

definition digit :: "nat \<Rightarrow> char" where
  "digit d = char_of (48 + d)"

function itoa :: "nat \<Rightarrow> string" where
  "itoa n = (if n < 10 then [digit n] else itoa (n div 10) @ [digit (n mod 10)])"
  by pat_completeness auto
termination
  by (relation "measure id") auto

declare itoa.simps [simp del]

text \<open>\<open>fmt.Sprintf("\"%s\"", c)\<close>: the column name between double quotes.\<close>

definition quoted :: "string \<Rightarrow> string" where
  "quoted c = [CHR 0x22] @ c @ [CHR 0x22]"


section \<open>Values and rows (row.go)\<close>

text \<open>
  The values a decoded YAML document holds, as far as the loader tells them apart: it
  asks of a value only whether it is a string. (Floats, sequences and nested mappings are
  passed through like \<open>Num\<close> and \<open>Bool\<close> and are left out.)
\<close>

datatype scalar = Null | Str string | Num int | Bool bool

text \<open>
  What an \<open>interface{}\<close> of a compiled row, of an argument list or of the registry can
  hold: a value of the document (the nil interface is \<open>Lit Null\<close>), a \<open>time.Time\<close>
  (\<open>Time n\<close> is the reading number \<open>n\<close> of the clock, counted from zero), an \<open>int64\<close>
  received from the database, a \<open>*PrimaryKeyGenerator\<close> or a \<open>*PrimaryKeyReference\<close>
  with its \<open>name\<close> field.
\<close>

datatype iface =
    Lit scalar
  | Time nat
  | Int64 int
  | PrimaryKeyGenerator string
  | PrimaryKeyReference string

text \<open>
  A Go \<open>map[string]v\<close> of the document, as an association list read by \<open>map_of\<close>.
  Ranging over the map and sorting the keys (\<open>sort.Strings\<close>) gives every key once, in
  bytewise order; indexing a missing key gives nil.
\<close>

type_synonym gomap = "(string \<times> scalar) list"

definition sorted_keys :: "gomap \<Rightarrow> string list" where
  "sorted_keys m = sort (remdups (map fst m))"

definition len :: "gomap \<Rightarrow> nat" where
  "len m = length (remdups (map fst m))"

definition index :: "gomap \<Rightarrow> string \<Rightarrow> scalar" where
  "index m k = (case map_of m k of None \<Rightarrow> Null | Some v \<Rightarrow> v)"

definition onInsertNow :: string where "onInsertNow = ''ON_INSERT_NOW()''"
definition onUpdateNow :: string where "onUpdateNow = ''ON_UPDATE_NOW()''"
definition onPKGeneratePrefix :: string where "onPKGeneratePrefix = ''PK_GENERATE(''"
definition onPKGenerateSuffix :: string where "onPKGenerateSuffix = '')''"
definition onPKReferencePrefix :: string where "onPKReferencePrefix = ''PK_REFERENCE(''"
definition onPKReferenceSuffix :: string where "onPKReferenceSuffix = '')''"
definition postgresDriver :: string where "postgresDriver = ''postgres''"

record Row =
  Table :: string
  PK :: gomap
  Fields :: gomap
  pkColumns :: "string list"
  pkValues :: "iface list"
  insertColumns :: "string list"
  updateColumns :: "string list"
  insertValues :: "iface list"
  updateValues :: "iface list"

text \<open>
  The entries of the registry \<open>map[string]interface{}\<close> of generated keys. A variable of
  this type of Go holds a map that was made, \<open>Some\<close> of its entries, or the nil map,
  \<open>None\<close>: the nil map is read as a map without entries, and a write to it panics.
\<close>

type_synonym registry = "string \<rightharpoonup> iface"

text \<open>
  \<open>PrimaryKeyGenerator.Set\<close> is the assignment \<open>values[pk.name] = key\<close>: it panics (\<open>None\<close>)
  on the nil map, and otherwise gives the map with the entry written.
  \<open>PrimaryKeyReference.Get\<close> is the read \<open>values[pk.name]\<close>, here of the entries of the map:
  nil for a name without entry.
\<close>

definition Set_key :: "string \<Rightarrow> registry option \<Rightarrow> iface \<Rightarrow> registry option" where
  "Set_key name values key =
    (case values of
       None \<Rightarrow> None
     | Some entries \<Rightarrow> Some (entries(name \<mapsto> key)))"

definition Get :: "string \<Rightarrow> registry \<Rightarrow> iface" where
  "Get name values = (case values name of None \<Rightarrow> Lit Null | Some v \<Rightarrow> v)"

subsection \<open>\<open>Row.Init\<close>\<close>

text \<open>The body of the loop over the sorted primary-key columns: the value appended to
  \<open>pkValues\<close> for the entry \<open>v\<close> of the \<open>PK\<close> map.\<close>

definition pkValue :: "scalar \<Rightarrow> iface" where
  "pkValue v =
    (case v of
       Str sv \<Rightarrow>
         if HasPrefix sv onPKGeneratePrefix \<and> HasSuffix sv onPKGenerateSuffix then
           PrimaryKeyGenerator
             (TrimSpace (TrimPrefix (TrimSuffix sv onPKGenerateSuffix) onPKGeneratePrefix))
         else if HasPrefix sv onPKReferencePrefix \<and> HasSuffix sv onPKReferenceSuffix then
           PrimaryKeyReference
             (TrimSpace (TrimPrefix (TrimSuffix sv onPKReferenceSuffix) onPKReferencePrefix))
         else Lit v
     | _ \<Rightarrow> Lit v)"

text \<open>The value a field that is neither timestamp marker is bound to.\<close>

definition fieldValue :: "scalar \<Rightarrow> iface" where
  "fieldValue v =
    (case v of
       Str sv \<Rightarrow>
         if HasPrefix sv onPKReferencePrefix \<and> HasSuffix sv onPKReferenceSuffix then
           PrimaryKeyReference
             (TrimSpace (TrimPrefix (TrimSuffix sv onPKReferenceSuffix) onPKReferencePrefix))
         else Lit v
     | _ \<Rightarrow> Lit v)"

text \<open>
  The loop over the sorted field keys. The row and the number of clock readings taken
  so far are threaded through: every \<open>time.Now()\<close> is one more reading.
  \<open>setUpdatedAtOnInsert\<close> is the flag \<open>SetUpdatedAtOnInsert\<close> the loop reads.
\<close>

fun init_fields :: "bool \<Rightarrow> string list \<Rightarrow> Row \<Rightarrow> nat \<Rightarrow> Row \<times> nat" where
  "init_fields setUpdatedAtOnInsert [] row now = (row, now)"
| "init_fields setUpdatedAtOnInsert (fieldKey # fieldKeys) row now =
    (let v = index (Fields row) fieldKey in
     if v = Str onInsertNow then
       init_fields setUpdatedAtOnInsert fieldKeys
         (row\<lparr>insertColumns := insertColumns row @ [fieldKey],
              insertValues := insertValues row @ [Time now]\<rparr>)
         (Suc now)
     else if v = Str onUpdateNow then
       (let row1 = row\<lparr>updateColumns := updateColumns row @ [fieldKey],
                        updateValues := updateValues row @ [Time now]\<rparr>
        in if setUpdatedAtOnInsert then
             init_fields setUpdatedAtOnInsert fieldKeys
               (row1\<lparr>insertColumns := insertColumns row1 @ [fieldKey],
                     insertValues := insertValues row1 @ [Time (Suc now)]\<rparr>)
               (Suc (Suc now))
           else init_fields setUpdatedAtOnInsert fieldKeys row1 (Suc now))
     else
       init_fields setUpdatedAtOnInsert fieldKeys
         (row\<lparr>insertColumns := insertColumns row @ [fieldKey],
              insertValues := insertValues row @ [fieldValue v],
              updateColumns := updateColumns row @ [fieldKey],
              updateValues := updateValues row @ [fieldValue v]\<rparr>)
         now)"

definition Init :: "bool \<Rightarrow> Row \<Rightarrow> nat \<Rightarrow> Row \<times> nat" where
  "Init setUpdatedAtOnInsert row now =
    init_fields setUpdatedAtOnInsert (sorted_keys (Fields row))
      (row\<lparr>insertColumns := [], insertValues := [], updateColumns := [], updateValues := [],
           pkColumns := sorted_keys (PK row),
           pkValues := map (\<lambda>pkKey. pkValue (index (PK row) pkKey)) (sorted_keys (PK row))\<rparr>)
      now"

subsection \<open>The getters\<close>

text \<open>The loop shared by \<open>GetInsertValues\<close>, \<open>GetUpdateValues\<close>, \<open>GetPKValues\<close> and
  \<open>GetPKAndInsertValues\<close>: a \<open>*PrimaryKeyReference\<close> is replaced by what \<open>Get\<close> returns,
  any other value is kept.\<close>

fun resolve :: "registry \<Rightarrow> iface list \<Rightarrow> iface list" where
  "resolve primaryKeys [] = []"
| "resolve primaryKeys (PrimaryKeyReference name # values) =
     Get name primaryKeys # resolve primaryKeys values"
| "resolve primaryKeys (v # values) = v # resolve primaryKeys values"

text \<open>The placeholders \<open>$i+1\<close> or \<open>?\<close> for the indices \<open>i\<close> of \<open>is\<close>.\<close>

definition placeholder :: "string \<Rightarrow> nat \<Rightarrow> string" where
  "placeholder driver i = (if driver = postgresDriver then ''$'' @ itoa (i + 1) else ''?'')"

definition GetInsertColumns :: "Row \<Rightarrow> string list" where
  "GetInsertColumns row = map quoted (insertColumns row)"

definition GetInsertValues :: "registry \<Rightarrow> Row \<Rightarrow> iface list" where
  "GetInsertValues primaryKeys row = resolve primaryKeys (insertValues row)"

definition GetInsertPlaceholders :: "string \<Rightarrow> Row \<Rightarrow> string list" where
  "GetInsertPlaceholders driver row =
     map (placeholder driver) [0 ..< length (insertValues row)]"

definition GetPKAndInsertColumns :: "Row \<Rightarrow> string list" where
  "GetPKAndInsertColumns row = map quoted (pkColumns row) @ map quoted (insertColumns row)"

definition GetPKAndInsertValues :: "registry \<Rightarrow> Row \<Rightarrow> iface list" where
  "GetPKAndInsertValues primaryKeys row =
     resolve primaryKeys (pkValues row) @ resolve primaryKeys (insertValues row)"

definition GetPKAndInsertPlaceholders :: "string \<Rightarrow> Row \<Rightarrow> string list" where
  "GetPKAndInsertPlaceholders driver row =
     map (placeholder driver) [0 ..< length (pkValues row) + length (insertValues row)]"

definition GetUpdateColumns :: "Row \<Rightarrow> string list" where
  "GetUpdateColumns row = map quoted (updateColumns row)"

definition GetUpdateColumnsLength :: "Row \<Rightarrow> nat" where
  "GetUpdateColumnsLength row = length (GetUpdateColumns row)"

definition GetUpdateValues :: "registry \<Rightarrow> Row \<Rightarrow> iface list" where
  "GetUpdateValues primaryKeys row = resolve primaryKeys (updateValues row)"

definition GetUpdatePlaceholders :: "string \<Rightarrow> Row \<Rightarrow> string list" where
  "GetUpdatePlaceholders driver row =
     map (\<lambda>(i, c). if driver = postgresDriver then c @ '' = $'' @ itoa (i + 1)
                    else c @ '' = ?'')
       (enumerate 0 (GetUpdateColumns row))"

text \<open>
  \<open>GetWhere\<close> fills the slice \<open>wheres\<close>, made with \<open>len(row.PK)\<close> elements, at the
  indices \<open>i - j\<close> while it ranges over \<open>pkColumns\<close>; a write past the end of the slice
  panics (\<open>None\<close>).
\<close>

fun where_loop ::
  "string \<Rightarrow> nat \<Rightarrow> nat \<Rightarrow> string list \<Rightarrow> string list \<Rightarrow> string list option" where
  "where_loop driver j i [] wheres = Some wheres"
| "where_loop driver j i (c # cs) wheres =
    (if i - j < length wheres then
       where_loop driver j (Suc i) cs
         (wheres[i - j := (if driver = postgresDriver then c @ '' = $'' @ itoa (i + 1)
                           else c @ '' = ?'')])
     else None)"

definition GetWhere :: "string \<Rightarrow> nat \<Rightarrow> Row \<Rightarrow> string option" where
  "GetWhere driver i row =
    (case where_loop driver i i (pkColumns row) (replicate (len (PK row)) []) of
       None \<Rightarrow> None
     | Some wheres \<Rightarrow> Some (Join wheres '' AND ''))"

definition GetPKValues :: "registry \<Rightarrow> Row \<Rightarrow> iface list" where
  "GetPKValues primaryKeys row = resolve primaryKeys (pkValues row)"

definition GetPKColumns :: "Row \<Rightarrow> string list" where
  "GetPKColumns row = pkColumns row"


section \<open>The loader (load.go)\<close>

text \<open>
  An \<open>error\<close> of Go is modelled by its message. A call either returns (nil or an
  error) or panics on an index out of range.
\<close>

datatype failure = Error string | Panic

definition NewProcessingError :: "nat \<Rightarrow> string \<Rightarrow> string" where
  "NewProcessingError row cause = ''Error loading row '' @ itoa row @ '': '' @ cause"

definition NewFileError :: "string \<Rightarrow> string \<Rightarrow> string" where
  "NewFileError filename cause = ''Error loading file '' @ filename @ '': '' @ cause"

text \<open>
  The database is a collaborator. \<open>'db\<close> is the state of the database a transaction
  works on, and a \<open>Tx\<close> gives what the handle \<open>ctx.Db\<close> answers and the state it leaves:
  \<^item> \<open>ScanInt\<close>: \<open>QueryRow(query, args...).Scan(&n)\<close> into an integer variable;
  \<^item> \<open>ScanName\<close>: \<open>QueryRow(query, args...).Scan(&seqName)\<close> into a \<open>*string\<close>, nil for
    SQL NULL;
  \<^item> \<open>ExecLastInsertId\<close>: \<open>Exec(query, args...)\<close>, which fails or gives a result, of
    which the loader reads at most \<open>LastInsertId()\<close> (an error or a number).

  The numbers read (an \<open>int\<close> count, an \<open>int64\<close> key) are only compared with 0 or stored,
  never computed with: they are integers here.
\<close>

record 'db Tx =
  ScanInt :: "string \<Rightarrow> iface list \<Rightarrow> 'db \<Rightarrow> (string + int) \<times> 'db"
  ScanName :: "string \<Rightarrow> iface list \<Rightarrow> 'db \<Rightarrow> (string + string option) \<times> 'db"
  ExecLastInsertId :: "string \<Rightarrow> iface list \<Rightarrow> 'db \<Rightarrow> (string + (string + int)) \<times> 'db"

text \<open>A statement handed to \<open>ctx.Db\<close>, with its arguments.\<close>

datatype call = QueryRow string "iface list" | Exec string "iface list"

text \<open>
  \<open>Context\<close>, with the state the calls work on: \<open>Db\<close> is the state of the database the
  transaction works on, \<open>sent\<close> the statements handed to \<open>ctx.Db\<close> so far, in order, and
  \<open>clock\<close> the number of \<open>time.Now()\<close> readings taken so far. (\<open>DumpSQL\<close> only chooses
  whether each statement is also printed to the log, which is not modelled.)

  \<open>primaryKeysMap\<close> is the field \<open>primaryKeys\<close>, a map of Go: \<open>None\<close> when it is the nil map,
  as in a \<open>Context\<close> made outside the package, which cannot set the unexported field.
  \<open>primaryKeys\<close> gives the entries a read of the field finds.
\<close>

record 'db Context =
  primaryKeysMap :: "registry option"
  Db :: 'db
  Driver :: string
  DumpSQL :: bool
  SetUpdatedAtOnInsert :: bool
  sent :: "call list"
  clock :: nat

definition primaryKeys :: "'db Context \<Rightarrow> registry" where
  "primaryKeys ctx = (case primaryKeysMap ctx of None \<Rightarrow> Map.empty | Some entries \<Rightarrow> entries)"

definition QueryRowScanInt ::
  "'db Tx \<Rightarrow> string \<Rightarrow> iface list \<Rightarrow> 'db Context \<Rightarrow> (string + int) \<times> 'db Context" where
  "QueryRowScanInt tx query args ctx =
    (case ScanInt tx query args (Db ctx) of
       (r, db) \<Rightarrow> (r, ctx\<lparr>Db := db, sent := sent ctx @ [QueryRow query args]\<rparr>))"

definition QueryRowScanName ::
  "'db Tx \<Rightarrow> string \<Rightarrow> iface list \<Rightarrow> 'db Context \<Rightarrow> (string + string option) \<times> 'db Context" where
  "QueryRowScanName tx query args ctx =
    (case ScanName tx query args (Db ctx) of
       (r, db) \<Rightarrow> (r, ctx\<lparr>Db := db, sent := sent ctx @ [QueryRow query args]\<rparr>))"

definition DbExec ::
  "'db Tx \<Rightarrow> string \<Rightarrow> iface list \<Rightarrow> 'db Context \<Rightarrow> (string + (string + int)) \<times> 'db Context" where
  "DbExec tx query args ctx =
    (case ExecLastInsertId tx query args (Db ctx) of
       (r, db) \<Rightarrow> (r, ctx\<lparr>Db := db, sent := sent ctx @ [Exec query args]\<rparr>))"

subsection \<open>\<open>fixPostgresPKSequence\<close>\<close>

definition sequence_query :: string where
  "sequence_query =
     [CHR 0x0A, CHR 0x09, CHR 0x09] @ ''SELECT pg_get_serial_sequence($1, $2)'' @
     [CHR 0x0A, CHR 0x09]"

definition setval_query :: "string \<Rightarrow> string \<Rightarrow> string" where
  "setval_query column table =
     [CHR 0x0A, CHR 0x09, CHR 0x09] @ ''SELECT pg_catalog.setval($1, (SELECT MAX('' @
     quoted column @ '') FROM '' @ quoted table @ ''))'' @ [CHR 0x0A, CHR 0x09]"

definition fixPostgresPKSequence ::
  "'db Tx \<Rightarrow> string \<Rightarrow> string \<Rightarrow> 'db Context \<Rightarrow> string option \<times> 'db Context" where
  "fixPostgresPKSequence tx table column ctx =
    (case QueryRowScanName tx sequence_query [Lit (Str table), Lit (Str column)] ctx of
       (Inl err, ctx1) \<Rightarrow> (Some err, ctx1)
     | (Inr None, ctx1) \<Rightarrow> (None, ctx1)
     | (Inr (Some seqName), ctx1) \<Rightarrow>
         (case DbExec tx (setval_query column table) [Lit (Str seqName)] ctx1 of
            (Inl err, ctx2) \<Rightarrow> (Some err, ctx2)
          | (Inr _, ctx2) \<Rightarrow> (None, ctx2)))"

subsection \<open>\<open>LoadWithContext\<close>: one pass of the loop over the rows\<close>

text \<open>The test at the head of the loop body: \<open>pkValues\<close> has one element and it is a
  \<open>*PrimaryKeyGenerator\<close>.\<close>

fun generator :: "iface list \<Rightarrow> string option" where
  "generator [PrimaryKeyGenerator name] = Some name"
| "generator values = None"

definition insert_statement :: "string \<Rightarrow> string list \<Rightarrow> string list \<Rightarrow> string" where
  "insert_statement table columns placeholders =
     ''INSERT INTO '' @ quoted table @ ''('' @ Join columns '', '' @ '') VALUES('' @
     Join placeholders '', '' @ '')''"

text \<open>The branch taken for a single generated primary key. \<open>generator.Set\<close> is called after
  the statement, with the map of the context.\<close>

definition insert_generated ::
  "'db Tx \<Rightarrow> nat \<Rightarrow> Row \<Rightarrow> string \<Rightarrow> 'db Context \<Rightarrow> failure option \<times> 'db Context" where
  "insert_generated tx i row name ctx =
    (let insertQuery =
           insert_statement (Table row) (GetInsertColumns row)
             (GetInsertPlaceholders (Driver ctx) row)
     in if ''postgres'' = Driver ctx then
          (case GetPKColumns row of
             [] \<Rightarrow> (Some Panic, ctx)
           | pkColumn # _ \<Rightarrow>
               (case QueryRowScanInt tx (insertQuery @ '' RETURNING '' @ pkColumn)
                       (GetInsertValues (primaryKeys ctx) row) ctx of
                  (Inl err, ctx1) \<Rightarrow> (Some (Error (NewProcessingError (i + 1) err)), ctx1)
                | (Inr pk, ctx1) \<Rightarrow>
                    (case Set_key name (primaryKeysMap ctx1) (Int64 pk) of
                       None \<Rightarrow> (Some Panic, ctx1)
                     | Some values \<Rightarrow> (None, ctx1\<lparr>primaryKeysMap := Some values\<rparr>))))
        else
          (case DbExec tx insertQuery (GetInsertValues (primaryKeys ctx) row) ctx of
             (Inl err, ctx1) \<Rightarrow> (Some (Error (NewProcessingError (i + 1) err)), ctx1)
           | (Inr (Inl err), ctx1) \<Rightarrow> (Some (Error (NewProcessingError (i + 1) err)), ctx1)
           | (Inr (Inr pk), ctx1) \<Rightarrow>
               (case Set_key name (primaryKeysMap ctx1) (Int64 pk) of
                  None \<Rightarrow> (Some Panic, ctx1)
                | Some values \<Rightarrow> (None, ctx1\<lparr>primaryKeysMap := Some values\<rparr>))))"

text \<open>The call of \<open>fixPostgresPKSequence\<close> after an INSERT or UPDATE, guarded by the
  driver and by the first element of \<open>columns\<close>; indexing an empty slice panics.\<close>

definition fix_sequence ::
  "'db Tx \<Rightarrow> nat \<Rightarrow> Row \<Rightarrow> string list \<Rightarrow> 'db Context \<Rightarrow> failure option \<times> 'db Context" where
  "fix_sequence tx i row columns ctx =
    (if Driver ctx = postgresDriver then
       (case columns of
          [] \<Rightarrow> (Some Panic, ctx)
        | column # _ \<Rightarrow>
            if column = [CHR 0x22] @ ''id'' @ [CHR 0x22] then
              (case fixPostgresPKSequence tx (Table row) ''id'' ctx of
                 (Some err, ctx1) \<Rightarrow> (Some (Error (NewProcessingError (i + 1) err)), ctx1)
               | (None, ctx1) \<Rightarrow> (None, ctx1))
            else (None, ctx))
     else (None, ctx))"

text \<open>The rest of the loop body: the SELECT that counts, then INSERT, UPDATE or
  nothing.\<close>

definition insert_or_update ::
  "'db Tx \<Rightarrow> nat \<Rightarrow> Row \<Rightarrow> 'db Context \<Rightarrow> failure option \<times> 'db Context" where
  "insert_or_update tx i row ctx =
    (case GetWhere (Driver ctx) 0 row of
       None \<Rightarrow> (Some Panic, ctx)
     | Some where0 \<Rightarrow>
        (case QueryRowScanInt tx
                (''SELECT COUNT(*) FROM '' @ quoted (Table row) @ '' WHERE '' @ where0)
                (GetPKValues (primaryKeys ctx) row) ctx of
           (Inl err, ctx1) \<Rightarrow> (Some (Error (NewProcessingError (i + 1) err)), ctx1)
         | (Inr count, ctx1) \<Rightarrow>
            if count = 0 then
              (case DbExec tx
                      (insert_statement (Table row) (GetPKAndInsertColumns row)
                         (GetPKAndInsertPlaceholders (Driver ctx1) row))
                      (GetPKAndInsertValues (primaryKeys ctx1) row) ctx1 of
                 (Inl err, ctx2) \<Rightarrow> (Some (Error (NewProcessingError (i + 1) err)), ctx2)
               | (Inr _, ctx2) \<Rightarrow> fix_sequence tx i row (GetPKAndInsertColumns row) ctx2)
            else if 0 < GetUpdateColumnsLength row then
              (case GetWhere (Driver ctx1) (GetUpdateColumnsLength row) row of
                 None \<Rightarrow> (Some Panic, ctx1)
               | Some where1 \<Rightarrow>
                  (case DbExec tx
                          (''UPDATE '' @ quoted (Table row) @ '' SET '' @
                           Join (GetUpdatePlaceholders (Driver ctx1) row) '', '' @
                           '' WHERE '' @ where1)
                          (GetUpdateValues (primaryKeys ctx1) row @
                           GetPKValues (primaryKeys ctx1) row) ctx1 of
                     (Inl err, ctx2) \<Rightarrow> (Some (Error (NewProcessingError (i + 1) err)), ctx2)
                   | (Inr _, ctx2) \<Rightarrow> fix_sequence tx i row (GetUpdateColumns row) ctx2))
            else (None, ctx1)))"

text \<open>
  The loop body for the row at index \<open>i\<close> (from zero). The loader calls \<open>row.Init(ctx)\<close>;
  the \<open>Init\<close> at hand takes no argument and reads the flag from the package variable
  \<open>SetUpdatedAtOnInsert\<close>. The flag is a parameter of \<open>Init\<close> here, and the loop gives it
  the field \<open>SetUpdatedAtOnInsert\<close> of the context.
\<close>

definition load_row ::
  "'db Tx \<Rightarrow> nat \<Rightarrow> Row \<Rightarrow> 'db Context \<Rightarrow> failure option \<times> 'db Context" where
  "load_row tx i row0 ctx0 =
    (case Init (SetUpdatedAtOnInsert ctx0) row0 (clock ctx0) of
       (row, now) \<Rightarrow>
         (let ctx = ctx0\<lparr>clock := now\<rparr> in
          case generator (GetPKValues (primaryKeys ctx) row) of
            Some name \<Rightarrow> insert_generated tx i row name ctx
          | None \<Rightarrow> insert_or_update tx i row ctx))"

fun load_rows ::
  "'db Tx \<Rightarrow> nat \<Rightarrow> Row list \<Rightarrow> 'db Context \<Rightarrow> failure option \<times> 'db Context" where
  "load_rows tx i [] ctx = (None, ctx)"
| "load_rows tx i (row # rows) ctx =
    (case load_row tx i row ctx of
       (Some err, ctx1) \<Rightarrow> (Some err, ctx1)
     | (None, ctx1) \<Rightarrow> load_rows tx (Suc i) rows ctx1)"


subsection \<open>The entry points\<close>

text \<open>
  What the entry points take from outside. \<open>'db\<close> is the state of the database: what is
  committed, and what an open transaction has done so far.
  \<^item> \<open>transaction\<close>: what a transaction of the database answers;
  \<^item> \<open>Begin\<close>: \<open>db.Begin()\<close>, \<open>Some\<close> error when it fails, and the state it leaves;
  \<^item> \<open>Commit\<close>: \<open>tx.Commit()\<close>, \<open>Some\<close> error when it fails, and the state it leaves;
  \<^item> \<open>Rollback\<close>: the state \<open>tx.Rollback()\<close> leaves when it ends the transaction. Its
    error is dropped by the \<open>defer\<close> statement;
  \<^item> \<open>ReadFile\<close>: \<open>ioutil.ReadFile\<close>; \<open>Unmarshal\<close>: \<open>yaml.Unmarshal\<close> into a slice of rows;
  \<^item> the package variables \<open>DefaultDumpSQL\<close> and \<open>DefaultSetUpdatedAtOnInsert\<close>.
\<close>

record 'db Env =
  transaction :: "'db Tx"
  Begin :: "'db \<Rightarrow> string option \<times> 'db"
  Commit :: "'db \<Rightarrow> string option \<times> 'db"
  Rollback :: "'db \<Rightarrow> 'db"
  ReadFile :: "string \<Rightarrow> string + string"
  Unmarshal :: "string \<Rightarrow> string + Row list"
  DefaultDumpSQL :: bool
  DefaultSetUpdatedAtOnInsert :: bool

definition LoadWithContext ::
  "'db Env \<Rightarrow> 'db Context \<Rightarrow> string \<Rightarrow> failure option \<times> 'db Context" where
  "LoadWithContext env ctx data =
    (case Unmarshal env data of
       Inl err \<Rightarrow> (Some (Error err), ctx)
     | Inr rows \<Rightarrow> load_rows (transaction env) 0 rows ctx)"

text \<open>The context the entry points make for the transaction begun in the state \<open>db\<close>, with
  the map \<open>map[string]interface{}{}\<close>.\<close>

definition new_context :: "'db Env \<Rightarrow> 'db \<Rightarrow> string \<Rightarrow> 'db Context" where
  "new_context env db driver =
    \<lparr>primaryKeysMap = Some Map.empty, Db = db, Driver = driver,
     DumpSQL = DefaultDumpSQL env, SetUpdatedAtOnInsert = DefaultSetUpdatedAtOnInsert env,
     sent = [], clock = 0\<rparr>"

text \<open>
  Each entry point returns nil or how it failed, and with it the state it leaves the
  database in. The deferred \<open>tx.Rollback()\<close> runs when the function returns or panics. A
  transaction is done once \<open>tx.Commit()\<close> was called, and \<open>tx.Rollback()\<close> on a transaction
  that is done returns \<open>sql.ErrTxDone\<close> without a word to the database: the rollback
  reaches the database on the paths that do not come to \<open>tx.Commit()\<close>.
\<close>

definition Load :: "'db Env \<Rightarrow> string \<Rightarrow> 'db \<Rightarrow> string \<Rightarrow> failure option \<times> 'db" where
  "Load env data db driver =
    (case Begin env db of
       (Some err, db1) \<Rightarrow> (Some (Error err), db1)
     | (None, db1) \<Rightarrow>
        (case LoadWithContext env (new_context env db1 driver) data of
           (Some err, ctx) \<Rightarrow> (Some err, Rollback env (Db ctx))
         | (None, ctx) \<Rightarrow>
            (case Commit env (Db ctx) of
               (Some err, db2) \<Rightarrow> (Some (Error err), db2)
             | (None, db2) \<Rightarrow> (None, db2))))"

definition LoadFile :: "'db Env \<Rightarrow> string \<Rightarrow> 'db \<Rightarrow> string \<Rightarrow> failure option \<times> 'db" where
  "LoadFile env filename db driver =
    (case ReadFile env filename of
       Inl err \<Rightarrow> (Some (Error (NewFileError filename err)), db)
     | Inr data \<Rightarrow>
        (case Begin env db of
           (Some err, db1) \<Rightarrow> (Some (Error err), db1)
         | (None, db1) \<Rightarrow>
            (case LoadWithContext env (new_context env db1 driver) data of
               (Some err, ctx) \<Rightarrow> (Some err, Rollback env (Db ctx))
             | (None, ctx) \<Rightarrow>
                (case Commit env (Db ctx) of
                   (Some err, db2) \<Rightarrow> (Some (Error err), db2)
                 | (None, db2) \<Rightarrow> (None, db2)))))"

text \<open>The loop of \<open>LoadFiles\<close> over the file names.\<close>

fun load_files ::
  "'db Env \<Rightarrow> string list \<Rightarrow> 'db Context \<Rightarrow> failure option \<times> 'db Context" where
  "load_files env [] ctx = (None, ctx)"
| "load_files env (filename # filenames) ctx =
    (case ReadFile env filename of
       Inl err \<Rightarrow> (Some (Error (NewFileError filename err)), ctx)
     | Inr data \<Rightarrow>
        (case LoadWithContext env ctx data of
           (Some err, ctx1) \<Rightarrow> (Some err, ctx1)
         | (None, ctx1) \<Rightarrow> load_files env filenames ctx1))"

definition LoadFiles ::
  "'db Env \<Rightarrow> string list \<Rightarrow> 'db \<Rightarrow> string \<Rightarrow> failure option \<times> 'db" where
  "LoadFiles env filenames db driver =
    (case Begin env db of
       (Some err, db1) \<Rightarrow> (Some (Error err), db1)
     | (None, db1) \<Rightarrow>
        (case load_files env filenames (new_context env db1 driver) of
           (Some err, ctx) \<Rightarrow> (Some err, Rollback env (Db ctx))
         | (None, ctx) \<Rightarrow>
            (case Commit env (Db ctx) of
               (Some err, db2) \<Rightarrow> (Some (Error err), db2)
             | (None, db2) \<Rightarrow> (None, db2))))"

section \<open>A scripted database, for the examples\<close>

text \<open>
  The state of the scripted database is the list of answers still to give to each kind
  of call, and the number of statements it has taken. An exhausted list fails the call.
\<close>

record script =
  counts :: "(string + int) list"
  names :: "(string + string option) list"
  results :: "(string + (string + int)) list"
  taken :: nat

definition scripted :: "script Tx" where
  "scripted =
    \<lparr>ScanInt = (\<lambda>query args s.
        case counts s of
          [] \<Rightarrow> (Inl ''sql: no rows in result set'', s\<lparr>taken := Suc (taken s)\<rparr>)
        | r # rs \<Rightarrow> (r, s\<lparr>counts := rs, taken := Suc (taken s)\<rparr>)),
     ScanName = (\<lambda>query args s.
        case names s of
          [] \<Rightarrow> (Inl ''sql: no rows in result set'', s\<lparr>taken := Suc (taken s)\<rparr>)
        | r # rs \<Rightarrow> (r, s\<lparr>names := rs, taken := Suc (taken s)\<rparr>)),
     ExecLastInsertId = (\<lambda>query args s.
        case results s of
          [] \<Rightarrow> (Inl ''sql: statement rejected'', s\<lparr>taken := Suc (taken s)\<rparr>)
        | r # rs \<Rightarrow> (r, s\<lparr>results := rs, taken := Suc (taken s)\<rparr>))\<rparr>"

text \<open>
  A database with transactions, over scripts: \<open>stored\<close> is the committed script,
  \<open>working\<close> the copy the open transaction consumes, and \<open>sequences\<close> the names of the
  sequences that \<open>setval\<close> has set, in order. \<open>Begin\<close> copies the committed script,
  \<open>Commit\<close> stores the copy and \<open>Rollback\<close> drops it. When \<open>serial\<close> holds the database has
  sequences, and keeps them as PostgreSQL does: a \<open>setval\<close> that succeeds sets the sequence
  at once and for every session, and a rollback does not undo it. Without \<open>serial\<close> the
  database has no sequences, and \<open>setval\<close> is a statement like any other.
\<close>

record cluster =
  stored :: script
  working :: script
  sequences :: "string list"

definition is_setval :: "string \<Rightarrow> bool" where
  "is_setval query =
     HasPrefix query ([CHR 0x0A, CHR 0x09, CHR 0x09] @ ''SELECT pg_catalog.setval('')"

definition statements :: "bool \<Rightarrow> cluster Tx" where
  "statements serial =
    \<lparr>ScanInt = (\<lambda>query args c.
        case ScanInt scripted query args (working c) of (r, w) \<Rightarrow> (r, c\<lparr>working := w\<rparr>)),
     ScanName = (\<lambda>query args c.
        case ScanName scripted query args (working c) of (r, w) \<Rightarrow> (r, c\<lparr>working := w\<rparr>)),
     ExecLastInsertId = (\<lambda>query args c.
        case ExecLastInsertId scripted query args (working c) of
          (r, w) \<Rightarrow>
            (r, c\<lparr>working := w,
                   sequences :=
                     (if serial \<and> is_setval query then
                        (case (r, args) of
                           (Inr _, [Lit (Str seqName)]) \<Rightarrow> sequences c @ [seqName]
                         | _ \<Rightarrow> sequences c)
                      else sequences c)\<rparr>))\<rparr>"

text \<open>The environment of such a database: \<open>files\<close> gives the content of each file and
  \<open>documents\<close> the rows each content decodes to.\<close>

definition engine ::
  "bool \<Rightarrow> (string \<times> string) list \<Rightarrow> (string \<times> Row list) list \<Rightarrow> cluster Env" where
  "engine serial files documents =
    \<lparr>transaction = statements serial,
     Begin = (\<lambda>c. (None, c\<lparr>working := stored c\<rparr>)),
     Commit = (\<lambda>c. (None, c\<lparr>stored := working c\<rparr>)),
     Rollback = (\<lambda>c. c\<lparr>working := stored c\<rparr>),
     ReadFile = (\<lambda>filename.
        case map_of files filename of
          None \<Rightarrow> Inl ''no such file or directory''
        | Some data \<Rightarrow> Inr data),
     Unmarshal = (\<lambda>data.
        case map_of documents data of
          None \<Rightarrow> Inl ''yaml: cannot unmarshal''
        | Some rows \<Rightarrow> Inr rows),
     DefaultDumpSQL = True,
     DefaultSetUpdatedAtOnInsert = False\<rparr>"

text \<open>The database with the script \<open>s\<close> committed, no transaction open and no sequence
  set.\<close>

definition idle :: "script \<Rightarrow> cluster" where
  "idle s = \<lparr>stored = s, working = s, sequences = []\<rparr>"

text \<open>A row as \<open>yaml.Unmarshal\<close> leaves it: the unexported fields are empty.\<close>

definition decoded :: "string \<Rightarrow> gomap \<Rightarrow> gomap \<Rightarrow> Row" where
  "decoded table pk fs =
    \<lparr>Table = table, PK = pk, Fields = fs, pkColumns = [], pkValues = [],
     insertColumns = [], updateColumns = [], insertValues = [], updateValues = []\<rparr>"

text \<open>The context an entry point makes for a transaction on the script \<open>s\<close>, with the
  flag off.\<close>

definition start :: "script \<Rightarrow> string \<Rightarrow> script Context" where
  "start s driver =
    \<lparr>primaryKeysMap = Some Map.empty, Db = s, Driver = driver,
     DumpSQL = True, SetUpdatedAtOnInsert = False, sent = [], clock = 0\<rparr>"

subsection \<open>The rows, contexts and files of the examples\<close>

text \<open>A script with the given answers.\<close>

definition answers :: "(string + int) list \<Rightarrow> (string + string option) list \<Rightarrow>
    (string + (string + int)) list \<Rightarrow> script" where
  "answers cs ns rs = \<lparr>counts = cs, names = ns, results = rs, taken = 0\<rparr>"

text \<open>A database that fails nothing: it finds no row, names no sequence and gives the number of
  statements taken as the last insert id.\<close>

definition agreeable :: "script Tx" where
  "agreeable =
    \<lparr>ScanInt = (\<lambda>query args s. (Inr 0, s\<lparr>taken := Suc (taken s)\<rparr>)),
     ScanName = (\<lambda>query args s. (Inr None, s\<lparr>taken := Suc (taken s)\<rparr>)),
     ExecLastInsertId = (\<lambda>query args s. (Inr (Inr (int (taken s))), s\<lparr>taken := Suc (taken s)\<rparr>))\<rparr>"

definition stamped_row :: Row where
  "stamped_row =
    decoded ''posts'' [(''id'', Num 1)]
      [(''created_at'', Str ''ON_INSERT_NOW()''), (''title'', Str ''Hello''),
       (''updated_at'', Str ''ON_UPDATE_NOW()'')]"

definition plain_row :: Row where
  "plain_row =
    decoded ''notes'' [(''slug'', Str ''PK_GENERATE(uid'')]
      [(''body'', Str ''ON_INSERT_NOW''), (''owner'', Str ''PK_REFERENCE(  uid  )'')]"

definition account_row :: Row where
  "account_row =
    decoded ''accounts'' [(''tenant'', Num 7), (''code'', Str ''a1'')]
      [(''name'', Str ''Alice''), (''born'', Str ''ON_INSERT_NOW()'')]"

definition post_row :: Row where
  "post_row =
    decoded ''posts'' [(''id'', Num 5)]
      [(''title'', Str ''Hello''), (''body'', Str ''text'')]"

definition user_row :: Row where
  "user_row = decoded ''users'' [(''id'', Str ''PK_GENERATE(uid)'')] [(''name'', Str ''Alice'')]"

definition member_row :: Row where
  "member_row =
    decoded ''members'' [(''org'', Num 3), (''id'', Str ''PK_GENERATE(mid)'')]
      [(''role'', Str ''admin'')]"

definition pet_row :: Row where
  "pet_row = decoded ''pets'' [(''id'', Num 1)] [(''owner_id'', Str ''PK_REFERENCE(uid)'')]"

definition visit_row :: Row where
  "visit_row = decoded ''visits'' [(''pet_id'', Str ''PK_REFERENCE(pid)'')] []"

definition country_row :: Row where
  "country_row = decoded ''countries'' [(''code'', Str ''nz'')] [(''name'', Str ''Aotearoa'')]"

definition tag_row :: Row where
  "tag_row = decoded ''tags'' [(''id'', Num 9)] [(''label'', Str ''new'')]"

definition mysql_ctx :: "script Context" where
  "mysql_ctx = start (answers [Inr 0] [] [Inr (Inr 1)]) ''mysql''"

definition postgres_update_ctx :: "script Context" where
  "postgres_update_ctx =
     start (answers [Inr 1] [Inr (Some ''posts_id_seq'')] [Inr (Inr 0), Inr (Inr 0)]) ''postgres''"

definition postgres_ctx :: "script Context" where
  "postgres_ctx = start (answers [Inr 7] [] []) ''postgres''"

definition mysql_generated_ctx :: "script Context" where
  "mysql_generated_ctx = start (answers [] [] [Inr (Inr 12)]) ''mysql''"

text \<open>A context made outside the package: its registry is the nil map.\<close>

definition foreign_ctx :: "script Context" where
  "foreign_ctx = (start (answers [] [] [Inr (Inr 12)]) ''mysql'')\<lparr>primaryKeysMap := None\<rparr>"

definition postgres_insert_ctx :: "script Context" where
  "postgres_insert_ctx =
     start (answers [Inr 0] [Inr (Some ''tags_id_seq'')] [Inr (Inr 0), Inr (Inr 0)]) ''postgres''"

definition postgres_country_ctx :: "script Context" where
  "postgres_country_ctx =
     start (answers [Inr 0] [Inr (Some ''countries_code_seq'')] [Inr (Inr 0), Inr (Inr 0)])
       ''postgres''"

text \<open>Two files, and their rows in one document, on a database without sequences whose
  script answers one INSERT.\<close>

definition batch_env :: "cluster Env" where
  "batch_env =
     engine False [(''users.yml'', ''users''), (''pets.yml'', ''pets'')]
       [(''users'', [user_row]), (''pets'', [pet_row, visit_row]),
        (''all'', [user_row, pet_row, visit_row])]"

definition one_insert :: script where
  "one_insert = answers [] [] [Inr (Inr 12)]"

text \<open>Three files on a database without sequences that answers all their statements: the
  first file generates a key under the name \<open>uid\<close>, the last row of the third file refers
  to it.\<close>

definition family_env :: "cluster Env" where
  "family_env =
     engine False
       [(''users.yml'', ''users''), (''posts.yml'', ''posts''), (''pets.yml'', ''pets'')]
       [(''users'', [user_row, tag_row]), (''posts'', [post_row]),
        (''pets'', [country_row, pet_row])]"

definition family_db :: script where
  "family_db =
     answers [Inr 0, Inr 0, Inr 0, Inr 0] []
       [Inr (Inr 12), Inr (Inr 0), Inr (Inr 0), Inr (Inr 0), Inr (Inr 0)]"

text \<open>The context \<open>LoadFiles\<close> makes for them, and the contexts the loop reaches after the
  first file, after the second file, and before the last row of the third file.\<close>

definition family_ctx :: "cluster Context" where
  "family_ctx = new_context family_env (idle family_db) ''mysql''"

definition after_users :: "cluster Context" where
  "after_users = snd (load_rows (transaction family_env) 0 (user_row # [tag_row]) family_ctx)"

definition after_posts :: "cluster Context" where
  "after_posts = snd (load_files family_env [''posts.yml''] after_users)"

definition before_pet :: "cluster Context" where
  "before_pet = snd (load_rows (transaction family_env) 0 [country_row] after_posts)"

text \<open>A document of two rows on a database with sequences: the first row is inserted with
  its \<open>id\<close> and the sequence of the table is set, the INSERT of the second row fails.\<close>

definition serial_env :: "cluster Env" where
  "serial_env = engine True [] [(''tags'', [tag_row, post_row])]"

definition serial_db :: script where
  "serial_db =
     answers [Inr 0, Inr 0] [Inr (Some ''tags_id_seq'')]
       [Inr (Inr 0), Inr (Inr 0), Inl ''pq: relation posts does not exist'']"

section \<open>What the theorems speak of\<close>

text \<open>The value is a reading of the clock.\<close>

definition is_time :: "iface \<Rightarrow> bool" where
  "is_time x = (case x of Time t \<Rightarrow> True | _ \<Rightarrow> False)"

text \<open>The value \<open>x\<close> is one the field loop binds to the column \<open>k\<close> of the field map \<open>fs\<close>: a
  reading of the clock for a timestamp marker, and otherwise \<open>fieldValue\<close> of the entry.\<close>

definition bound_to :: "gomap \<Rightarrow> string \<Rightarrow> iface \<Rightarrow> bool" where
  "bound_to fs k x =
    (if index fs k = Str onInsertNow \<or> index fs k = Str onUpdateNow then is_time x
     else x = fieldValue (index fs k))"

text \<open>The string matches one of the four marker patterns.\<close>

definition marker :: "string \<Rightarrow> bool" where
  "marker sv \<longleftrightarrow>
     sv = onInsertNow \<or> sv = onUpdateNow \<or>
     HasPrefix sv onPKGeneratePrefix \<and> HasSuffix sv onPKGenerateSuffix \<or>
     HasPrefix sv onPKReferencePrefix \<and> HasSuffix sv onPKReferenceSuffix"

text \<open>What the getters put in the place of one value: \<open>Get\<close> for a reference, the value itself
  otherwise.\<close>

definition resolved :: "registry \<Rightarrow> iface \<Rightarrow> iface" where
  "resolved reg v = (case v of PrimaryKeyReference name \<Rightarrow> Get name reg | _ \<Rightarrow> v)"

text \<open>The conditions \<open>GetWhere\<close> joins with \<open>AND\<close>, for the columns \<open>cs\<close>, numbered from \<open>i\<close>.\<close>

definition conditions :: "string \<Rightarrow> nat \<Rightarrow> string list \<Rightarrow> string list" where
  "conditions driver i cs =
     map (\<lambda>(n, c). if driver = postgresDriver then c @ '' = $'' @ itoa (n + 1) else c @ '' = ?'')
       (enumerate i cs)"

text \<open>The text of the statement that counts the rows with the primary key.\<close>

definition select_count :: "string \<Rightarrow> string \<Rightarrow> string list \<Rightarrow> string" where
  "select_count driver table pkcols =
     ''SELECT COUNT(*) FROM '' @ quoted table @ '' WHERE '' @
     Join (conditions driver 0 pkcols) '' AND ''"

text \<open>The text of the UPDATE statement of a row.\<close>

definition update_statement :: "string \<Rightarrow> Row \<Rightarrow> string" where
  "update_statement driver row =
     ''UPDATE '' @ quoted (Table row) @ '' SET '' @
     Join (GetUpdatePlaceholders driver row) '', '' @ '' WHERE '' @
     Join (conditions driver (length (updateColumns row)) (pkColumns row)) '' AND ''"

text \<open>The row as \<open>Init\<close> leaves it when it is loaded in the context \<open>ctx\<close>.\<close>

definition compiled :: "'db Context \<Rightarrow> Row \<Rightarrow> Row" where
  "compiled ctx row0 = fst (Init (SetUpdatedAtOnInsert ctx) row0 (clock ctx))"

text \<open>The statement that counts, the INSERT and the UPDATE of a compiled row, with their
  arguments.\<close>

definition count_call :: "'db Context \<Rightarrow> Row \<Rightarrow> call" where
  "count_call ctx row =
     QueryRow (select_count (Driver ctx) (Table row) (pkColumns row))
       (map (resolved (primaryKeys ctx)) (pkValues row))"

definition insert_call :: "'db Context \<Rightarrow> Row \<Rightarrow> call" where
  "insert_call ctx row =
     Exec (insert_statement (Table row)
             (map quoted (pkColumns row) @ map quoted (insertColumns row))
             (map (placeholder (Driver ctx))
                [0 ..< length (pkColumns row) + length (insertColumns row)]))
       (map (resolved (primaryKeys ctx)) (pkValues row) @
        map (resolved (primaryKeys ctx)) (insertValues row))"

definition update_call :: "'db Context \<Rightarrow> Row \<Rightarrow> call" where
  "update_call ctx row =
     Exec (update_statement (Driver ctx) row)
       (map (resolved (primaryKeys ctx)) (updateValues row) @
        map (resolved (primaryKeys ctx)) (pkValues row))"

text \<open>What the database answers to the statement that counts.\<close>

definition count_answer :: "'db Tx \<Rightarrow> 'db Context \<Rightarrow> Row \<Rightarrow> string + int" where
  "count_answer tx ctx row =
     fst (ScanInt tx (select_count (Driver ctx) (Table row) (pkColumns row))
            (map (resolved (primaryKeys ctx)) (pkValues row)) (Db ctx))"

text \<open>The INSERT of the generated-insert path: a query with \<open>RETURNING\<close> for postgres, an
  \<open>Exec\<close> for the other drivers.\<close>

definition generated_call :: "'db Context \<Rightarrow> Row \<Rightarrow> string \<Rightarrow> call" where
  "generated_call ctx row pkColumn =
    (let insertQuery =
       insert_statement (Table row) (map quoted (insertColumns row))
         (map (placeholder (Driver ctx)) [0 ..< length (insertColumns row)]);
         args = map (resolved (primaryKeys ctx)) (insertValues row)
     in if Driver ctx = ''postgres''
        then QueryRow (insertQuery @ '' RETURNING '' @ pkColumn) args
        else Exec insertQuery args)"

text \<open>What the database answers to the generated insert: an error or the key.\<close>

definition generated_key ::
  "'db Tx \<Rightarrow> 'db Context \<Rightarrow> Row \<Rightarrow> string \<Rightarrow> string + int" where
  "generated_key tx ctx row pkColumn =
    (case generated_call ctx row pkColumn of
       QueryRow query args \<Rightarrow> fst (ScanInt tx query args (Db ctx))
     | Exec query args \<Rightarrow>
        (case fst (ExecLastInsertId tx query args (Db ctx)) of
           Inl err \<Rightarrow> Inl err
         | Inr lastInsertId \<Rightarrow> lastInsertId))"

text \<open>The arguments of a call.\<close>

fun arguments :: "call \<Rightarrow> iface list" where
  "arguments (QueryRow query args) = args"
| "arguments (Exec query args) = args"

text \<open>The call is one of the two statements of \<open>fixPostgresPKSequence\<close> for the column \<open>id\<close>
  of the table.\<close>

fun sequence_call :: "string \<Rightarrow> call \<Rightarrow> bool" where
  "sequence_call table (QueryRow query args) \<longleftrightarrow>
     query = sequence_query \<and> args = [Lit (Str table), Lit (Str ''id'')]"
| "sequence_call table (Exec query args) \<longleftrightarrow>
     query = setval_query ''id'' table \<and> (case args of [Lit (Str seqName)] \<Rightarrow> True | _ \<Rightarrow> False)"

text \<open>The query for the sequence of the column \<open>id\<close> of a table, and the answer to it.\<close>

definition sequence_lookup :: "string \<Rightarrow> call" where
  "sequence_lookup table = QueryRow sequence_query [Lit (Str table), Lit (Str ''id'')]"

definition sequence_answer :: "'db Tx \<Rightarrow> 'db Context \<Rightarrow> string \<Rightarrow> string + string option" where
  "sequence_answer tx ctx table =
     fst (ScanName tx sequence_query [Lit (Str table), Lit (Str ''id'')] (Db ctx))"

text \<open>The database fails no statement (and gives a \<open>LastInsertId\<close>).\<close>

definition accepting :: "'db Tx \<Rightarrow> bool" where
  "accepting tx \<longleftrightarrow>
     (\<forall>query args db.
        (\<exists>n. fst (ScanInt tx query args db) = Inr n) \<and>
        (\<exists>seqName. fst (ScanName tx query args db) = Inr seqName) \<and>
        (\<exists>n. fst (ExecLastInsertId tx query args db) = Inr (Inr n)))"

text \<open>The primary key of the row as it is decoded is the single marker \<open>PK_GENERATE(name)\<close>:
  what \<open>Init\<close> puts in \<open>pkValues\<close> is the generator of \<open>name\<close> alone.\<close>

definition generates :: "string \<Rightarrow> Row \<Rightarrow> bool" where
  "generates name row0 \<longleftrightarrow>
     map (\<lambda>pkKey. pkValue (index (PK row0) pkKey)) (sorted_keys (PK row0)) =
       [PrimaryKeyGenerator name]"

text \<open>The registry holds keys the database gave, and nothing else.\<close>

definition keys_only :: "registry \<Rightarrow> bool" where
  "keys_only reg \<longleftrightarrow> (\<forall>name v. reg name = Some v \<longrightarrow> (\<exists>key. v = Int64 key))"

text \<open>The rows of a file, none when it cannot be read or decoded.\<close>

definition rows_of :: "'db Env \<Rightarrow> string \<Rightarrow> Row list" where
  "rows_of env filename =
    (case ReadFile env filename of
       Inl err \<Rightarrow> []
     | Inr data \<Rightarrow> (case Unmarshal env data of Inl err \<Rightarrow> [] | Inr rows \<Rightarrow> rows))"

text \<open>The database undoes what a transaction did: a rollback after one more statement of
  the transaction leaves what a rollback before it leaves.\<close>

definition undoes :: "'db Env \<Rightarrow> bool" where
  "undoes env \<longleftrightarrow>
     (\<forall>query args db.
        Rollback env (snd (ScanInt (transaction env) query args db)) = Rollback env db \<and>
        Rollback env (snd (ScanName (transaction env) query args db)) = Rollback env db \<and>
        Rollback env (snd (ExecLastInsertId (transaction env) query args db)) =
          Rollback env db)"

text \<open>The result of a row at index \<open>i\<close> is nil, a panic or an error that names the row \<open>i + 1\<close>.\<close>

definition row_failure :: "nat \<Rightarrow> failure option \<Rightarrow> bool" where
  "row_failure i r \<longleftrightarrow>
     r = None \<or> r = Some Panic \<or> (\<exists>err. r = Some (Error (NewProcessingError (i + 1) err)))"

section \<open>Properties of \<open>Row.Init\<close>\<close>

lemma init_fields_frame:
  "init_fields flag ks row now = (row', now') \<Longrightarrow>
     Table row' = Table row \<and> PK row' = PK row \<and> Fields row' = Fields row \<and>
     pkColumns row' = pkColumns row \<and> pkValues row' = pkValues row \<and> now \<le> now'"
proof (induction ks arbitrary: row now)
  case Nil
  then show ?case by simp
next
  case (Cons k ks)
  then show ?case
    by (fastforce simp: Let_def split: if_splits dest!: Cons.IH)
qed

lemma init_fields_columns:
  "init_fields flag ks row now = (row', now') \<Longrightarrow>
     insertColumns row' =
       insertColumns row @ filter (\<lambda>k. index (Fields row) k = Str onUpdateNow \<longrightarrow> flag) ks \<and>
     updateColumns row' =
       updateColumns row @ filter (\<lambda>k. index (Fields row) k \<noteq> Str onInsertNow) ks"
proof (induction ks arbitrary: row now)
  case Nil
  then show ?case by simp
next
  case (Cons k ks)
  then show ?case
    by (fastforce simp: Let_def onInsertNow_def onUpdateNow_def split: if_splits dest!: Cons.IH)
qed

lemma init_fields_values:
  "init_fields flag ks row now = (row', now') \<Longrightarrow>
   list_all2 (bound_to (Fields row)) (insertColumns row) (insertValues row) \<Longrightarrow>
   list_all2 (bound_to (Fields row)) (updateColumns row) (updateValues row) \<Longrightarrow>
     list_all2 (bound_to (Fields row)) (insertColumns row') (insertValues row') \<and>
     list_all2 (bound_to (Fields row)) (updateColumns row') (updateValues row')"
proof (induction ks arbitrary: row now)
  case Nil
  then show ?case by simp
next
  case (Cons k ks)
  let ?v = "index (Fields row) k"
  show ?case
  proof (cases "?v = Str onInsertNow")
    case True
    let ?r = "row\<lparr>insertColumns := insertColumns row @ [k],
                    insertValues := insertValues row @ [Time now]\<rparr>"
    from True Cons.prems(1) have run: "init_fields flag ks ?r (Suc now) = (row', now')"
      by simp
    have "bound_to (Fields row) k (Time now)"
      using True by (simp add: bound_to_def is_time_def)
    with Cons.prems(2,3) show ?thesis
      using Cons.IH [OF run] by (simp add: list_all2_appendI)
  next
    case noins: False
    show ?thesis
    proof (cases "?v = Str onUpdateNow")
      case True
      have b: "bound_to (Fields row) k (Time t)" for t
        using True by (simp add: bound_to_def is_time_def)
      let ?r1 = "row\<lparr>updateColumns := updateColumns row @ [k],
                       updateValues := updateValues row @ [Time now]\<rparr>"
      show ?thesis
      proof (cases flag)
        case True
        let ?r = "?r1\<lparr>insertColumns := insertColumns ?r1 @ [k],
                        insertValues := insertValues ?r1 @ [Time (Suc now)]\<rparr>"
        from True \<open>?v = Str onUpdateNow\<close> noins Cons.prems(1)
        have run: "init_fields flag ks ?r (Suc (Suc now)) = (row', now')"
          by (simp add: Let_def)
        from Cons.prems(2,3) b show ?thesis
          using Cons.IH [OF run] by (simp add: list_all2_appendI)
      next
        case False
        from False \<open>?v = Str onUpdateNow\<close> noins Cons.prems(1)
        have run: "init_fields flag ks ?r1 (Suc now) = (row', now')"
          by (simp add: Let_def)
        from Cons.prems(2,3) b show ?thesis
          using Cons.IH [OF run] by (simp add: list_all2_appendI)
      qed
    next
      case False
      let ?r = "row\<lparr>insertColumns := insertColumns row @ [k],
                      insertValues := insertValues row @ [fieldValue ?v],
                      updateColumns := updateColumns row @ [k],
                      updateValues := updateValues row @ [fieldValue ?v]\<rparr>"
      from False noins Cons.prems(1)
      have run: "init_fields flag ks ?r now = (row', now')"
        by (simp add: Let_def)
      have "bound_to (Fields row) k (fieldValue ?v)"
        using False noins by (simp add: bound_to_def)
      with Cons.prems(2,3) show ?thesis
        using Cons.IH [OF run] by (simp add: list_all2_appendI)
    qed
  qed
qed


lemma init_fields_suffix:
  "init_fields flag ks row now = (row', now') \<Longrightarrow>
   length (insertColumns row) = length (insertValues row) \<Longrightarrow>
   length (updateColumns row) = length (updateValues row) \<Longrightarrow>
     (\<exists>cs vs. insertColumns row' = insertColumns row @ cs \<and>
        insertValues row' = insertValues row @ vs \<and> length cs = length vs) \<and>
     (\<exists>cs vs. updateColumns row' = updateColumns row @ cs \<and>
        updateValues row' = updateValues row @ vs \<and> length cs = length vs)"
proof (induction ks arbitrary: row now)
  case Nil
  then show ?case by simp
next
  case (Cons k ks)
  then show ?case
    by (fastforce simp: Let_def split: if_splits dest!: Cons.IH)
qed

lemma map_of_zip_keep:
  "map_of (zip cs vs) k = Some x \<Longrightarrow> length cs = length vs \<Longrightarrow>
     map_of (zip (cs @ cs') (vs @ vs')) k = Some x"
  by (simp add: map_add_Some_iff)

lemma map_of_zip_snoc:
  "k \<notin> set cs \<Longrightarrow> length cs = length vs \<Longrightarrow>
     map_of (zip (cs @ [k]) (vs @ [x])) k = Some x"
  by (simp add: map_add_Some_iff map_of_zip_is_None [THEN iffD2])

lemma init_fields_keep:
  assumes "init_fields flag ks row now = (row', now')"
    and "length (insertColumns row) = length (insertValues row)"
    and "length (updateColumns row) = length (updateValues row)"
  shows "map_of (zip (insertColumns row) (insertValues row)) k = Some x \<Longrightarrow>
           map_of (zip (insertColumns row') (insertValues row')) k = Some x"
    and "map_of (zip (updateColumns row) (updateValues row)) k = Some x \<Longrightarrow>
           map_of (zip (updateColumns row') (updateValues row')) k = Some x"
  using init_fields_suffix [OF assms] assms(2,3) by (auto simp: map_of_zip_keep)


lemma init_fields_step:
  assumes "length (insertColumns row) = length (insertValues row)"
    and "length (updateColumns row) = length (updateValues row)"
  shows "\<exists>r n. init_fields flag (a # ks) row now = init_fields flag ks r n \<and>
           Fields r = Fields row \<and>
           set (insertColumns r) \<subseteq> insert a (set (insertColumns row)) \<and>
           set (updateColumns r) \<subseteq> insert a (set (updateColumns row)) \<and>
           length (insertColumns r) = length (insertValues r) \<and>
           length (updateColumns r) = length (updateValues r)"
proof (cases "index (Fields row) a = Str onInsertNow")
  case True
  show ?thesis
    by (rule exI [where x = "row\<lparr>insertColumns := insertColumns row @ [a],
          insertValues := insertValues row @ [Time now]\<rparr>"], rule exI [where x = "Suc now"])
      (use True assms in \<open>auto simp: Let_def\<close>)
next
  case noins: False
  show ?thesis
  proof (cases "index (Fields row) a = Str onUpdateNow")
    case True
    let ?r1 = "row\<lparr>updateColumns := updateColumns row @ [a],
                     updateValues := updateValues row @ [Time now]\<rparr>"
    show ?thesis
    proof (cases flag)
      case flag: True
      show ?thesis
        by (rule exI [where x = "?r1\<lparr>insertColumns := insertColumns ?r1 @ [a],
              insertValues := insertValues ?r1 @ [Time (Suc now)]\<rparr>"],
            rule exI [where x = "Suc (Suc now)"])
          (use True noins flag assms in \<open>auto simp: Let_def\<close>)
    next
      case flag: False
      show ?thesis
        by (rule exI [where x = ?r1], rule exI [where x = "Suc now"])
          (use True noins flag assms in \<open>auto simp: Let_def\<close>)
    qed
  next
    case False
    show ?thesis
      by (rule exI [where x = "row\<lparr>insertColumns := insertColumns row @ [a],
            insertValues := insertValues row @ [fieldValue (index (Fields row) a)],
            updateColumns := updateColumns row @ [a],
            updateValues := updateValues row @ [fieldValue (index (Fields row) a)]\<rparr>"],
          rule exI [where x = now])
        (use False noins assms in \<open>auto simp: Let_def\<close>)
  qed
qed

lemma init_fields_update_now:
  "init_fields flag ks row now = (row', now') \<Longrightarrow>
   k \<in> set ks \<Longrightarrow> distinct ks \<Longrightarrow>
   k \<notin> set (insertColumns row) \<Longrightarrow> k \<notin> set (updateColumns row) \<Longrightarrow>
   length (insertColumns row) = length (insertValues row) \<Longrightarrow>
   length (updateColumns row) = length (updateValues row) \<Longrightarrow>
   index (Fields row) k = Str onUpdateNow \<Longrightarrow>
     \<exists>t. map_of (zip (updateColumns row') (updateValues row')) k = Some (Time t) \<and>
         (flag \<longrightarrow> map_of (zip (insertColumns row') (insertValues row')) k = Some (Time (Suc t)))"
proof (induction ks arbitrary: row now)
  case Nil
  then show ?case by simp
next
  case (Cons a ks)
  have ne: "Str onUpdateNow \<noteq> Str onInsertNow"
    by (simp add: onUpdateNow_def onInsertNow_def)
  show ?case
  proof (cases "a = k")
    case True
    let ?r1 = "row\<lparr>updateColumns := updateColumns row @ [k],
                     updateValues := updateValues row @ [Time now]\<rparr>"
    show ?thesis
    proof (cases flag)
      case flag: True
      let ?r = "?r1\<lparr>insertColumns := insertColumns ?r1 @ [k],
                      insertValues := insertValues ?r1 @ [Time (Suc now)]\<rparr>"
      from True flag Cons.prems(1,8) ne
      have run: "init_fields flag ks ?r (Suc (Suc now)) = (row', now')"
        by (simp add: Let_def)
      have u: "map_of (zip (updateColumns ?r) (updateValues ?r)) k = Some (Time now)"
        using map_of_zip_snoc [OF Cons.prems(5,7), of "Time now"] by simp
      have i: "map_of (zip (insertColumns ?r) (insertValues ?r)) k = Some (Time (Suc now))"
        using map_of_zip_snoc [OF Cons.prems(4,6), of "Time (Suc now)"] by simp
      have l: "length (insertColumns ?r) = length (insertValues ?r)"
        "length (updateColumns ?r) = length (updateValues ?r)"
        using Cons.prems(6,7) by simp_all
      from init_fields_keep [OF run l] u i show ?thesis by blast
    next
      case flag: False
      from True flag Cons.prems(1,8) ne
      have run: "init_fields flag ks ?r1 (Suc now) = (row', now')"
        by (simp add: Let_def)
      have u: "map_of (zip (updateColumns ?r1) (updateValues ?r1)) k = Some (Time now)"
        using map_of_zip_snoc [OF Cons.prems(5,7), of "Time now"] by simp
      have l: "length (insertColumns ?r1) = length (insertValues ?r1)"
        "length (updateColumns ?r1) = length (updateValues ?r1)"
        using Cons.prems(6,7) by simp_all
      from init_fields_keep(2) [OF run l] u flag show ?thesis by blast
    qed
  next
    case False
    with Cons.prems have k: "k \<in> set ks" "distinct ks" by auto
    obtain r n where step: "init_fields flag (a # ks) row now = init_fields flag ks r n"
      and fr: "Fields r = Fields row"
      and ic: "set (insertColumns r) \<subseteq> insert a (set (insertColumns row))"
      and uc: "set (updateColumns r) \<subseteq> insert a (set (updateColumns row))"
      and l: "length (insertColumns r) = length (insertValues r)"
        "length (updateColumns r) = length (updateValues r)"
      using init_fields_step [OF Cons.prems(6,7)] by blast
    from step Cons.prems(1) have run: "init_fields flag ks r n = (row', now')" by simp
    from ic uc False Cons.prems(4,5)
    have "k \<notin> set (insertColumns r)" "k \<notin> set (updateColumns r)" by auto
    with Cons.IH [OF run k] l fr Cons.prems(8) show ?thesis by simp
  qed
qed

lemma sorted_keys_props:
  "sorted (sorted_keys m)" "distinct (sorted_keys m)" "set (sorted_keys m) = fst ` set m"
  by (simp_all add: sorted_keys_def)

lemma index_Str_dom: "index m k = Str sv \<Longrightarrow> k \<in> set (sorted_keys m)"
  by (auto simp: index_def sorted_keys_props split: option.splits dest: map_of_SomeD intro: rev_image_eqI)

lemma init_fields_fst:
  fixes flag ks row now
  defines "row' \<equiv> fst (init_fields flag ks row now)"
  shows "Table row' = Table row" "PK row' = PK row" "Fields row' = Fields row"
    "pkColumns row' = pkColumns row" "pkValues row' = pkValues row"
    "insertColumns row' =
       insertColumns row @ filter (\<lambda>k. index (Fields row) k = Str onUpdateNow \<longrightarrow> flag) ks"
    "updateColumns row' =
       updateColumns row @ filter (\<lambda>k. index (Fields row) k \<noteq> Str onInsertNow) ks"
proof -
  have run: "init_fields flag ks row now = (row', snd (init_fields flag ks row now))"
    by (simp add: row'_def)
  from init_fields_frame [OF run]
  show "Table row' = Table row" "PK row' = PK row" "Fields row' = Fields row"
    "pkColumns row' = pkColumns row" "pkValues row' = pkValues row"
    by simp_all
  from init_fields_columns [OF run]
  show "insertColumns row' =
       insertColumns row @ filter (\<lambda>k. index (Fields row) k = Str onUpdateNow \<longrightarrow> flag) ks"
    "updateColumns row' =
       updateColumns row @ filter (\<lambda>k. index (Fields row) k \<noteq> Str onInsertNow) ks"
    by simp_all
qed

lemma Init_frame:
  "Table (fst (Init flag row0 now)) = Table row0"
  "PK (fst (Init flag row0 now)) = PK row0"
  "Fields (fst (Init flag row0 now)) = Fields row0"
  "pkColumns (fst (Init flag row0 now)) = sorted_keys (PK row0)"
  "pkValues (fst (Init flag row0 now)) =
     map (\<lambda>pkKey. pkValue (index (PK row0) pkKey)) (sorted_keys (PK row0))"
  by (simp_all add: Init_def init_fields_fst)

lemma Init_columns:
  "insertColumns (fst (Init flag row0 now)) =
     filter (\<lambda>k. index (Fields row0) k = Str onUpdateNow \<longrightarrow> flag) (sorted_keys (Fields row0))"
  "updateColumns (fst (Init flag row0 now)) =
     filter (\<lambda>k. index (Fields row0) k \<noteq> Str onInsertNow) (sorted_keys (Fields row0))"
  by (simp_all add: Init_def init_fields_fst)

lemma Init_values:
  "list_all2 (bound_to (Fields row0)) (insertColumns (fst (Init flag row0 now)))
     (insertValues (fst (Init flag row0 now)))"
  "list_all2 (bound_to (Fields row0)) (updateColumns (fst (Init flag row0 now)))
     (updateValues (fst (Init flag row0 now)))"
proof -
  let ?r = "row0\<lparr>insertColumns := [], insertValues := [], updateColumns := [],
      updateValues := [], pkColumns := sorted_keys (PK row0),
      pkValues := map (\<lambda>pkKey. pkValue (index (PK row0) pkKey)) (sorted_keys (PK row0))\<rparr>"
  have run: "init_fields flag (sorted_keys (Fields row0)) ?r now =
      (fst (Init flag row0 now), snd (Init flag row0 now))"
    by (simp add: Init_def)
  from init_fields_values [OF run]
  show "list_all2 (bound_to (Fields row0)) (insertColumns (fst (Init flag row0 now)))
     (insertValues (fst (Init flag row0 now)))"
    "list_all2 (bound_to (Fields row0)) (updateColumns (fst (Init flag row0 now)))
     (updateValues (fst (Init flag row0 now)))"
    by simp_all
qed

lemma Init_update_now:
  assumes "index (Fields row0) k = Str onUpdateNow"
  shows "\<exists>t. map_of (zip (updateColumns (fst (Init flag row0 now)))
                 (updateValues (fst (Init flag row0 now)))) k = Some (Time t) \<and>
             (flag \<longrightarrow> map_of (zip (insertColumns (fst (Init flag row0 now)))
                 (insertValues (fst (Init flag row0 now)))) k = Some (Time (Suc t)))"
proof -
  let ?r = "row0\<lparr>insertColumns := [], insertValues := [], updateColumns := [],
      updateValues := [], pkColumns := sorted_keys (PK row0),
      pkValues := map (\<lambda>pkKey. pkValue (index (PK row0) pkKey)) (sorted_keys (PK row0))\<rparr>"
  have run: "init_fields flag (sorted_keys (Fields row0)) ?r now =
      (fst (Init flag row0 now), snd (Init flag row0 now))"
    by (simp add: Init_def)
  from init_fields_update_now [OF run index_Str_dom [OF assms] sorted_keys_props(2)] assms
  show ?thesis by simp
qed

lemma list_all2_map_of:
  assumes "list_all2 R cs vs" and "k \<in> set cs"
  shows "\<exists>x. map_of (zip cs vs) k = Some x \<and> R k x"
proof -
  from assms have len: "length cs = length vs" by (simp add: list_all2_lengthD)
  with assms(2) obtain x where x: "map_of (zip cs vs) k = Some x"
    using map_of_zip_is_None [of cs vs k] by (cases "map_of (zip cs vs) k") auto
  then have "(k, x) \<in> set (zip cs vs)" by (rule map_of_SomeD)
  with assms(1) have "R k x" by (auto simp: list_all2_iff)
  with x show ?thesis by blast
qed


lemma is_time_iff: "is_time x \<longleftrightarrow> (\<exists>t. x = Time t)"
  by (cases x) (simp_all add: is_time_def)

text \<open>
  C8. In a compiled row an \<open>ON_INSERT_NOW()\<close> field is among the insert columns, bound to
  a reading of the clock, and not among the update columns. An \<open>ON_UPDATE_NOW()\<close> field
  is among the update columns, and among the insert columns exactly when the flag
  \<open>SetUpdatedAtOnInsert\<close> is set; its update value and its insert value are two readings of
  the clock, the second taken after the first.
\<close>

theorem timestamp_columns:
  fixes row0 :: Row and flag :: bool and now :: nat and k :: string
  defines "row \<equiv> fst (Init flag row0 now)"
  shows
    "(index (Fields row0) k = Str onInsertNow \<longrightarrow>
        k \<in> set (insertColumns row) \<and> k \<notin> set (updateColumns row) \<and>
        (\<exists>t. map_of (zip (insertColumns row) (insertValues row)) k = Some (Time t))) \<and>
     (index (Fields row0) k = Str onUpdateNow \<longrightarrow>
        k \<in> set (updateColumns row) \<and> (k \<in> set (insertColumns row) \<longleftrightarrow> flag) \<and>
        (\<exists>t. map_of (zip (updateColumns row) (updateValues row)) k = Some (Time t) \<and>
           (flag \<longrightarrow>
              map_of (zip (insertColumns row) (insertValues row)) k = Some (Time (Suc t)))))"
proof (intro conjI impI)
  assume ins: "index (Fields row0) k = Str onInsertNow"
  have ne: "Str onInsertNow \<noteq> Str onUpdateNow"
    by (simp add: onUpdateNow_def onInsertNow_def)
  from ins ne index_Str_dom [OF ins]
  show in_ins: "k \<in> set (insertColumns row)" and "k \<notin> set (updateColumns row)"
    by (simp_all add: row_def Init_columns)
  from list_all2_map_of [OF Init_values(1) in_ins [unfolded row_def]] ins
  show "\<exists>t. map_of (zip (insertColumns row) (insertValues row)) k = Some (Time t)"
    by (auto simp: row_def bound_to_def is_time_iff)
next
  assume upd: "index (Fields row0) k = Str onUpdateNow"
  have ne: "Str onUpdateNow \<noteq> Str onInsertNow"
    by (simp add: onUpdateNow_def onInsertNow_def)
  from upd ne index_Str_dom [OF upd]
  show "k \<in> set (updateColumns row)" and "k \<in> set (insertColumns row) \<longleftrightarrow> flag"
    by (simp_all add: row_def Init_columns)
  from Init_update_now [OF upd]
  show "\<exists>t. map_of (zip (updateColumns row) (updateValues row)) k = Some (Time t) \<and>
           (flag \<longrightarrow>
              map_of (zip (insertColumns row) (insertValues row)) k = Some (Time (Suc t)))"
    by (simp add: row_def)
qed

theorem timestamp_columns_witness:
  "index (Fields stamped_row) ''updated_at'' = Str onUpdateNow \<and>
   ''updated_at'' \<in> set (updateColumns (fst (Init True stamped_row 0))) \<and>
   ''updated_at'' \<in> set (insertColumns (fst (Init True stamped_row 0))) \<and>
   (\<exists>t. map_of (zip (updateColumns (fst (Init True stamped_row 0)))
              (updateValues (fst (Init True stamped_row 0)))) ''updated_at'' = Some (Time t) \<and>
        map_of (zip (insertColumns (fst (Init True stamped_row 0)))
              (insertValues (fst (Init True stamped_row 0)))) ''updated_at'' = Some (Time (Suc t))) \<and>
   index (Fields stamped_row) ''created_at'' = Str onInsertNow \<and>
   ''created_at'' \<in> set (insertColumns (fst (Init False stamped_row 0))) \<and>
   ''created_at'' \<notin> set (updateColumns (fst (Init False stamped_row 0))) \<and>
   ''updated_at'' \<notin> set (insertColumns (fst (Init False stamped_row 0)))"
proof -
  have u: "index (Fields stamped_row) ''updated_at'' = Str onUpdateNow"
    and i: "index (Fields stamped_row) ''created_at'' = Str onInsertNow"
    by code_simp+
  from u i
    timestamp_columns [where ?row0.0 = stamped_row and k = "''updated_at''" and flag = True and now = 0]
    timestamp_columns [where ?row0.0 = stamped_row and k = "''created_at''" and flag = False and now = 0]
    timestamp_columns [where ?row0.0 = stamped_row and k = "''updated_at''" and flag = False and now = 0]
  show ?thesis by blast
qed

lemma leading_space_None: "leading_space s = None \<longleftrightarrow> (\<forall>w \<in> set spaces. \<not> HasPrefix s w)"
  by (auto simp: leading_space_def find_None_iff)

lemma trailing_space_None: "trailing_space s = None \<longleftrightarrow> (\<forall>w \<in> set spaces. \<not> HasSuffix s w)"
  by (auto simp: trailing_space_def find_None_iff)

lemma TrimLeft_no_leading: "leading_space (TrimLeft s) = None"
proof (induction s rule: TrimLeft.induct)
  case (1 s)
  then show ?case
    by (cases "leading_space s") (simp_all add: TrimLeft.simps [of s])
qed

lemma TrimRight_no_trailing: "trailing_space (TrimRight s) = None"
proof (induction s rule: TrimRight.induct)
  case (1 s)
  then show ?case
    by (cases "trailing_space s") (simp_all add: TrimRight.simps [of s])
qed

lemma HasPrefix_take: "HasPrefix (take n s) w \<Longrightarrow> HasPrefix s w"
  by (auto simp: HasPrefix_def min_def split: if_splits)

lemma TrimRight_no_leading: "leading_space s = None \<Longrightarrow> leading_space (TrimRight s) = None"
proof (induction s rule: TrimRight.induct)
  case (1 s)
  show ?case
  proof (cases "trailing_space s")
    case None
    with 1 show ?thesis by (simp add: TrimRight.simps [of s])
  next
    case (Some w)
    from "1.prems" have "leading_space (take (length s - length w) s) = None"
      by (auto simp: leading_space_None dest: HasPrefix_take)
    with 1 Some show ?thesis by (simp add: TrimRight.simps [of s])
  qed
qed

lemma TrimSpace_trimmed:
  "leading_space (TrimSpace s) = None" "trailing_space (TrimSpace s) = None"
  by (simp_all add: TrimSpace_def TrimRight_no_trailing TrimRight_no_leading TrimLeft_no_leading)

lemma generate_marker:
  "pkValue (Str (onPKGeneratePrefix @ arg @ onPKGenerateSuffix)) =
     PrimaryKeyGenerator (TrimSpace arg)"
  by (simp add: pkValue_def HasPrefix_def HasSuffix_def TrimPrefix_def TrimSuffix_def
      onPKGeneratePrefix_def onPKGenerateSuffix_def)

lemma reference_marker:
  "pkValue (Str (onPKReferencePrefix @ arg @ onPKReferenceSuffix)) =
     PrimaryKeyReference (TrimSpace arg)"
  "fieldValue (Str (onPKReferencePrefix @ arg @ onPKReferenceSuffix)) =
     PrimaryKeyReference (TrimSpace arg)"
  by (simp_all add: pkValue_def fieldValue_def HasPrefix_def HasSuffix_def TrimPrefix_def
      TrimSuffix_def onPKGeneratePrefix_def onPKGenerateSuffix_def onPKReferencePrefix_def
      onPKReferenceSuffix_def)


lemma pkValue_literal: "\<not> marker sv \<Longrightarrow> pkValue (Str sv) = Lit (Str sv)"
  by (simp add: marker_def pkValue_def)

lemma fieldValue_literal: "\<not> marker sv \<Longrightarrow> fieldValue (Str sv) = Lit (Str sv)"
  by (simp add: marker_def fieldValue_def)

text \<open>
  C9. A string of the primary-key spec or of the field spec that matches none of the
  marker patterns is compiled to itself, as a literal, in the primary-key values and in
  the insert and update values; \<open>Init\<close> returns no error (it has none to return). The
  name of a \<open>PK_GENERATE(...)\<close> or \<open>PK_REFERENCE(...)\<close> marker is what stands between
  the prefix and the suffix, with the white space around it trimmed.
\<close>

theorem literal_pass_through:
  fixes row0 :: Row and flag :: bool and now :: nat and k sv arg :: string
  defines "row \<equiv> fst (Init flag row0 now)"
  shows
    "(\<not> marker sv \<and> index (PK row0) k = Str sv \<longrightarrow>
        map_of (zip (pkColumns row) (pkValues row)) k = Some (Lit (Str sv))) \<and>
     (\<not> marker sv \<and> index (Fields row0) k = Str sv \<longrightarrow>
        map_of (zip (insertColumns row) (insertValues row)) k = Some (Lit (Str sv)) \<and>
        map_of (zip (updateColumns row) (updateValues row)) k = Some (Lit (Str sv))) \<and>
     pkValue (Str (onPKGeneratePrefix @ arg @ onPKGenerateSuffix)) =
       PrimaryKeyGenerator (TrimSpace arg) \<and>
     pkValue (Str (onPKReferencePrefix @ arg @ onPKReferenceSuffix)) =
       PrimaryKeyReference (TrimSpace arg) \<and>
     fieldValue (Str (onPKReferencePrefix @ arg @ onPKReferenceSuffix)) =
       PrimaryKeyReference (TrimSpace arg) \<and>
     leading_space (TrimSpace arg) = None \<and> trailing_space (TrimSpace arg) = None"
proof (intro conjI impI)
  assume a: "\<not> marker sv \<and> index (PK row0) k = Str sv"
  then have "k \<in> set (sorted_keys (PK row0))" by (simp add: index_Str_dom)
  with a show "map_of (zip (pkColumns row) (pkValues row)) k = Some (Lit (Str sv))"
    by (simp add: row_def Init_frame map_of_zip_map pkValue_literal)
next
  assume a: "\<not> marker sv \<and> index (Fields row0) k = Str sv"
  then have k: "k \<in> set (sorted_keys (Fields row0))" by (simp add: index_Str_dom)
  from a have ne: "Str sv \<noteq> Str onInsertNow" "Str sv \<noteq> Str onUpdateNow"
    by (auto simp: marker_def)
  with a k have "k \<in> set (insertColumns row)" "k \<in> set (updateColumns row)"
    by (simp_all add: row_def Init_columns)
  from list_all2_map_of [OF Init_values(1) this(1) [unfolded row_def]]
    list_all2_map_of [OF Init_values(2) this(2) [unfolded row_def]] a ne
  show "map_of (zip (insertColumns row) (insertValues row)) k = Some (Lit (Str sv))"
    "map_of (zip (updateColumns row) (updateValues row)) k = Some (Lit (Str sv))"
    by (auto simp: row_def bound_to_def fieldValue_literal)
qed (simp_all add: generate_marker reference_marker TrimSpace_trimmed)

theorem literal_pass_through_witness:
  "\<not> marker ''PK_GENERATE(uid'' \<and> index (PK plain_row) ''slug'' = Str ''PK_GENERATE(uid'' \<and>
   map_of (zip (pkColumns (fst (Init False plain_row 0))) (pkValues (fst (Init False plain_row 0))))
     ''slug'' = Some (Lit (Str ''PK_GENERATE(uid'')) \<and>
   \<not> marker ''ON_INSERT_NOW'' \<and> index (Fields plain_row) ''body'' = Str ''ON_INSERT_NOW'' \<and>
   map_of (zip (insertColumns (fst (Init False plain_row 0)))
     (insertValues (fst (Init False plain_row 0)))) ''body'' = Some (Lit (Str ''ON_INSERT_NOW'')) \<and>
   map_of (zip (updateColumns (fst (Init False plain_row 0)))
     (updateValues (fst (Init False plain_row 0)))) ''body'' = Some (Lit (Str ''ON_INSERT_NOW'')) \<and>
   insertValues (fst (Init False plain_row 0)) =
     [Lit (Str ''ON_INSERT_NOW''), PrimaryKeyReference ''uid'']"
proof -
  have m: "\<not> marker ''PK_GENERATE(uid'' \<and> index (PK plain_row) ''slug'' = Str ''PK_GENERATE(uid''"
    and f: "\<not> marker ''ON_INSERT_NOW'' \<and> index (Fields plain_row) ''body'' = Str ''ON_INSERT_NOW''"
    and v: "insertValues (fst (Init False plain_row 0)) =
     [Lit (Str ''ON_INSERT_NOW''), PrimaryKeyReference ''uid'']"
    by code_simp+
  from m f v
    literal_pass_through [where ?row0.0 = plain_row and k = "''slug''" and flag = False
      and now = 0 and sv = "''PK_GENERATE(uid''"]
    literal_pass_through [where ?row0.0 = plain_row and k = "''body''" and flag = False
      and now = 0 and sv = "''ON_INSERT_NOW''"]
  show ?thesis by blast
qed

section \<open>Properties of the loop body\<close>

text \<open>The entries of the registry depend on the field \<open>primaryKeys\<close> alone.\<close>

lemma primaryKeys_update [simp]:
  "primaryKeys (Db_update f ctx) = primaryKeys ctx"
  "primaryKeys (sent_update g ctx) = primaryKeys ctx"
  "primaryKeys (clock_update h ctx) = primaryKeys ctx"
  "primaryKeys (ctx\<lparr>primaryKeysMap := Some entries\<rparr>) = entries"
  by (simp_all add: primaryKeys_def)

lemma primaryKeys_new_context [simp]: "primaryKeys (new_context env db driver) = Map.empty"
  by (simp add: primaryKeys_def new_context_def)

lemma where_loop_Some:
  "j \<le> i \<Longrightarrow> i - j + length cs \<le> length wheres \<Longrightarrow>
     where_loop driver j i cs wheres =
       Some (take (i - j) wheres @ conditions driver i cs @ drop (i - j + length cs) wheres)"
proof (induction cs arbitrary: i wheres)
  case Nil
  then show ?case by (simp add: conditions_def)
next
  case (Cons c cs)
  let ?x = "if driver = postgresDriver then c @ '' = $'' @ itoa (i + 1) else c @ '' = ?''"
  from Cons.prems have lt: "i - j < length wheres" and suc: "Suc i - j = Suc (i - j)" by auto
  from Cons.prems have "where_loop driver j (Suc i) cs (wheres[i - j := ?x]) =
      Some (take (Suc i - j) (wheres[i - j := ?x]) @ conditions driver (Suc i) cs @
            drop (Suc i - j + length cs) (wheres[i - j := ?x]))"
    by (intro Cons.IH) auto
  moreover have "take (Suc i - j) (wheres[i - j := ?x]) = take (i - j) wheres @ [?x]"
    using lt by (simp add: suc take_Suc_conv_app_nth)
  moreover have "drop (Suc i - j + length cs) (wheres[i - j := ?x]) =
      drop (i - j + length (c # cs)) wheres"
    by (simp add: suc)
  ultimately show ?case using lt by (simp add: conditions_def)
qed

lemma len_sorted_keys: "len m = length (sorted_keys m)"
  by (simp add: len_def sorted_keys_def)

lemma GetWhere_Init:
  "GetWhere driver i (fst (Init flag row0 now)) =
     Some (Join (conditions driver i (sorted_keys (PK row0))) '' AND '')"
  by (simp add: GetWhere_def Init_frame len_sorted_keys where_loop_Some conditions_def)

lemma length_resolve [simp]: "length (resolve reg vs) = length vs"
  by (induction reg vs rule: resolve.induct) simp_all

lemma generator_Some_iff: "generator vs = Some name \<longleftrightarrow> vs = [PrimaryKeyGenerator name]"
  by (cases vs rule: generator.cases) simp_all

lemma generator_None_iff: "generator vs = None \<longleftrightarrow> (\<forall>name. vs \<noteq> [PrimaryKeyGenerator name])"
  by (cases vs rule: generator.cases) simp_all

lemma QueryRowScanInt_eq:
  "QueryRowScanInt tx query args ctx =
     (fst (ScanInt tx query args (Db ctx)),
      ctx\<lparr>Db := snd (ScanInt tx query args (Db ctx)), sent := sent ctx @ [QueryRow query args]\<rparr>)"
  by (simp add: QueryRowScanInt_def case_prod_unfold)

lemma QueryRowScanName_eq:
  "QueryRowScanName tx query args ctx =
     (fst (ScanName tx query args (Db ctx)),
      ctx\<lparr>Db := snd (ScanName tx query args (Db ctx)), sent := sent ctx @ [QueryRow query args]\<rparr>)"
  by (simp add: QueryRowScanName_def case_prod_unfold)

lemma DbExec_eq:
  "DbExec tx query args ctx =
     (fst (ExecLastInsertId tx query args (Db ctx)),
      ctx\<lparr>Db := snd (ExecLastInsertId tx query args (Db ctx)), sent := sent ctx @ [Exec query args]\<rparr>)"
  by (simp add: DbExec_def case_prod_unfold)

lemma load_row_eq:
  "load_row tx i row0 ctx0 =
    (case generator (GetPKValues (primaryKeys ctx0)
            (fst (Init (SetUpdatedAtOnInsert ctx0) row0 (clock ctx0)))) of
       Some name \<Rightarrow>
         insert_generated tx i (fst (Init (SetUpdatedAtOnInsert ctx0) row0 (clock ctx0))) name
           (ctx0\<lparr>clock := snd (Init (SetUpdatedAtOnInsert ctx0) row0 (clock ctx0))\<rparr>)
     | None \<Rightarrow>
         insert_or_update tx i (fst (Init (SetUpdatedAtOnInsert ctx0) row0 (clock ctx0)))
           (ctx0\<lparr>clock := snd (Init (SetUpdatedAtOnInsert ctx0) row0 (clock ctx0))\<rparr>))"
  by (simp add: load_row_def case_prod_unfold Let_def)


lemma resolve_map: "resolve reg vs = map (resolved reg) vs"
  by (induction reg vs rule: resolve.induct) (simp_all add: resolved_def)

lemma fixPostgresPKSequence_eq:
  fixes tx :: "'db Tx" and ctx :: "'db Context" and table column :: string
  defines "a \<equiv> ScanName tx sequence_query [Lit (Str table), Lit (Str column)] (Db ctx)"
  defines "ctx1 \<equiv> ctx\<lparr>Db := snd a,
      sent := sent ctx @ [QueryRow sequence_query [Lit (Str table), Lit (Str column)]]\<rparr>"
  defines "b \<equiv> \<lambda>seqName. ExecLastInsertId tx (setval_query column table) [Lit (Str seqName)] (snd a)"
  shows "fixPostgresPKSequence tx table column ctx =
    (case fst a of
       Inl err \<Rightarrow> (Some err, ctx1)
     | Inr None \<Rightarrow> (None, ctx1)
     | Inr (Some seqName) \<Rightarrow>
        (case fst (b seqName) of Inl err \<Rightarrow> Some err | Inr _ \<Rightarrow> None,
         ctx1\<lparr>Db := snd (b seqName),
              sent := sent ctx1 @ [Exec (setval_query column table) [Lit (Str seqName)]]\<rparr>))"
  by (simp add: fixPostgresPKSequence_def QueryRowScanName_eq DbExec_eq a_def b_def ctx1_def
      split: sum.splits option.splits)

lemma fixPostgresPKSequence_frame:
  "\<exists>rest. sent (snd (fixPostgresPKSequence tx table ''id'' ctx)) = sent ctx @ rest \<and>
     list_all (sequence_call table) rest"
  "primaryKeys (snd (fixPostgresPKSequence tx table column ctx)) = primaryKeys ctx"
  "Driver (snd (fixPostgresPKSequence tx table column ctx)) = Driver ctx"
  "SetUpdatedAtOnInsert (snd (fixPostgresPKSequence tx table column ctx)) = SetUpdatedAtOnInsert ctx"
  "DumpSQL (snd (fixPostgresPKSequence tx table column ctx)) = DumpSQL ctx"
  "clock (snd (fixPostgresPKSequence tx table column ctx)) = clock ctx"
  by (simp_all add: fixPostgresPKSequence_eq split: sum.splits option.splits)

lemma fix_sequence_frame:
  "\<exists>rest. sent (snd (fix_sequence tx i row columns ctx)) = sent ctx @ rest \<and>
     list_all (sequence_call (Table row)) rest"
  "primaryKeys (snd (fix_sequence tx i row columns ctx)) = primaryKeys ctx"
  "Driver (snd (fix_sequence tx i row columns ctx)) = Driver ctx"
  "SetUpdatedAtOnInsert (snd (fix_sequence tx i row columns ctx)) = SetUpdatedAtOnInsert ctx"
  "DumpSQL (snd (fix_sequence tx i row columns ctx)) = DumpSQL ctx"
  "clock (snd (fix_sequence tx i row columns ctx)) = clock ctx"
  using fixPostgresPKSequence_frame(1) [of tx "Table row" ctx]
  by (auto simp: fix_sequence_def fixPostgresPKSequence_frame case_prod_unfold
      split: list.splits option.splits)


lemma insert_or_update_Init:
  fixes tx :: "'db Tx" and ctx :: "'db Context" and i now :: nat and row0 :: Row and flag :: bool
  defines "row \<equiv> fst (Init flag row0 now)"
  defines "reg \<equiv> primaryKeys ctx"
  defines "q0 \<equiv> select_count (Driver ctx) (Table row0) (sorted_keys (PK row0))"
  defines "a \<equiv> ScanInt tx q0 (GetPKValues reg row) (Db ctx)"
  defines "ctx1 \<equiv> ctx\<lparr>Db := snd a, sent := sent ctx @ [QueryRow q0 (GetPKValues reg row)]\<rparr>"
  defines "insq \<equiv> insert_statement (Table row0) (GetPKAndInsertColumns row)
      (GetPKAndInsertPlaceholders (Driver ctx) row)"
  defines "b \<equiv> ExecLastInsertId tx insq (GetPKAndInsertValues reg row) (snd a)"
  defines "updq \<equiv> update_statement (Driver ctx) row"
  defines "c \<equiv> ExecLastInsertId tx updq (GetUpdateValues reg row @ GetPKValues reg row) (snd a)"
  shows "insert_or_update tx i row ctx =
    (case fst a of
       Inl err \<Rightarrow> (Some (Error (NewProcessingError (i + 1) err)), ctx1)
     | Inr count \<Rightarrow>
        if count = 0 then
          (case fst b of
             Inl err \<Rightarrow>
               (Some (Error (NewProcessingError (i + 1) err)),
                ctx1\<lparr>Db := snd b,
                     sent := sent ctx1 @ [Exec insq (GetPKAndInsertValues reg row)]\<rparr>)
           | Inr _ \<Rightarrow>
               fix_sequence tx i row (GetPKAndInsertColumns row)
                 (ctx1\<lparr>Db := snd b,
                       sent := sent ctx1 @ [Exec insq (GetPKAndInsertValues reg row)]\<rparr>))
        else if updateColumns row \<noteq> [] then
          (case fst c of
             Inl err \<Rightarrow>
               (Some (Error (NewProcessingError (i + 1) err)),
                ctx1\<lparr>Db := snd c,
                     sent := sent ctx1 @
                       [Exec updq (GetUpdateValues reg row @ GetPKValues reg row)]\<rparr>)
           | Inr _ \<Rightarrow>
               fix_sequence tx i row (GetUpdateColumns row)
                 (ctx1\<lparr>Db := snd c,
                       sent := sent ctx1 @
                         [Exec updq (GetUpdateValues reg row @ GetPKValues reg row)]\<rparr>))
        else (None, ctx1))"
  by (simp add: insert_or_update_def row_def reg_def q0_def a_def ctx1_def insq_def b_def
      updq_def c_def update_statement_def GetWhere_Init Init_frame select_count_def
      QueryRowScanInt_eq DbExec_eq GetUpdateColumnsLength_def GetUpdateColumns_def
      split: sum.splits)

lemma insert_or_update_sent:
  fixes tx :: "'db Tx" and ctx :: "'db Context" and i now :: nat and row0 :: Row and flag :: bool
    and count :: int
  defines "row \<equiv> fst (Init flag row0 now)"
  defines "reg \<equiv> primaryKeys ctx"
  defines "q0 \<equiv> select_count (Driver ctx) (Table row0) (sorted_keys (PK row0))"
  defines "answer \<equiv> fst (ScanInt tx q0 (GetPKValues reg row) (Db ctx))"
  defines "out \<equiv> insert_or_update tx i row ctx"
  shows "answer = Inr 0 \<Longrightarrow>
      \<exists>rest. sent (snd out) =
        sent ctx @
        [QueryRow q0 (GetPKValues reg row),
         Exec (insert_statement (Table row0) (GetPKAndInsertColumns row)
                (GetPKAndInsertPlaceholders (Driver ctx) row))
           (GetPKAndInsertValues reg row)] @ rest \<and>
        list_all (sequence_call (Table row0)) rest"
    and "answer = Inr count \<Longrightarrow> count \<noteq> 0 \<Longrightarrow> updateColumns row \<noteq> [] \<Longrightarrow>
      \<exists>rest. sent (snd out) =
        sent ctx @
        [QueryRow q0 (GetPKValues reg row),
         Exec (update_statement (Driver ctx) row)
           (GetUpdateValues reg row @ GetPKValues reg row)] @ rest \<and>
        list_all (sequence_call (Table row0)) rest"
    and "answer = Inr count \<Longrightarrow> count \<noteq> 0 \<Longrightarrow> updateColumns row = [] \<Longrightarrow>
      out = (None, ctx\<lparr>Db := snd (ScanInt tx q0 (GetPKValues reg row) (Db ctx)),
                       sent := sent ctx @ [QueryRow q0 (GetPKValues reg row)]\<rparr>)"
    and "answer = Inl err \<Longrightarrow>
      out = (Some (Error (NewProcessingError (i + 1) err)),
             ctx\<lparr>Db := snd (ScanInt tx q0 (GetPKValues reg row) (Db ctx)),
                 sent := sent ctx @ [QueryRow q0 (GetPKValues reg row)]\<rparr>)"
proof -
  note nf = insert_or_update_Init [of tx i flag row0 now ctx, folded row_def reg_def q0_def]
  have t: "Table row = Table row0" by (simp add: row_def Init_frame)
  {
    assume a: "answer = Inr 0"
    let ?a = "ScanInt tx q0 (GetPKValues reg row) (Db ctx)"
    let ?insq = "insert_statement (Table row0) (GetPKAndInsertColumns row)
                (GetPKAndInsertPlaceholders (Driver ctx) row)"
    let ?b = "ExecLastInsertId tx ?insq (GetPKAndInsertValues reg row) (snd ?a)"
    let ?ctx2 = "ctx\<lparr>Db := snd ?b,
        sent := sent ctx @ [QueryRow q0 (GetPKValues reg row)] @
          [Exec ?insq (GetPKAndInsertValues reg row)]\<rparr>"
    from fix_sequence_frame(1) [of tx i row "GetPKAndInsertColumns row" ?ctx2]
    obtain rest where "sent (snd (fix_sequence tx i row (GetPKAndInsertColumns row) ?ctx2)) =
        sent ?ctx2 @ rest" "list_all (sequence_call (Table row0)) rest"
      by (auto simp: t)
    with a show "\<exists>rest. sent (snd out) =
        sent ctx @
        [QueryRow q0 (GetPKValues reg row),
         Exec ?insq (GetPKAndInsertValues reg row)] @ rest \<and>
        list_all (sequence_call (Table row0)) rest"
      by (cases "fst ?b") (auto simp: out_def nf answer_def)
  }
  {
    assume a: "answer = Inr count" "count \<noteq> 0" "updateColumns row \<noteq> []"
    let ?a = "ScanInt tx q0 (GetPKValues reg row) (Db ctx)"
    let ?updq = "update_statement (Driver ctx) row"
    let ?c = "ExecLastInsertId tx ?updq (GetUpdateValues reg row @ GetPKValues reg row) (snd ?a)"
    let ?ctx2 = "ctx\<lparr>Db := snd ?c,
        sent := sent ctx @ [QueryRow q0 (GetPKValues reg row)] @
          [Exec ?updq (GetUpdateValues reg row @ GetPKValues reg row)]\<rparr>"
    from fix_sequence_frame(1) [of tx i row "GetUpdateColumns row" ?ctx2]
    obtain rest where "sent (snd (fix_sequence tx i row (GetUpdateColumns row) ?ctx2)) =
        sent ?ctx2 @ rest" "list_all (sequence_call (Table row0)) rest"
      by (auto simp: t)
    with a show "\<exists>rest. sent (snd out) =
        sent ctx @
        [QueryRow q0 (GetPKValues reg row),
         Exec ?updq (GetUpdateValues reg row @ GetPKValues reg row)] @ rest \<and>
        list_all (sequence_call (Table row0)) rest"
      by (cases "fst ?c") (auto simp: out_def nf answer_def)
  }
  {
    assume "answer = Inr count" "count \<noteq> 0" "updateColumns row = []"
    then show "out = (None, ctx\<lparr>Db := snd (ScanInt tx q0 (GetPKValues reg row) (Db ctx)),
                       sent := sent ctx @ [QueryRow q0 (GetPKValues reg row)]\<rparr>)"
      by (simp add: out_def nf answer_def)
  }
  {
    assume "answer = Inl err"
    then show "out = (Some (Error (NewProcessingError (i + 1) err)),
             ctx\<lparr>Db := snd (ScanInt tx q0 (GetPKValues reg row) (Db ctx)),
                 sent := sent ctx @ [QueryRow q0 (GetPKValues reg row)]\<rparr>)"
      by (simp add: out_def nf answer_def)
  }
qed

lemma sorted_filter_keys: "sorted (filter P (sorted_keys m))"
  by (simp add: sorted_keys_props sorted_wrt_filter)

lemma load_row_skipped:
  "generator (GetPKValues (primaryKeys ctx0)
      (fst (Init (SetUpdatedAtOnInsert ctx0) row0 (clock ctx0)))) = None \<Longrightarrow>
   load_row tx i row0 ctx0 =
     insert_or_update tx i (fst (Init (SetUpdatedAtOnInsert ctx0) row0 (clock ctx0)))
       (ctx0\<lparr>clock := snd (Init (SetUpdatedAtOnInsert ctx0) row0 (clock ctx0))\<rparr>)"
  by (simp add: load_row_eq)

lemma compiled_frame:
  "Table (compiled ctx row0) = Table row0"
  "PK (compiled ctx row0) = PK row0"
  "Fields (compiled ctx row0) = Fields row0"
  "pkColumns (compiled ctx row0) = sorted_keys (PK row0)"
  "pkValues (compiled ctx row0) =
     map (\<lambda>pkKey. pkValue (index (PK row0) pkKey)) (sorted_keys (PK row0))"
  by (simp_all add: compiled_def Init_frame)

lemma compiled_lengths:
  "length (insertValues (compiled ctx row0)) = length (insertColumns (compiled ctx row0))"
  "length (updateValues (compiled ctx row0)) = length (updateColumns (compiled ctx row0))"
  "length (pkValues (compiled ctx row0)) = length (pkColumns (compiled ctx row0))"
  using Init_values [of row0 "SetUpdatedAtOnInsert ctx" "clock ctx"]
  by (simp_all add: compiled_def list_all2_lengthD Init_frame)

lemma load_row_sent:
  fixes tx :: "'db Tx" and ctx0 :: "'db Context" and i :: nat and row0 :: Row and count :: int
  defines "row \<equiv> compiled ctx0 row0"
  defines "out \<equiv> load_row tx i row0 ctx0"
  assumes skipped: "generator (GetPKValues (primaryKeys ctx0) row) = None"
  shows "count_answer tx ctx0 row = Inr 0 \<Longrightarrow>
      \<exists>rest. sent (snd out) = sent ctx0 @ [count_call ctx0 row, insert_call ctx0 row] @ rest \<and>
        list_all (sequence_call (Table row0)) rest"
    and "count_answer tx ctx0 row = Inr count \<Longrightarrow> count \<noteq> 0 \<Longrightarrow> updateColumns row \<noteq> [] \<Longrightarrow>
      \<exists>rest. sent (snd out) = sent ctx0 @ [count_call ctx0 row, update_call ctx0 row] @ rest \<and>
        list_all (sequence_call (Table row0)) rest"
    and "count_answer tx ctx0 row = Inr count \<Longrightarrow> count \<noteq> 0 \<Longrightarrow> updateColumns row = [] \<Longrightarrow>
      sent (snd out) = sent ctx0 @ [count_call ctx0 row] \<and> fst out = None \<and>
      primaryKeys (snd out) = primaryKeys ctx0"
    and "count_answer tx ctx0 row = Inl err \<Longrightarrow>
      sent (snd out) = sent ctx0 @ [count_call ctx0 row] \<and>
      fst out = Some (Error (NewProcessingError (i + 1) err))"
proof -
  let ?ctx = "ctx0\<lparr>clock := snd (Init (SetUpdatedAtOnInsert ctx0) row0 (clock ctx0))\<rparr>"
  from skipped have out: "out = insert_or_update tx i row ?ctx"
    by (simp add: out_def row_def compiled_def load_row_skipped generator_None_iff)
  note fr = compiled_frame [of ctx0 row0, folded row_def]
  note len = compiled_lengths [of ctx0 row0, folded row_def]
  note s = insert_or_update_sent [where tx = tx and flag = "SetUpdatedAtOnInsert ctx0"
      and ?row0.0 = row0 and now = "clock ctx0" and ctx = ?ctx and i = i,
      folded compiled_def, folded row_def, simplified, folded out]
  note g = GetPKValues_def resolve_map GetPKAndInsertColumns_def GetPKAndInsertPlaceholders_def
    GetPKAndInsertValues_def GetUpdateValues_def count_answer_def count_call_def
    insert_call_def update_call_def
  show "count_answer tx ctx0 row = Inr 0 \<Longrightarrow>
      \<exists>rest. sent (snd out) = sent ctx0 @ [count_call ctx0 row, insert_call ctx0 row] @ rest \<and>
        list_all (sequence_call (Table row0)) rest"
    using s(1) by (simp add: g len fr)
  show "count_answer tx ctx0 row = Inr count \<Longrightarrow> count \<noteq> 0 \<Longrightarrow> updateColumns row \<noteq> [] \<Longrightarrow>
      \<exists>rest. sent (snd out) = sent ctx0 @ [count_call ctx0 row, update_call ctx0 row] @ rest \<and>
        list_all (sequence_call (Table row0)) rest"
    using s(2) [where count = count] by (simp add: g fr)
  show "count_answer tx ctx0 row = Inr count \<Longrightarrow> count \<noteq> 0 \<Longrightarrow> updateColumns row = [] \<Longrightarrow>
      sent (snd out) = sent ctx0 @ [count_call ctx0 row] \<and> fst out = None \<and>
      primaryKeys (snd out) = primaryKeys ctx0"
    using s(3) [where count = count] by (simp add: g fr)
  show "count_answer tx ctx0 row = Inl err \<Longrightarrow>
      sent (snd out) = sent ctx0 @ [count_call ctx0 row] \<and>
      fst out = Some (Error (NewProcessingError (i + 1) err))"
    using s(4) [where err = err] by (simp add: g fr)
qed

text \<open>
  C3. A row that does not take the generated-insert path is first counted by its primary
  key. When the count is 0 the next statement is the INSERT over the sorted primary-key
  columns followed by the sorted insert columns of the fields, with the values in the
  same order; when the count is not 0 and there are update columns it is the UPDATE;
  when the count is not 0 and there is no update column nothing more is sent and the
  row succeeds. (What may follow the INSERT or the UPDATE are the statements of the
  sequence fix-up only.)
\<close>

theorem insert_or_update_paths:
  fixes tx :: "'db Tx" and ctx0 :: "'db Context" and i :: nat and row0 :: Row and count :: int
  defines "row \<equiv> compiled ctx0 row0"
  defines "out \<equiv> load_row tx i row0 ctx0"
  assumes skipped: "generator (GetPKValues (primaryKeys ctx0) row) = None"
  shows
    "(count_answer tx ctx0 row = Inr 0 \<longrightarrow>
       (\<exists>rest. sent (snd out) = sent ctx0 @ [count_call ctx0 row, insert_call ctx0 row] @ rest \<and>
          list_all (sequence_call (Table row0)) rest)) \<and>
     (count_answer tx ctx0 row = Inr count \<and> count \<noteq> 0 \<and> updateColumns row \<noteq> [] \<longrightarrow>
       (\<exists>rest. sent (snd out) = sent ctx0 @ [count_call ctx0 row, update_call ctx0 row] @ rest \<and>
          list_all (sequence_call (Table row0)) rest)) \<and>
     (count_answer tx ctx0 row = Inr count \<and> count \<noteq> 0 \<and> updateColumns row = [] \<longrightarrow>
       sent (snd out) = sent ctx0 @ [count_call ctx0 row] \<and> fst out = None) \<and>
     pkColumns row = sorted_keys (PK row0) \<and> sorted (pkColumns row) \<and>
     sorted (insertColumns row) \<and> set (insertColumns row) \<subseteq> fst ` set (Fields row0) \<and>
     pkValues row = map (\<lambda>pkKey. pkValue (index (PK row0) pkKey)) (pkColumns row) \<and>
     list_all2 (bound_to (Fields row0)) (insertColumns row) (insertValues row)"
proof -
  note s = load_row_sent [OF skipped [unfolded row_def], where tx = tx and i = i,
      folded row_def out_def]
  have "sorted (pkColumns row)" "sorted (insertColumns row)"
    "set (insertColumns row) \<subseteq> fst ` set (Fields row0)"
    by (auto simp: sorted_keys_props row_def compiled_def Init_columns Init_frame
        sorted_filter_keys)
  moreover note compiled_frame(4,5) [of ctx0 row0, folded row_def]
    Init_values(1) [of row0 "SetUpdatedAtOnInsert ctx0" "clock ctx0", folded compiled_def,
      folded row_def]
  ultimately show ?thesis using s(1) s(2) [where count = count] s(3) [where count = count] by simp
qed

theorem insert_or_update_paths_witness:
  "generator (GetPKValues (primaryKeys mysql_ctx) (compiled mysql_ctx account_row)) = None \<and>
   count_answer scripted mysql_ctx (compiled mysql_ctx account_row) = Inr 0 \<and>
   (\<exists>rest. sent (snd (load_row scripted 0 account_row mysql_ctx)) =
      sent mysql_ctx @
      [count_call mysql_ctx (compiled mysql_ctx account_row),
       insert_call mysql_ctx (compiled mysql_ctx account_row)] @ rest \<and>
      list_all (sequence_call (Table account_row)) rest) \<and>
   sent (snd (load_row scripted 0 account_row mysql_ctx)) =
     [QueryRow (''SELECT COUNT(*) FROM '' @ quoted ''accounts'' @ '' WHERE code = ? AND tenant = ?'')
        [Lit (Str ''a1''), Lit (Num 7)],
      Exec (''INSERT INTO '' @ quoted ''accounts'' @ ''('' @ quoted ''code'' @ '', '' @
            quoted ''tenant'' @ '', '' @ quoted ''born'' @ '', '' @ quoted ''name'' @
            '') VALUES(?, ?, ?, ?)'')
        [Lit (Str ''a1''), Lit (Num 7), Time 0, Lit (Str ''Alice'')]]"
proof -
  have skipped: "generator (GetPKValues (primaryKeys mysql_ctx) (compiled mysql_ctx account_row)) = None"
    and a: "count_answer scripted mysql_ctx (compiled mysql_ctx account_row) = Inr 0"
    and t: "sent (snd (load_row scripted 0 account_row mysql_ctx)) =
     [QueryRow (''SELECT COUNT(*) FROM '' @ quoted ''accounts'' @ '' WHERE code = ? AND tenant = ?'')
        [Lit (Str ''a1''), Lit (Num 7)],
      Exec (''INSERT INTO '' @ quoted ''accounts'' @ ''('' @ quoted ''code'' @ '', '' @
            quoted ''tenant'' @ '', '' @ quoted ''born'' @ '', '' @ quoted ''name'' @
            '') VALUES(?, ?, ?, ?)'')
        [Lit (Str ''a1''), Lit (Num 7), Time 0, Lit (Str ''Alice'')]]"
    by code_simp+
  from insert_or_update_paths [OF skipped, where tx = scripted and count = 3 and i = 0] a t skipped
  show ?thesis by blast
qed

lemma conditions_nth:
  "j < length cs \<Longrightarrow>
     conditions driver n cs ! j =
       cs ! j @ (if driver = postgresDriver then '' = $'' @ itoa (n + j + 1) else '' = ?'')"
  by (simp add: conditions_def nth_enumerate_eq)

lemma GetUpdatePlaceholders_nth:
  "k < length (updateColumns row) \<Longrightarrow>
     GetUpdatePlaceholders driver row ! k =
       quoted (updateColumns row ! k) @
       (if driver = postgresDriver then '' = $'' @ itoa (k + 1) else '' = ?'')"
  by (simp add: GetUpdatePlaceholders_def GetUpdateColumns_def nth_enumerate_eq)

text \<open>
  C4. The UPDATE statement is \<open>UPDATE "table" SET ... WHERE ...\<close> with the argument list
  made of the update values followed by the primary-key values. For the postgres driver
  the SET clause numbers its placeholders \<open>$1\<close> to \<open>$n\<close> and the WHERE clause goes on with
  \<open>$n+1\<close>, so that the placeholder numbered \<open>m\<close> stands for the argument at position \<open>m\<close>;
  for any other driver every placeholder is \<open>?\<close>, in the order of the arguments.
\<close>

theorem update_arguments:
  fixes tx :: "'db Tx" and ctx0 :: "'db Context" and i :: nat and row0 :: Row and count :: int
  defines "row \<equiv> compiled ctx0 row0"
  defines "n \<equiv> length (updateColumns row)"
  defines "args \<equiv> map (resolved (primaryKeys ctx0)) (updateValues row) @
      map (resolved (primaryKeys ctx0)) (pkValues row)"
  assumes skipped: "generator (GetPKValues (primaryKeys ctx0) row) = None"
    and found: "count_answer tx ctx0 row = Inr count" "count \<noteq> 0"
    and columns: "updateColumns row \<noteq> []"
  shows
    "(\<exists>rest. sent (snd (load_row tx i row0 ctx0)) =
        sent ctx0 @
        [count_call ctx0 row,
         Exec (''UPDATE '' @ quoted (Table row0) @ '' SET '' @
               Join (GetUpdatePlaceholders (Driver ctx0) row) '', '' @ '' WHERE '' @
               Join (conditions (Driver ctx0) n (pkColumns row)) '' AND '')
           args] @ rest) \<and>
     GetWhere (Driver ctx0) n row = Some (Join (conditions (Driver ctx0) n (pkColumns row)) '' AND '') \<and>
     length (GetUpdatePlaceholders (Driver ctx0) row) = n \<and>
     length (conditions (Driver ctx0) n (pkColumns row)) = length (pkColumns row) \<and>
     length args = n + length (pkColumns row) \<and>
     (\<forall>k < n.
        GetUpdatePlaceholders (Driver ctx0) row ! k =
          quoted (updateColumns row ! k) @
          (if Driver ctx0 = postgresDriver then '' = $'' @ itoa (k + 1) else '' = ?'') \<and>
        args ! k = resolved (primaryKeys ctx0) (updateValues row ! k)) \<and>
     (\<forall>j < length (pkColumns row).
        conditions (Driver ctx0) n (pkColumns row) ! j =
          pkColumns row ! j @
          (if Driver ctx0 = postgresDriver then '' = $'' @ itoa (n + j + 1) else '' = ?'') \<and>
        args ! (n + j) = resolved (primaryKeys ctx0) (pkValues row ! j))"
proof -
  note fr = compiled_frame [of ctx0 row0, folded row_def]
  note len = compiled_lengths [of ctx0 row0, folded row_def]
  from load_row_sent(2) [OF skipped [unfolded row_def], folded row_def, OF found columns,
      where i = i]
  have "\<exists>rest. sent (snd (load_row tx i row0 ctx0)) =
        sent ctx0 @
        [count_call ctx0 row,
         Exec (''UPDATE '' @ quoted (Table row0) @ '' SET '' @
               Join (GetUpdatePlaceholders (Driver ctx0) row) '', '' @ '' WHERE '' @
               Join (conditions (Driver ctx0) n (pkColumns row)) '' AND '')
           args] @ rest"
    by (auto simp: update_call_def update_statement_def fr n_def args_def)
  moreover have "GetWhere (Driver ctx0) n row =
      Some (Join (conditions (Driver ctx0) n (pkColumns row)) '' AND '')"
    by (simp add: row_def compiled_def GetWhere_Init Init_frame)
  moreover have "length (GetUpdatePlaceholders (Driver ctx0) row) = n"
    "length (conditions (Driver ctx0) n (pkColumns row)) = length (pkColumns row)"
    "length args = n + length (pkColumns row)"
    by (simp_all add: GetUpdatePlaceholders_def GetUpdateColumns_def conditions_def n_def
        args_def len)
  moreover have "\<forall>k < n.
        GetUpdatePlaceholders (Driver ctx0) row ! k =
          quoted (updateColumns row ! k) @
          (if Driver ctx0 = postgresDriver then '' = $'' @ itoa (k + 1) else '' = ?'') \<and>
        args ! k = resolved (primaryKeys ctx0) (updateValues row ! k)"
    by (simp add: GetUpdatePlaceholders_nth n_def args_def nth_append len)
  moreover have "\<forall>j < length (pkColumns row).
        conditions (Driver ctx0) n (pkColumns row) ! j =
          pkColumns row ! j @
          (if Driver ctx0 = postgresDriver then '' = $'' @ itoa (n + j + 1) else '' = ?'') \<and>
        args ! (n + j) = resolved (primaryKeys ctx0) (pkValues row ! j)"
    by (simp add: conditions_nth n_def args_def nth_append len)
  ultimately show ?thesis by blast
qed

theorem update_arguments_witness:
  "generator (GetPKValues (primaryKeys postgres_update_ctx)
     (compiled postgres_update_ctx post_row)) = None \<and>
   count_answer scripted postgres_update_ctx (compiled postgres_update_ctx post_row) = Inr 1 \<and>
   updateColumns (compiled postgres_update_ctx post_row) \<noteq> [] \<and>
   (\<exists>rest. sent (snd (load_row scripted 0 post_row postgres_update_ctx)) =
      sent postgres_update_ctx @
      [count_call postgres_update_ctx (compiled postgres_update_ctx post_row),
       Exec (''UPDATE '' @ quoted (Table post_row) @ '' SET '' @
             Join (GetUpdatePlaceholders (Driver postgres_update_ctx)
                     (compiled postgres_update_ctx post_row)) '', '' @ '' WHERE '' @
             Join (conditions (Driver postgres_update_ctx)
                     (length (updateColumns (compiled postgres_update_ctx post_row)))
                     (pkColumns (compiled postgres_update_ctx post_row))) '' AND '')
         (map (resolved (primaryKeys postgres_update_ctx))
            (updateValues (compiled postgres_update_ctx post_row)) @
          map (resolved (primaryKeys postgres_update_ctx))
            (pkValues (compiled postgres_update_ctx post_row)))] @ rest) \<and>
   sent (snd (load_row scripted 0 post_row postgres_update_ctx)) =
     [QueryRow (''SELECT COUNT(*) FROM '' @ quoted ''posts'' @ '' WHERE id = $1'')
        [Lit (Num 5)],
      Exec (''UPDATE '' @ quoted ''posts'' @ '' SET '' @ quoted ''body'' @ '' = $1, '' @
            quoted ''title'' @ '' = $2 WHERE id = $3'')
        [Lit (Str ''text''), Lit (Str ''Hello''), Lit (Num 5)]]"
proof -
  have skipped: "generator (GetPKValues (primaryKeys postgres_update_ctx)
     (compiled postgres_update_ctx post_row)) = None"
    and found: "count_answer scripted postgres_update_ctx
      (compiled postgres_update_ctx post_row) = Inr 1"
    and columns: "updateColumns (compiled postgres_update_ctx post_row) \<noteq> []"
    and t: "sent (snd (load_row scripted 0 post_row postgres_update_ctx)) =
     [QueryRow (''SELECT COUNT(*) FROM '' @ quoted ''posts'' @ '' WHERE id = $1'')
        [Lit (Num 5)],
      Exec (''UPDATE '' @ quoted ''posts'' @ '' SET '' @ quoted ''body'' @ '' = $1, '' @
            quoted ''title'' @ '' = $2 WHERE id = $3'')
        [Lit (Str ''text''), Lit (Str ''Hello''), Lit (Num 5)]]"
    by code_simp+
  have nz: "(1::int) \<noteq> 0" by simp
  from update_arguments [OF skipped found nz columns, where i = 0] skipped found columns t
  show ?thesis by blast
qed

lemma insert_generated_Init:
  fixes tx :: "'db Tx" and ctx :: "'db Context" and i :: nat and row :: Row
    and name pkColumn :: string
  defines "out \<equiv> insert_generated tx i row name ctx"
  assumes pk: "pkColumns row = [pkColumn]"
    and len: "length (insertValues row) = length (insertColumns row)"
  shows "sent (snd out) = sent ctx @ [generated_call ctx row pkColumn]"
    and "generated_key tx ctx row pkColumn = Inl err \<Longrightarrow>
           fst out = Some (Error (NewProcessingError (i + 1) err)) \<and>
           primaryKeysMap (snd out) = primaryKeysMap ctx"
    and "generated_key tx ctx row pkColumn = Inr key \<Longrightarrow> primaryKeysMap ctx = Some entries \<Longrightarrow>
           fst out = None \<and> primaryKeysMap (snd out) = Some (entries(name \<mapsto> Int64 key))"
    and "generated_key tx ctx row pkColumn = Inr key \<Longrightarrow> primaryKeysMap ctx = None \<Longrightarrow>
           fst out = Some Panic \<and> primaryKeysMap (snd out) = None"
proof -
  note d = out_def insert_generated_def generated_call_def generated_key_def GetPKColumns_def
    GetInsertColumns_def GetInsertPlaceholders_def GetInsertValues_def resolve_map
    QueryRowScanInt_eq DbExec_eq Let_def Set_key_def pk len
  show "sent (snd out) = sent ctx @ [generated_call ctx row pkColumn]"
    by (cases "Driver ctx = ''postgres''") (auto simp: d split: sum.splits option.splits)
  show "generated_key tx ctx row pkColumn = Inl err \<Longrightarrow>
           fst out = Some (Error (NewProcessingError (i + 1) err)) \<and>
           primaryKeysMap (snd out) = primaryKeysMap ctx"
    by (cases "Driver ctx = ''postgres''") (auto simp: d split: sum.splits option.splits)
  show "generated_key tx ctx row pkColumn = Inr key \<Longrightarrow> primaryKeysMap ctx = Some entries \<Longrightarrow>
           fst out = None \<and> primaryKeysMap (snd out) = Some (entries(name \<mapsto> Int64 key))"
    by (cases "Driver ctx = ''postgres''") (auto simp: d split: sum.splits option.splits)
  show "generated_key tx ctx row pkColumn = Inr key \<Longrightarrow> primaryKeysMap ctx = None \<Longrightarrow>
           fst out = Some Panic \<and> primaryKeysMap (snd out) = None"
    by (cases "Driver ctx = ''postgres''") (auto simp: d split: sum.splits option.splits)
qed

lemma generated_not_count: "generated_call ctx row pkColumn \<noteq> count_call ctx row"
  by (simp add: generated_call_def count_call_def insert_statement_def select_count_def Let_def)

lemma load_row_counts_first:
  fixes tx :: "'db Tx" and ctx0 :: "'db Context" and i :: nat and row0 :: Row
  assumes "generator (GetPKValues (primaryKeys ctx0) (compiled ctx0 row0)) = None"
  shows "\<exists>rest. sent (snd (load_row tx i row0 ctx0)) =
           sent ctx0 @ count_call ctx0 (compiled ctx0 row0) # rest"
proof (cases "count_answer tx ctx0 (compiled ctx0 row0)")
  case (Inl err)
  from load_row_sent(4) [OF assms Inl, where i = i] show ?thesis by simp
next
  case (Inr count)
  show ?thesis
  proof (cases "count = 0")
    case True
    with load_row_sent(1) [OF assms, where tx = tx and i = i] Inr show ?thesis by auto
  next
    case False
    with load_row_sent(2) [OF assms Inr, where i = i] load_row_sent(3) [OF assms Inr, where i = i]
    show ?thesis by (cases "updateColumns (compiled ctx0 row0) = []") auto
  qed
qed

lemma load_row_generated:
  "generator (GetPKValues (primaryKeys ctx0) (compiled ctx0 row0)) = Some name \<Longrightarrow>
   load_row tx i row0 ctx0 =
     insert_generated tx i (compiled ctx0 row0) name
       (ctx0\<lparr>clock := snd (Init (SetUpdatedAtOnInsert ctx0) row0 (clock ctx0))\<rparr>)"
  by (simp add: load_row_eq compiled_def)

lemma generated_clock [simp]:
  "generated_call (ctx\<lparr>clock := n\<rparr>) row pkColumn = generated_call ctx row pkColumn"
  "generated_key tx (ctx\<lparr>clock := n\<rparr>) row pkColumn = generated_key tx ctx row pkColumn"
  by (simp_all add: generated_call_def generated_key_def Let_def)

text \<open>
  C2. The generated-insert path is taken exactly when the resolved primary-key values
  are one value that is a generator. On it the only statement sent is the INSERT over
  the insert columns of the fields (the primary-key column is not among the columns of
  the statement): for postgres with \<open>RETURNING\<close> and the primary-key column, read by
  \<open>Scan\<close>; for the other drivers by \<open>Exec\<close>, the key read from \<open>LastInsertId\<close>. When the
  database gives the key, the row succeeds with the key stored in the registry under the
  generator's name, the other entries as they were, provided the registry of the context
  is a map that was made, as it is in every context the entry points make; on the nil map
  of a context made outside the package the row panics after the INSERT. Otherwise, and so
  whenever there are two or more primary-key columns, the row starts with the statement
  that counts.
\<close>

theorem generated_insert_path:
  fixes tx :: "'db Tx" and ctx0 :: "'db Context" and i :: nat and row0 :: Row
  defines "row \<equiv> compiled ctx0 row0"
  defines "out \<equiv> load_row tx i row0 ctx0"
  shows
    "((\<exists>name. GetPKValues (primaryKeys ctx0) row = [PrimaryKeyGenerator name]) \<longleftrightarrow>
        (\<exists>pkColumn. sent (snd out) = sent ctx0 @ [generated_call ctx0 row pkColumn])) \<and>
     (GetPKValues (primaryKeys ctx0) row = [PrimaryKeyGenerator name] \<longrightarrow>
        (\<exists>pkColumn. pkColumns row = [pkColumn] \<and>
           sent (snd out) = sent ctx0 @ [generated_call ctx0 row pkColumn] \<and>
           (case generated_key tx ctx0 row pkColumn of
              Inl err \<Rightarrow> fst out = Some (Error (NewProcessingError (i + 1) err))
            | Inr key \<Rightarrow>
                (case primaryKeysMap ctx0 of
                   None \<Rightarrow> fst out = Some Panic
                 | Some entries \<Rightarrow>
                     fst out = None \<and>
                     primaryKeysMap (snd out) = Some (entries(name \<mapsto> Int64 key)) \<and>
                     primaryKeys (snd out) = (primaryKeys ctx0)(name \<mapsto> Int64 key))))) \<and>
     ((\<forall>name. GetPKValues (primaryKeys ctx0) row \<noteq> [PrimaryKeyGenerator name]) \<longrightarrow>
        (\<exists>rest. sent (snd out) = sent ctx0 @ count_call ctx0 row # rest)) \<and>
     (1 < length (pkColumns row) \<longrightarrow>
        (\<forall>name. GetPKValues (primaryKeys ctx0) row \<noteq> [PrimaryKeyGenerator name])) \<and>
     (\<forall>pkColumn. generated_call ctx0 row pkColumn \<noteq> count_call ctx0 row) \<and>
     insertColumns row =
       filter (\<lambda>k. index (Fields row0) k = Str onUpdateNow \<longrightarrow> SetUpdatedAtOnInsert ctx0)
         (sorted_keys (Fields row0))"
proof -
  note len = compiled_lengths [of ctx0 row0, folded row_def]
  have gen: "\<exists>pkColumn. pkColumns row = [pkColumn] \<and>
           sent (snd out) = sent ctx0 @ [generated_call ctx0 row pkColumn] \<and>
           (case generated_key tx ctx0 row pkColumn of
              Inl err \<Rightarrow> fst out = Some (Error (NewProcessingError (i + 1) err))
            | Inr key \<Rightarrow>
                (case primaryKeysMap ctx0 of
                   None \<Rightarrow> fst out = Some Panic
                 | Some entries \<Rightarrow>
                     fst out = None \<and>
                     primaryKeysMap (snd out) = Some (entries(n \<mapsto> Int64 key)) \<and>
                     primaryKeys (snd out) = (primaryKeys ctx0)(n \<mapsto> Int64 key)))"
    if g: "GetPKValues (primaryKeys ctx0) row = [PrimaryKeyGenerator n]" for n
  proof -
    from g have "length (pkValues row) = 1"
      using length_resolve [of "primaryKeys ctx0" "pkValues row"] by (simp add: GetPKValues_def)
    with len(3) obtain pkColumn where pk: "pkColumns row = [pkColumn]"
      by (cases "pkColumns row") auto
    from g have "generator (GetPKValues (primaryKeys ctx0) (compiled ctx0 row0)) = Some n"
      by (simp add: row_def)
    then have out: "out = insert_generated tx i row n
       (ctx0\<lparr>clock := snd (Init (SetUpdatedAtOnInsert ctx0) row0 (clock ctx0))\<rparr>)"
      by (simp add: out_def row_def load_row_generated)
    note ig = insert_generated_Init [OF pk len(1), where tx = tx and i = i and name = n
        and ctx = "ctx0\<lparr>clock := snd (Init (SetUpdatedAtOnInsert ctx0) row0 (clock ctx0))\<rparr>",
        folded out, simplified]
    from ig pk show ?thesis
      by (cases "generated_key tx ctx0 row pkColumn"; cases "primaryKeysMap ctx0")
        (auto simp: primaryKeys_def)
  qed
  have cnt: "\<exists>rest. sent (snd out) = sent ctx0 @ count_call ctx0 row # rest"
    if "\<forall>n. GetPKValues (primaryKeys ctx0) row \<noteq> [PrimaryKeyGenerator n]"
    using that load_row_counts_first [of ctx0 row0 tx i]
    by (simp add: generator_None_iff row_def out_def)
  have many: "\<forall>n. GetPKValues (primaryKeys ctx0) row \<noteq> [PrimaryKeyGenerator n]"
    if "1 < length (pkColumns row)"
  proof
    fix n
    from that len(3) have "length (GetPKValues (primaryKeys ctx0) row) \<noteq> 1"
      by (simp add: GetPKValues_def)
    then show "GetPKValues (primaryKeys ctx0) row \<noteq> [PrimaryKeyGenerator n]" by auto
  qed
  have iff: "(\<exists>n. GetPKValues (primaryKeys ctx0) row = [PrimaryKeyGenerator n]) \<longleftrightarrow>
        (\<exists>pkColumn. sent (snd out) = sent ctx0 @ [generated_call ctx0 row pkColumn])"
  proof
    assume "\<exists>n. GetPKValues (primaryKeys ctx0) row = [PrimaryKeyGenerator n]"
    with gen show "\<exists>pkColumn. sent (snd out) = sent ctx0 @ [generated_call ctx0 row pkColumn]"
      by blast
  next
    assume r: "\<exists>pkColumn. sent (snd out) = sent ctx0 @ [generated_call ctx0 row pkColumn]"
    show "\<exists>n. GetPKValues (primaryKeys ctx0) row = [PrimaryKeyGenerator n]"
    proof (rule ccontr)
      assume "\<not> ?thesis"
      with cnt obtain rest where "sent (snd out) = sent ctx0 @ count_call ctx0 row # rest"
        by blast
      with r show False by (auto simp: generated_not_count [symmetric])
    qed
  qed
  have cols: "insertColumns row =
       filter (\<lambda>k. index (Fields row0) k = Str onUpdateNow \<longrightarrow> SetUpdatedAtOnInsert ctx0)
         (sorted_keys (Fields row0))"
    by (simp add: row_def compiled_def Init_columns)
  from iff gen cnt many cols generated_not_count show ?thesis by blast
qed

theorem generated_insert_path_witness:
  "GetPKValues (primaryKeys postgres_ctx) (compiled postgres_ctx user_row) =
     [PrimaryKeyGenerator ''uid''] \<and>
   (\<exists>pkColumn. pkColumns (compiled postgres_ctx user_row) = [pkColumn] \<and>
      sent (snd (load_row scripted 0 user_row postgres_ctx)) =
        sent postgres_ctx @ [generated_call postgres_ctx (compiled postgres_ctx user_row) pkColumn] \<and>
      (case generated_key scripted postgres_ctx (compiled postgres_ctx user_row) pkColumn of
         Inl err \<Rightarrow>
           fst (load_row scripted 0 user_row postgres_ctx) =
             Some (Error (NewProcessingError (0 + 1) err))
       | Inr key \<Rightarrow>
           (case primaryKeysMap postgres_ctx of
              None \<Rightarrow> fst (load_row scripted 0 user_row postgres_ctx) = Some Panic
            | Some entries \<Rightarrow>
                fst (load_row scripted 0 user_row postgres_ctx) = None \<and>
                primaryKeysMap (snd (load_row scripted 0 user_row postgres_ctx)) =
                  Some (entries(''uid'' \<mapsto> Int64 key)) \<and>
                primaryKeys (snd (load_row scripted 0 user_row postgres_ctx)) =
                  (primaryKeys postgres_ctx)(''uid'' \<mapsto> Int64 key)))) \<and>
   primaryKeysMap postgres_ctx = Some Map.empty \<and>
   generated_key scripted postgres_ctx (compiled postgres_ctx user_row) ''id'' = Inr 7 \<and>
   fst (load_row scripted 0 user_row postgres_ctx) = None \<and>
   sent (snd (load_row scripted 0 user_row postgres_ctx)) =
     [QueryRow (''INSERT INTO '' @ quoted ''users'' @ ''('' @ quoted ''name'' @
                '') VALUES($1) RETURNING id'') [Lit (Str ''Alice'')]] \<and>
   primaryKeys (snd (load_row scripted 0 user_row postgres_ctx)) ''uid'' = Some (Int64 7) \<and>
   fst (load_row scripted 0 user_row mysql_generated_ctx) = None \<and>
   sent (snd (load_row scripted 0 user_row mysql_generated_ctx)) =
     [Exec (''INSERT INTO '' @ quoted ''users'' @ ''('' @ quoted ''name'' @ '') VALUES(?)'')
        [Lit (Str ''Alice'')]] \<and>
   primaryKeys (snd (load_row scripted 0 user_row mysql_generated_ctx)) ''uid'' = Some (Int64 12) \<and>
   primaryKeysMap foreign_ctx = None \<and>
   fst (load_row scripted 0 user_row foreign_ctx) = Some Panic \<and>
   sent (snd (load_row scripted 0 user_row foreign_ctx)) =
     [Exec (''INSERT INTO '' @ quoted ''users'' @ ''('' @ quoted ''name'' @ '') VALUES(?)'')
        [Lit (Str ''Alice'')]]"
proof -
  have g: "GetPKValues (primaryKeys postgres_ctx) (compiled postgres_ctx user_row) =
     [PrimaryKeyGenerator ''uid'']"
    and t: "fst (load_row scripted 0 user_row postgres_ctx) = None"
    "sent (snd (load_row scripted 0 user_row postgres_ctx)) =
     [QueryRow (''INSERT INTO '' @ quoted ''users'' @ ''('' @ quoted ''name'' @
                '') VALUES($1) RETURNING id'') [Lit (Str ''Alice'')]]"
    "primaryKeys (snd (load_row scripted 0 user_row postgres_ctx)) ''uid'' = Some (Int64 7)"
    "fst (load_row scripted 0 user_row mysql_generated_ctx) = None"
    "sent (snd (load_row scripted 0 user_row mysql_generated_ctx)) =
     [Exec (''INSERT INTO '' @ quoted ''users'' @ ''('' @ quoted ''name'' @ '') VALUES(?)'')
        [Lit (Str ''Alice'')]]"
    "primaryKeys (snd (load_row scripted 0 user_row mysql_generated_ctx)) ''uid'' = Some (Int64 12)"
    "generated_key scripted postgres_ctx (compiled postgres_ctx user_row) ''id'' = Inr 7"
    "fst (load_row scripted 0 user_row foreign_ctx) = Some Panic"
    "sent (snd (load_row scripted 0 user_row foreign_ctx)) =
     [Exec (''INSERT INTO '' @ quoted ''users'' @ ''('' @ quoted ''name'' @ '') VALUES(?)'')
        [Lit (Str ''Alice'')]]"
    by code_simp+
  have m: "primaryKeysMap postgres_ctx = Some Map.empty" "primaryKeysMap foreign_ctx = None"
    by (simp_all add: postgres_ctx_def foreign_ctx_def start_def)
  from generated_insert_path [where tx = scripted and ?ctx0.0 = postgres_ctx and i = 0
      and ?row0.0 = user_row and name = "''uid''"] g t m
  show ?thesis by blast
qed

lemma pkValue_generator:
  "HasPrefix sv onPKGeneratePrefix \<Longrightarrow> HasSuffix sv onPKGenerateSuffix \<Longrightarrow>
   pkValue (Str sv) =
     PrimaryKeyGenerator
       (TrimSpace (TrimPrefix (TrimSuffix sv onPKGenerateSuffix) onPKGeneratePrefix))"
  by (simp add: pkValue_def)

lemma resolved_generator [simp]:
  "resolved reg (PrimaryKeyGenerator name) = PrimaryKeyGenerator name"
  by (simp add: resolved_def)

text \<open>
  C10. A row whose primary-key spec has two or more columns, one of them a
  \<open>PK_GENERATE(...)\<close> marker, is not rejected: it does not take the generated-insert
  path, and the \<open>*PrimaryKeyGenerator\<close> itself stands, at the position of its column, among
  the arguments of the statement that counts and of the INSERT or UPDATE that follows.
  The row fails at the count only if the database fails it.
\<close>

theorem composite_generator:
  fixes tx :: "'db Tx" and ctx0 :: "'db Context" and i :: nat and row0 :: Row and count :: int
    and k sv :: string
  defines "row \<equiv> compiled ctx0 row0"
  defines "out \<equiv> load_row tx i row0 ctx0"
  defines "g \<equiv> PrimaryKeyGenerator
      (TrimSpace (TrimPrefix (TrimSuffix sv onPKGenerateSuffix) onPKGeneratePrefix))"
  assumes two: "1 < length (sorted_keys (PK row0))"
    and marker: "index (PK row0) k = Str sv" "HasPrefix sv onPKGeneratePrefix"
      "HasSuffix sv onPKGenerateSuffix"
  shows
    "generator (GetPKValues (primaryKeys ctx0) row) = None \<and>
     map_of (zip (pkColumns row) (GetPKValues (primaryKeys ctx0) row)) k = Some g \<and>
     map_of (zip (pkColumns row) (take (length (pkColumns row))
       (GetPKAndInsertValues (primaryKeys ctx0) row))) k = Some g \<and>
     arguments (count_call ctx0 row) = GetPKValues (primaryKeys ctx0) row \<and>
     arguments (insert_call ctx0 row) = GetPKAndInsertValues (primaryKeys ctx0) row \<and>
     g \<in> set (arguments (count_call ctx0 row)) \<and>
     g \<in> set (arguments (insert_call ctx0 row)) \<and>
     g \<in> set (arguments (update_call ctx0 row)) \<and>
     (\<exists>rest. sent (snd out) = sent ctx0 @ count_call ctx0 row # rest) \<and>
     (count_answer tx ctx0 row = Inr 0 \<longrightarrow>
        (\<exists>rest. sent (snd out) =
           sent ctx0 @ [count_call ctx0 row, insert_call ctx0 row] @ rest)) \<and>
     (count_answer tx ctx0 row = Inr count \<and> count \<noteq> 0 \<and> updateColumns row \<noteq> [] \<longrightarrow>
        (\<exists>rest. sent (snd out) =
           sent ctx0 @ [count_call ctx0 row, update_call ctx0 row] @ rest)) \<and>
     (count_answer tx ctx0 row = Inr count \<and> count \<noteq> 0 \<and> updateColumns row = [] \<longrightarrow>
        fst out = None) \<and>
     (\<forall>err. count_answer tx ctx0 row = Inl err \<longrightarrow>
        fst out = Some (Error (NewProcessingError (i + 1) err)))"
proof -
  note fr = compiled_frame [of ctx0 row0, folded row_def]
  note len = compiled_lengths [of ctx0 row0, folded row_def]
  from two have skipped: "generator (GetPKValues (primaryKeys ctx0) row) = None"
  proof -
    from two len(3) have "length (GetPKValues (primaryKeys ctx0) row) \<noteq> 1"
      by (simp add: GetPKValues_def fr(4))
    then show ?thesis by (auto simp: generator_None_iff)
  qed
  from marker(1) have k: "k \<in> set (sorted_keys (PK row0))" by (rule index_Str_dom)
  have pkv: "GetPKValues (primaryKeys ctx0) row =
      map (\<lambda>pkKey. resolved (primaryKeys ctx0) (pkValue (index (PK row0) pkKey)))
        (sorted_keys (PK row0))"
    by (simp add: GetPKValues_def resolve_map fr comp_def)
  from k marker have at: "map_of (zip (pkColumns row) (GetPKValues (primaryKeys ctx0) row)) k = Some g"
    by (simp add: pkv fr(4) map_of_zip_map pkValue_generator g_def)
  then have mem: "g \<in> set (GetPKValues (primaryKeys ctx0) row)"
    by (auto dest!: map_of_SomeD set_zip_rightD)
  have tk: "take (length (pkColumns row)) (GetPKAndInsertValues (primaryKeys ctx0) row) =
      GetPKValues (primaryKeys ctx0) row"
    by (simp add: GetPKAndInsertValues_def GetPKValues_def len)
  have args: "arguments (count_call ctx0 row) = GetPKValues (primaryKeys ctx0) row"
    "arguments (insert_call ctx0 row) = GetPKAndInsertValues (primaryKeys ctx0) row"
    "arguments (update_call ctx0 row) =
       GetUpdateValues (primaryKeys ctx0) row @ GetPKValues (primaryKeys ctx0) row"
    by (simp_all add: count_call_def insert_call_def update_call_def GetPKValues_def
        GetPKAndInsertValues_def GetUpdateValues_def resolve_map)
  note s = load_row_sent [OF skipped [unfolded row_def], where tx = tx and i = i,
      folded row_def out_def]
  from load_row_counts_first [OF skipped [unfolded row_def], where tx = tx and i = i]
  have first: "\<exists>rest. sent (snd out) = sent ctx0 @ count_call ctx0 row # rest"
    by (simp add: row_def out_def)
  from mem have "g \<in> set (arguments (count_call ctx0 row))"
    "g \<in> set (arguments (insert_call ctx0 row))"
    "g \<in> set (arguments (update_call ctx0 row))"
    by (simp_all add: args GetPKAndInsertValues_def GetPKValues_def)
  with skipped at tk args first s(1) s(2) [where count = count] s(3) [where count = count] s(4)
  show ?thesis by (simp add: tk) blast
qed


theorem composite_generator_witness:
  "1 < length (sorted_keys (PK member_row)) \<and>
   index (PK member_row) ''id'' = Str ''PK_GENERATE(mid)'' \<and>
   HasPrefix ''PK_GENERATE(mid)'' onPKGeneratePrefix \<and>
   HasSuffix ''PK_GENERATE(mid)'' onPKGenerateSuffix \<and>
   generator (GetPKValues (primaryKeys mysql_ctx) (compiled mysql_ctx member_row)) = None \<and>
   map_of (zip (pkColumns (compiled mysql_ctx member_row))
     (GetPKValues (primaryKeys mysql_ctx) (compiled mysql_ctx member_row))) ''id'' =
     Some (PrimaryKeyGenerator (TrimSpace (TrimPrefix
       (TrimSuffix ''PK_GENERATE(mid)'' onPKGenerateSuffix) onPKGeneratePrefix))) \<and>
   fst (load_row scripted 0 member_row mysql_ctx) = None \<and>
   sent (snd (load_row scripted 0 member_row mysql_ctx)) =
     [QueryRow (''SELECT COUNT(*) FROM '' @ quoted ''members'' @ '' WHERE id = ? AND org = ?'')
        [PrimaryKeyGenerator ''mid'', Lit (Num 3)],
      Exec (''INSERT INTO '' @ quoted ''members'' @ ''('' @ quoted ''id'' @ '', '' @
            quoted ''org'' @ '', '' @ quoted ''role'' @ '') VALUES(?, ?, ?)'')
        [PrimaryKeyGenerator ''mid'', Lit (Num 3), Lit (Str ''admin'')]]"
proof -
  have two: "1 < length (sorted_keys (PK member_row))"
    and marker: "index (PK member_row) ''id'' = Str ''PK_GENERATE(mid)''"
      "HasPrefix ''PK_GENERATE(mid)'' onPKGeneratePrefix"
      "HasSuffix ''PK_GENERATE(mid)'' onPKGenerateSuffix"
    and t: "fst (load_row scripted 0 member_row mysql_ctx) = None"
      "sent (snd (load_row scripted 0 member_row mysql_ctx)) =
     [QueryRow (''SELECT COUNT(*) FROM '' @ quoted ''members'' @ '' WHERE id = ? AND org = ?'')
        [PrimaryKeyGenerator ''mid'', Lit (Num 3)],
      Exec (''INSERT INTO '' @ quoted ''members'' @ ''('' @ quoted ''id'' @ '', '' @
            quoted ''org'' @ '', '' @ quoted ''role'' @ '') VALUES(?, ?, ?)'')
        [PrimaryKeyGenerator ''mid'', Lit (Num 3), Lit (Str ''admin'')]]"
    by code_simp+
  from composite_generator [OF two marker, where tx = scripted and ?ctx0.0 = mysql_ctx
      and i = 0 and count = 1] two marker t
  show ?thesis by blast
qed

lemma accepting_agreeable: "accepting agreeable"
  by (simp add: accepting_def agreeable_def)

lemma acceptingD:
  assumes "accepting tx"
  shows "\<exists>n. fst (ScanInt tx query args db) = Inr n"
    and "\<exists>seqName. fst (ScanName tx query args db) = Inr seqName"
    and "\<exists>n. fst (ExecLastInsertId tx query args db) = Inr (Inr n)"
  using assms unfolding accepting_def by blast+

lemma fixPostgresPKSequence_accepting:
  assumes "accepting tx"
  shows "fst (fixPostgresPKSequence tx table column ctx) = None"
proof -
  let ?a = "ScanName tx sequence_query [Lit (Str table), Lit (Str column)] (Db ctx)"
  from acceptingD(2) [OF assms] obtain s where s: "fst ?a = Inr s" by blast
  show ?thesis
  proof (cases s)
    case None
    with s show ?thesis by (simp add: fixPostgresPKSequence_eq)
  next
    case (Some seqName)
    from acceptingD(3) [OF assms] obtain n where
      "fst (ExecLastInsertId tx (setval_query column table) [Lit (Str seqName)] (snd ?a)) =
         Inr (Inr n)"
      by blast
    with s Some show ?thesis by (simp add: fixPostgresPKSequence_eq)
  qed
qed

lemma fix_sequence_accepting:
  "accepting tx \<Longrightarrow> columns \<noteq> [] \<Longrightarrow> fst (fix_sequence tx i row columns ctx) = None"
  by (cases columns)
    (auto simp: fix_sequence_def case_prod_unfold fixPostgresPKSequence_accepting
      split: option.splits)

lemma insert_or_update_accepting:
  fixes tx :: "'db Tx" and ctx :: "'db Context" and i now :: nat and row0 :: Row and flag :: bool
  assumes acc: "accepting tx" and pk: "sorted_keys (PK row0) \<noteq> []"
  shows "fst (insert_or_update tx i (fst (Init flag row0 now)) ctx) = None"
proof -
  let ?row = "fst (Init flag row0 now)"
  let ?q0 = "select_count (Driver ctx) (Table row0) (sorted_keys (PK row0))"
  let ?a = "ScanInt tx ?q0 (GetPKValues (primaryKeys ctx) ?row) (Db ctx)"
  let ?insq = "insert_statement (Table row0) (GetPKAndInsertColumns ?row)
      (GetPKAndInsertPlaceholders (Driver ctx) ?row)"
  let ?updq = "update_statement (Driver ctx) ?row"
  note nf = insert_or_update_Init [of tx i flag row0 now ctx]
  from acceptingD(1) [OF acc] obtain count where a: "fst ?a = Inr count" by blast
  from acceptingD(3) [OF acc] obtain n where
    b: "fst (ExecLastInsertId tx ?insq (GetPKAndInsertValues (primaryKeys ctx) ?row) (snd ?a)) =
      Inr (Inr n)"
    by blast
  from acceptingD(3) [OF acc] obtain m where
    c: "fst (ExecLastInsertId tx ?updq
         (GetUpdateValues (primaryKeys ctx) ?row @ GetPKValues (primaryKeys ctx) ?row) (snd ?a)) =
      Inr (Inr m)"
    by blast
  from pk have cols: "GetPKAndInsertColumns ?row \<noteq> []"
    by (simp add: GetPKAndInsertColumns_def Init_frame)
  show ?thesis
    using a b c cols acc
    by (simp add: nf fix_sequence_accepting GetUpdateColumns_def)
qed


lemma generated_key_accepting:
  assumes "accepting tx"
  shows "\<exists>key. generated_key tx ctx row pkColumn = Inr key"
proof (cases "Driver ctx = ''postgres''")
  case True
  with acceptingD(1) [OF assms] show ?thesis
    by (simp add: generated_key_def generated_call_def Let_def)
next
  case False
  let ?q = "insert_statement (Table row) (map quoted (insertColumns row))
         (map (placeholder (Driver ctx)) [0 ..< length (insertColumns row)])"
  from acceptingD(3) [OF assms] obtain n where
    "fst (ExecLastInsertId tx ?q (map (resolved (primaryKeys ctx)) (insertValues row)) (Db ctx)) =
       Inr (Inr n)"
    by blast
  with False show ?thesis
    by (simp add: generated_key_def generated_call_def Let_def)
qed

lemma load_row_accepting:
  fixes tx :: "'db Tx" and ctx0 :: "'db Context" and i :: nat and row0 :: Row
  assumes acc: "accepting tx" and pk: "sorted_keys (PK row0) \<noteq> []"
  shows "fst (load_row tx i row0 ctx0) =
    (if primaryKeysMap ctx0 = None \<and>
        generator (GetPKValues (primaryKeys ctx0) (compiled ctx0 row0)) \<noteq> None
     then Some Panic else None)"
proof (cases "generator (GetPKValues (primaryKeys ctx0) (compiled ctx0 row0))")
  case None
  then show ?thesis
    using insert_or_update_accepting [OF acc pk]
    by (simp add: load_row_skipped [OF None [unfolded compiled_def]])
next
  case (Some name)
  let ?row = "compiled ctx0 row0"
  let ?ctx = "ctx0\<lparr>clock := snd (Init (SetUpdatedAtOnInsert ctx0) row0 (clock ctx0))\<rparr>"
  from Some have "length (pkValues ?row) = 1"
    using length_resolve [of "primaryKeys ctx0" "pkValues ?row"]
    by (simp add: generator_Some_iff GetPKValues_def)
  with compiled_lengths(3) [of ctx0 row0] obtain pkColumn where c: "pkColumns ?row = [pkColumn]"
    by (cases "pkColumns ?row") auto
  from generated_key_accepting [OF acc] obtain key where
    k: "generated_key tx ?ctx ?row pkColumn = Inr key"
    by blast
  show ?thesis
  proof (cases "primaryKeysMap ctx0")
    case None
    then have "primaryKeysMap ?ctx = None" by simp
    from insert_generated_Init(4) [OF c compiled_lengths(1) k this, where i = i and name = name]
    show ?thesis using None Some by (simp add: load_row_generated [OF Some])
  next
    case (Some entries)
    then have "primaryKeysMap ?ctx = Some entries" by simp
    from insert_generated_Init(3) [OF c compiled_lengths(1) k this, where i = i and name = name]
    show ?thesis using Some \<open>generator _ = Some name\<close> by (simp add: load_row_generated)
  qed
qed

text \<open>
  C1, as the code has it. A \<open>PK_REFERENCE(name)\<close> whose name the registry does not hold
  is resolved to nil, the zero value of the registry map, and nil is bound as the argument
  in its place, in the primary-key values as in the insert and update values. The lookup
  gives no error: with a database that fails no statement, a row with a primary-key column
  loads, whatever the registry holds. (The one row that does not is the row of the
  generated-insert path in a context made outside the package, which panics when it
  stores its key in the nil map.)
\<close>

theorem unwritten_reference:
  fixes tx :: "'db Tx" and ctx0 :: "'db Context" and i :: nat and row0 row :: Row
  defines "reg \<equiv> primaryKeys ctx0"
  assumes unwritten: "reg name = None"
  shows
    "Get name reg = Lit Null \<and>
     (\<forall>j < length (pkValues row). pkValues row ! j = PrimaryKeyReference name \<longrightarrow>
        GetPKValues reg row ! j = Lit Null \<and> GetPKAndInsertValues reg row ! j = Lit Null) \<and>
     (\<forall>j < length (insertValues row). insertValues row ! j = PrimaryKeyReference name \<longrightarrow>
        GetInsertValues reg row ! j = Lit Null \<and>
        GetPKAndInsertValues reg row ! (length (pkValues row) + j) = Lit Null) \<and>
     (\<forall>j < length (updateValues row). updateValues row ! j = PrimaryKeyReference name \<longrightarrow>
        GetUpdateValues reg row ! j = Lit Null) \<and>
     (accepting tx \<and> sorted_keys (PK row0) \<noteq> [] \<longrightarrow>
        fst (load_row tx i row0 ctx0) =
          (if primaryKeysMap ctx0 = None \<and>
              generator (GetPKValues reg (compiled ctx0 row0)) \<noteq> None
           then Some Panic else None))"
proof -
  from unwritten have g: "resolved reg (PrimaryKeyReference name) = Lit Null"
    "Get name reg = Lit Null"
    by (simp_all add: resolved_def Get_def)
  have l: "accepting tx \<and> sorted_keys (PK row0) \<noteq> [] \<longrightarrow>
        fst (load_row tx i row0 ctx0) =
          (if primaryKeysMap ctx0 = None \<and>
              generator (GetPKValues reg (compiled ctx0 row0)) \<noteq> None
           then Some Panic else None)"
    using load_row_accepting [of tx row0 i ctx0] by (simp add: reg_def)
  from g have "Get name reg = Lit Null \<and>
     (\<forall>j < length (pkValues row). pkValues row ! j = PrimaryKeyReference name \<longrightarrow>
        GetPKValues reg row ! j = Lit Null \<and> GetPKAndInsertValues reg row ! j = Lit Null) \<and>
     (\<forall>j < length (insertValues row). insertValues row ! j = PrimaryKeyReference name \<longrightarrow>
        GetInsertValues reg row ! j = Lit Null \<and>
        GetPKAndInsertValues reg row ! (length (pkValues row) + j) = Lit Null) \<and>
     (\<forall>j < length (updateValues row). updateValues row ! j = PrimaryKeyReference name \<longrightarrow>
        GetUpdateValues reg row ! j = Lit Null)"
    by (auto simp: GetPKValues_def GetPKAndInsertValues_def GetInsertValues_def
        GetUpdateValues_def resolve_map nth_append)
  with l show ?thesis by blast
qed


theorem unwritten_reference_counterexample:
  "primaryKeys mysql_ctx ''uid'' = None \<and>
   fst (load_rows scripted 0 [pet_row] mysql_ctx) = None \<and>
   sent (snd (load_rows scripted 0 [pet_row] mysql_ctx)) =
     [QueryRow (''SELECT COUNT(*) FROM '' @ quoted ''pets'' @ '' WHERE id = ?'') [Lit (Num 1)],
      Exec (''INSERT INTO '' @ quoted ''pets'' @ ''('' @ quoted ''id'' @ '', '' @
            quoted ''owner_id'' @ '') VALUES(?, ?)'')
        [Lit (Num 1), Lit Null]] \<and>
   primaryKeys mysql_ctx ''pid'' = None \<and>
   fst (load_rows scripted 0 [visit_row] mysql_ctx) = None \<and>
   sent (snd (load_rows scripted 0 [visit_row] mysql_ctx)) =
     [QueryRow (''SELECT COUNT(*) FROM '' @ quoted ''visits'' @ '' WHERE pet_id = ?'') [Lit Null],
      Exec (''INSERT INTO '' @ quoted ''visits'' @ ''('' @ quoted ''pet_id'' @ '') VALUES(?)'')
        [Lit Null]]"
  by (intro conjI) code_simp+

theorem unwritten_reference_witness:
  "primaryKeys mysql_ctx ''uid'' = None \<and>
   insertValues (compiled mysql_ctx pet_row) ! 0 = PrimaryKeyReference ''uid'' \<and>
   GetInsertValues (primaryKeys mysql_ctx) (compiled mysql_ctx pet_row) ! 0 = Lit Null \<and>
   GetPKAndInsertValues (primaryKeys mysql_ctx) (compiled mysql_ctx pet_row) !
     (length (pkValues (compiled mysql_ctx pet_row)) + 0) = Lit Null \<and>
   updateValues (compiled mysql_ctx pet_row) ! 0 = PrimaryKeyReference ''uid'' \<and>
   GetUpdateValues (primaryKeys mysql_ctx) (compiled mysql_ctx pet_row) ! 0 = Lit Null \<and>
   accepting agreeable \<and> sorted_keys (PK pet_row) \<noteq> [] \<and>
   fst (load_row agreeable 0 pet_row mysql_ctx) = None"
proof -
  have u: "primaryKeys mysql_ctx ''uid'' = None"
    and v: "0 < length (insertValues (compiled mysql_ctx pet_row))"
      "insertValues (compiled mysql_ctx pet_row) ! 0 = PrimaryKeyReference ''uid''"
      "0 < length (updateValues (compiled mysql_ctx pet_row))"
      "updateValues (compiled mysql_ctx pet_row) ! 0 = PrimaryKeyReference ''uid''"
    and pk: "sorted_keys (PK pet_row) \<noteq> []"
    by code_simp+
  have m: "primaryKeysMap mysql_ctx \<noteq> None"
    by (simp add: mysql_ctx_def start_def)
  note r = unwritten_reference [OF u, where tx = agreeable and i = 0 and ?row0.0 = pet_row
      and row = "compiled mysql_ctx pet_row"]
  from r have "accepting agreeable \<and> sorted_keys (PK pet_row) \<noteq> [] \<longrightarrow>
      fst (load_row agreeable 0 pet_row mysql_ctx) =
        (if primaryKeysMap mysql_ctx = None \<and>
            generator (GetPKValues (primaryKeys mysql_ctx) (compiled mysql_ctx pet_row)) \<noteq> None
         then Some Panic else None)"
    by blast
  with pk accepting_agreeable m have l: "fst (load_row agreeable 0 pet_row mysql_ctx) = None"
    by simp
  from r u v pk accepting_agreeable l show ?thesis by blast
qed

lemma fix_sequence_cases:
  fixes tx :: "'db Tx" and ctx :: "'db Context" and i :: nat and row :: Row
    and column :: string and columns :: "string list"
  defines "out \<equiv> fix_sequence tx i row (column # columns) ctx"
  shows "Driver ctx \<noteq> postgresDriver \<or> column \<noteq> quoted ''id'' \<Longrightarrow> out = (None, ctx)"
    and "Driver ctx = postgresDriver \<Longrightarrow> column = quoted ''id'' \<Longrightarrow>
           sequence_answer tx ctx (Table row) = Inr None \<Longrightarrow>
           fst out = None \<and> sent (snd out) = sent ctx @ [sequence_lookup (Table row)]"
    and "Driver ctx = postgresDriver \<Longrightarrow> column = quoted ''id'' \<Longrightarrow>
           sequence_answer tx ctx (Table row) = Inr (Some seqName) \<Longrightarrow>
           sent (snd out) =
             sent ctx @
             [sequence_lookup (Table row),
              Exec (setval_query ''id'' (Table row)) [Lit (Str seqName)]]"
    and "Driver ctx = postgresDriver \<Longrightarrow> column = quoted ''id'' \<Longrightarrow>
           sequence_answer tx ctx (Table row) = Inl err \<Longrightarrow>
           fst out = Some (Error (NewProcessingError (i + 1) err)) \<and>
           sent (snd out) = sent ctx @ [sequence_lookup (Table row)]"
  by (auto simp: out_def fix_sequence_def quoted_def sequence_answer_def sequence_lookup_def
      fixPostgresPKSequence_eq case_prod_unfold split: sum.splits option.splits)


lemma load_row_then_fix:
  fixes tx :: "'db Tx" and ctx0 :: "'db Context" and i :: nat and row0 :: Row and count :: int
  defines "row \<equiv> compiled ctx0 row0"
  defines "out \<equiv> load_row tx i row0 ctx0"
  assumes skipped: "generator (GetPKValues (primaryKeys ctx0) row) = None"
  shows "count_answer tx ctx0 row = Inr 0 \<Longrightarrow>
      \<exists>ctx2. sent ctx2 = sent ctx0 @ [count_call ctx0 row, insert_call ctx0 row] \<and>
        Driver ctx2 = Driver ctx0 \<and>
        ((\<exists>err. out = (Some (Error (NewProcessingError (i + 1) err)), ctx2)) \<or>
         out = fix_sequence tx i row
                 (map quoted (pkColumns row) @ map quoted (insertColumns row)) ctx2)"
    and "count_answer tx ctx0 row = Inr count \<Longrightarrow> count \<noteq> 0 \<Longrightarrow> updateColumns row \<noteq> [] \<Longrightarrow>
      \<exists>ctx2. sent ctx2 = sent ctx0 @ [count_call ctx0 row, update_call ctx0 row] \<and>
        Driver ctx2 = Driver ctx0 \<and>
        ((\<exists>err. out = (Some (Error (NewProcessingError (i + 1) err)), ctx2)) \<or>
         out = fix_sequence tx i row (map quoted (updateColumns row)) ctx2)"
proof -
  let ?ctx = "ctx0\<lparr>clock := snd (Init (SetUpdatedAtOnInsert ctx0) row0 (clock ctx0))\<rparr>"
  let ?reg = "primaryKeys ctx0"
  let ?q0 = "select_count (Driver ctx0) (Table row0) (sorted_keys (PK row0))"
  let ?a = "ScanInt tx ?q0 (GetPKValues ?reg row) (Db ctx0)"
  from skipped have out: "out = insert_or_update tx i row ?ctx"
    by (simp add: out_def row_def compiled_def load_row_skipped)
  note fr = compiled_frame [of ctx0 row0, folded row_def]
  note len = compiled_lengths [of ctx0 row0, folded row_def]
  note nf = insert_or_update_Init [of tx i "SetUpdatedAtOnInsert ctx0" row0 "clock ctx0" ?ctx,
      folded compiled_def, folded row_def, simplified]
  note g = GetPKValues_def resolve_map GetPKAndInsertColumns_def GetPKAndInsertPlaceholders_def
    GetPKAndInsertValues_def GetUpdateValues_def GetUpdateColumns_def count_answer_def
    count_call_def insert_call_def update_call_def
  {
    assume a: "count_answer tx ctx0 row = Inr 0"
    let ?insq = "insert_statement (Table row0) (GetPKAndInsertColumns row)
        (GetPKAndInsertPlaceholders (Driver ctx0) row)"
    let ?b = "ExecLastInsertId tx ?insq (GetPKAndInsertValues ?reg row) (snd ?a)"
    let ?ctx2 = "?ctx\<lparr>Db := snd ?b,
        sent := sent ctx0 @ [QueryRow ?q0 (GetPKValues ?reg row),
                             Exec ?insq (GetPKAndInsertValues ?reg row)]\<rparr>"
    have "sent ?ctx2 = sent ctx0 @ [count_call ctx0 row, insert_call ctx0 row] \<and>
        Driver ?ctx2 = Driver ctx0 \<and>
        ((\<exists>err. out = (Some (Error (NewProcessingError (i + 1) err)), ?ctx2)) \<or>
         out = fix_sequence tx i row
                 (map quoted (pkColumns row) @ map quoted (insertColumns row)) ?ctx2)"
      using a by (cases "fst ?b") (auto simp: out nf g fr len)
    then show "\<exists>ctx2. sent ctx2 = sent ctx0 @ [count_call ctx0 row, insert_call ctx0 row] \<and>
        Driver ctx2 = Driver ctx0 \<and>
        ((\<exists>err. out = (Some (Error (NewProcessingError (i + 1) err)), ctx2)) \<or>
         out = fix_sequence tx i row
                 (map quoted (pkColumns row) @ map quoted (insertColumns row)) ctx2)"
      by (rule exI)
  }
  {
    assume a: "count_answer tx ctx0 row = Inr count" "count \<noteq> 0" "updateColumns row \<noteq> []"
    let ?updq = "update_statement (Driver ctx0) row"
    let ?c = "ExecLastInsertId tx ?updq (GetUpdateValues ?reg row @ GetPKValues ?reg row) (snd ?a)"
    let ?ctx2 = "?ctx\<lparr>Db := snd ?c,
        sent := sent ctx0 @ [QueryRow ?q0 (GetPKValues ?reg row),
                             Exec ?updq (GetUpdateValues ?reg row @ GetPKValues ?reg row)]\<rparr>"
    have "sent ?ctx2 = sent ctx0 @ [count_call ctx0 row, update_call ctx0 row] \<and>
        Driver ?ctx2 = Driver ctx0 \<and>
        ((\<exists>err. out = (Some (Error (NewProcessingError (i + 1) err)), ?ctx2)) \<or>
         out = fix_sequence tx i row (map quoted (updateColumns row)) ?ctx2)"
      using a by (cases "fst ?c") (auto simp: out nf g fr len)
    then show "\<exists>ctx2. sent ctx2 = sent ctx0 @ [count_call ctx0 row, update_call ctx0 row] \<and>
        Driver ctx2 = Driver ctx0 \<and>
        ((\<exists>err. out = (Some (Error (NewProcessingError (i + 1) err)), ctx2)) \<or>
         out = fix_sequence tx i row (map quoted (updateColumns row)) ctx2)"
      by (rule exI)
  }
qed


text \<open>
  C5, as the code has it. For the postgres driver, after the INSERT of a row that was
  counted when the first column of the INSERT is \<open>"id"\<close>, and after the UPDATE when the
  first column it sets is \<open>"id"\<close>, the loader asks \<open>pg_get_serial_sequence\<close> for the
  sequence of the column \<open>id\<close> of the table; when there is one it sets it to \<open>MAX("id")\<close>
  of the table, and when there is none nothing more is sent and the row succeeds. For
  another driver, or another first column, nothing is asked.
\<close>

theorem sequence_fix_up:
  fixes tx :: "'db Tx" and ctx0 ctx :: "'db Context" and i :: nat and row0 :: Row and count :: int
    and column seqName :: string and columns :: "string list"
  defines "row \<equiv> compiled ctx0 row0"
  defines "out \<equiv> load_row tx i row0 ctx0"
  defines "fix \<equiv> fix_sequence tx i row (column # columns) ctx"
  assumes skipped: "generator (GetPKValues (primaryKeys ctx0) row) = None"
  shows
    "(count_answer tx ctx0 row = Inr 0 \<longrightarrow>
       (\<exists>ctx2. sent ctx2 = sent ctx0 @ [count_call ctx0 row, insert_call ctx0 row] \<and>
          Driver ctx2 = Driver ctx0 \<and>
          ((\<exists>err. out = (Some (Error (NewProcessingError (i + 1) err)), ctx2)) \<or>
           out = fix_sequence tx i row
                   (map quoted (pkColumns row) @ map quoted (insertColumns row)) ctx2))) \<and>
     (count_answer tx ctx0 row = Inr count \<and> count \<noteq> 0 \<and> updateColumns row \<noteq> [] \<longrightarrow>
       (\<exists>ctx2. sent ctx2 = sent ctx0 @ [count_call ctx0 row, update_call ctx0 row] \<and>
          Driver ctx2 = Driver ctx0 \<and>
          ((\<exists>err. out = (Some (Error (NewProcessingError (i + 1) err)), ctx2)) \<or>
           out = fix_sequence tx i row (map quoted (updateColumns row)) ctx2))) \<and>
     (Driver ctx \<noteq> postgresDriver \<or> column \<noteq> quoted ''id'' \<longrightarrow> fix = (None, ctx)) \<and>
     (Driver ctx = postgresDriver \<and> column = quoted ''id'' \<and>
      sequence_answer tx ctx (Table row) = Inr None \<longrightarrow>
        fst fix = None \<and> sent (snd fix) = sent ctx @ [sequence_lookup (Table row)]) \<and>
     (Driver ctx = postgresDriver \<and> column = quoted ''id'' \<and>
      sequence_answer tx ctx (Table row) = Inr (Some seqName) \<longrightarrow>
        sent (snd fix) =
          sent ctx @
          [sequence_lookup (Table row),
           Exec (setval_query ''id'' (Table row)) [Lit (Str seqName)]]) \<and>
     Table row = Table row0"
proof -
  note l = load_row_then_fix [OF skipped [unfolded row_def], where tx = tx and i = i,
      folded row_def out_def]
  note f = fix_sequence_cases [where tx = tx and i = i and row = row and column = column
      and columns = columns and ctx = ctx, folded fix_def]
  from l(1) l(2) [where count = count] f(1) f(2) f(3) [where seqName = seqName]
    compiled_frame(1) [of ctx0 row0, folded row_def]
  show ?thesis by blast
qed

theorem sequence_fix_up_counterexample:
  "Driver postgres_update_ctx = postgresDriver \<and>
   pkColumns (compiled postgres_update_ctx post_row) = [''id''] \<and>
   pkValues (compiled postgres_update_ctx post_row) = [Lit (Num 5)] \<and>
   names (Db postgres_update_ctx) = [Inr (Some ''posts_id_seq'')] \<and>
   fst (load_rows scripted 0 [post_row] postgres_update_ctx) = None \<and>
   sent (snd (load_rows scripted 0 [post_row] postgres_update_ctx)) =
     [QueryRow (''SELECT COUNT(*) FROM '' @ quoted ''posts'' @ '' WHERE id = $1'')
        [Lit (Num 5)],
      Exec (''UPDATE '' @ quoted ''posts'' @ '' SET '' @ quoted ''body'' @ '' = $1, '' @
            quoted ''title'' @ '' = $2 WHERE id = $3'')
        [Lit (Str ''text''), Lit (Str ''Hello''), Lit (Num 5)]] \<and>
   Driver postgres_country_ctx = postgresDriver \<and>
   pkValues (compiled postgres_country_ctx country_row) = [Lit (Str ''nz'')] \<and>
   fst (load_rows scripted 0 [country_row] postgres_country_ctx) = None \<and>
   sent (snd (load_rows scripted 0 [country_row] postgres_country_ctx)) =
     [QueryRow (''SELECT COUNT(*) FROM '' @ quoted ''countries'' @ '' WHERE code = $1'')
        [Lit (Str ''nz'')],
      Exec (''INSERT INTO '' @ quoted ''countries'' @ ''('' @ quoted ''code'' @ '', '' @
            quoted ''name'' @ '') VALUES($1, $2)'')
        [Lit (Str ''nz''), Lit (Str ''Aotearoa'')]]"
  by (intro conjI) code_simp+

theorem sequence_fix_up_witness:
  "generator (GetPKValues (primaryKeys postgres_insert_ctx)
     (compiled postgres_insert_ctx tag_row)) = None \<and>
   count_answer scripted postgres_insert_ctx (compiled postgres_insert_ctx tag_row) = Inr 0 \<and>
   (\<exists>ctx2. sent ctx2 =
        sent postgres_insert_ctx @
        [count_call postgres_insert_ctx (compiled postgres_insert_ctx tag_row),
         insert_call postgres_insert_ctx (compiled postgres_insert_ctx tag_row)] \<and>
      Driver ctx2 = Driver postgres_insert_ctx \<and>
      ((\<exists>err. load_row scripted 0 tag_row postgres_insert_ctx =
                (Some (Error (NewProcessingError (0 + 1) err)), ctx2)) \<or>
       load_row scripted 0 tag_row postgres_insert_ctx =
         fix_sequence scripted 0 (compiled postgres_insert_ctx tag_row)
           (map quoted (pkColumns (compiled postgres_insert_ctx tag_row)) @
            map quoted (insertColumns (compiled postgres_insert_ctx tag_row))) ctx2)) \<and>
   Driver postgres_insert_ctx = postgresDriver \<and>
   sequence_answer scripted postgres_insert_ctx (Table (compiled postgres_insert_ctx tag_row)) =
     Inr (Some ''tags_id_seq'') \<and>
   sent (snd (fix_sequence scripted 0 (compiled postgres_insert_ctx tag_row)
     (quoted ''id'' # [quoted ''label'']) postgres_insert_ctx)) =
     sent postgres_insert_ctx @
     [sequence_lookup (Table (compiled postgres_insert_ctx tag_row)),
      Exec (setval_query ''id'' (Table (compiled postgres_insert_ctx tag_row)))
        [Lit (Str ''tags_id_seq'')]] \<and>
   fst (load_row scripted 0 tag_row postgres_insert_ctx) = None \<and>
   sent (snd (load_row scripted 0 tag_row postgres_insert_ctx)) =
     [QueryRow (''SELECT COUNT(*) FROM '' @ quoted ''tags'' @ '' WHERE id = $1'') [Lit (Num 9)],
      Exec (''INSERT INTO '' @ quoted ''tags'' @ ''('' @ quoted ''id'' @ '', '' @
            quoted ''label'' @ '') VALUES($1, $2)'')
        [Lit (Num 9), Lit (Str ''new'')],
      QueryRow sequence_query [Lit (Str ''tags''), Lit (Str ''id'')],
      Exec (setval_query ''id'' ''tags'') [Lit (Str ''tags_id_seq'')]]"
proof -
  have skipped: "generator (GetPKValues (primaryKeys postgres_insert_ctx)
     (compiled postgres_insert_ctx tag_row)) = None"
    and a: "count_answer scripted postgres_insert_ctx (compiled postgres_insert_ctx tag_row) = Inr 0"
    and d: "Driver postgres_insert_ctx = postgresDriver"
    and s: "sequence_answer scripted postgres_insert_ctx
        (Table (compiled postgres_insert_ctx tag_row)) = Inr (Some ''tags_id_seq'')"
    and t: "fst (load_row scripted 0 tag_row postgres_insert_ctx) = None"
      "sent (snd (load_row scripted 0 tag_row postgres_insert_ctx)) =
     [QueryRow (''SELECT COUNT(*) FROM '' @ quoted ''tags'' @ '' WHERE id = $1'') [Lit (Num 9)],
      Exec (''INSERT INTO '' @ quoted ''tags'' @ ''('' @ quoted ''id'' @ '', '' @
            quoted ''label'' @ '') VALUES($1, $2)'')
        [Lit (Num 9), Lit (Str ''new'')],
      QueryRow sequence_query [Lit (Str ''tags''), Lit (Str ''id'')],
      Exec (setval_query ''id'' ''tags'') [Lit (Str ''tags_id_seq'')]]"
    by code_simp+
  from sequence_fix_up [OF skipped, where tx = scripted and i = 0 and count = 1
      and ctx = postgres_insert_ctx and column = "quoted ''id''" and columns = "[quoted ''label'']"
      and seqName = "''tags_id_seq''"] skipped a d s t
  show ?thesis by blast
qed

section \<open>Batches and transactions\<close>

lemma load_rows_stop:
  "load_rows tx j pre ctx = (None, ctx1) \<Longrightarrow>
   load_row tx (j + length pre) bad ctx1 = (Some e, ctx2) \<Longrightarrow>
   load_rows tx j (pre @ bad # rest) ctx = (Some e, ctx2)"
proof (induction pre arbitrary: j ctx)
  case Nil
  then show ?case by simp
next
  case (Cons row pre)
  then show ?case
    by (cases "load_row tx j row ctx") (auto split: option.splits)
qed

lemma load_files_append:
  "load_files env (fs1 @ fs2) ctx =
    (case load_files env fs1 ctx of
       (Some err, ctx1) \<Rightarrow> (Some err, ctx1)
     | (None, ctx1) \<Rightarrow> load_files env fs2 ctx1)"
proof (induction fs1 arbitrary: ctx)
  case Nil
  then show ?case by simp
next
  case (Cons f fs1)
  then show ?case
    by (auto split: sum.splits option.splits prod.splits)
qed

lemma row_failure_simps [simp]:
  "row_failure i None" "row_failure i (Some Panic)"
  "row_failure i (Some (Error (NewProcessingError (Suc i) err)))"
  by (auto simp: row_failure_def)

lemma fix_sequence_failure [simp]: "row_failure i (fst (fix_sequence tx i row columns ctx))"
  by (simp add: fix_sequence_def case_prod_unfold split: list.splits option.splits)

lemma insert_generated_failure: "row_failure i (fst (insert_generated tx i row name ctx))"
  by (simp add: insert_generated_def QueryRowScanInt_eq DbExec_eq Let_def
      split: list.splits sum.splits option.splits)

lemma insert_or_update_failure: "row_failure i (fst (insert_or_update tx i row ctx))"
  by (simp add: insert_or_update_def QueryRowScanInt_eq DbExec_eq
      split: option.splits sum.splits)

lemma load_row_failure: "row_failure i (fst (load_row tx i row0 ctx0))"
  by (simp add: load_row_eq insert_generated_failure insert_or_update_failure
      split: option.splits)

text \<open>What a rollback leaves does not depend on the statements the loader has sent, when the
  database undoes them.\<close>

lemma undoesD:
  assumes "undoes env"
  shows "Rollback env (snd (ScanInt (transaction env) query args db)) = Rollback env db"
    and "Rollback env (snd (ScanName (transaction env) query args db)) = Rollback env db"
    and "Rollback env (snd (ExecLastInsertId (transaction env) query args db)) = Rollback env db"
  using assms unfolding undoes_def by blast+

lemma fixPostgresPKSequence_undone:
  assumes "undoes env"
  shows "Rollback env (Db (snd (fixPostgresPKSequence (transaction env) table column ctx))) =
     Rollback env (Db ctx)"
  by (simp add: fixPostgresPKSequence_eq undoesD [OF assms] split: sum.splits option.splits)

lemma fix_sequence_undone:
  assumes "undoes env"
  shows "Rollback env (Db (snd (fix_sequence (transaction env) i row columns ctx))) =
     Rollback env (Db ctx)"
  using fixPostgresPKSequence_undone [OF assms, of "Table row" "''id''" ctx]
  by (simp add: fix_sequence_def case_prod_unfold split: list.splits option.splits)

lemma insert_generated_undone:
  assumes "undoes env"
  shows "Rollback env (Db (snd (insert_generated (transaction env) i row name ctx))) =
     Rollback env (Db ctx)"
  by (simp add: insert_generated_def QueryRowScanInt_eq DbExec_eq Let_def undoesD [OF assms]
      split: list.splits sum.splits option.splits)

lemma insert_or_update_undone:
  assumes "undoes env"
  shows "Rollback env (Db (snd (insert_or_update (transaction env) i row ctx))) =
     Rollback env (Db ctx)"
  by (simp add: insert_or_update_def QueryRowScanInt_eq DbExec_eq undoesD [OF assms]
      fix_sequence_undone [OF assms] split: option.splits sum.splits)

lemma load_row_undone:
  assumes "undoes env"
  shows "Rollback env (Db (snd (load_row (transaction env) i row0 ctx))) = Rollback env (Db ctx)"
  by (simp add: load_row_eq insert_generated_undone [OF assms] insert_or_update_undone [OF assms]
      split: option.splits)

lemma load_rows_undone:
  assumes "undoes env"
  shows "Rollback env (Db (snd (load_rows (transaction env) i rows ctx))) = Rollback env (Db ctx)"
proof (induction rows arbitrary: i ctx)
  case Nil
  then show ?case by simp
next
  case (Cons row rows)
  show ?case
  proof (cases "load_row (transaction env) i row ctx")
    case (Pair r ctx1)
    with load_row_undone [OF assms, of i row ctx]
    have d: "Rollback env (Db ctx1) = Rollback env (Db ctx)" by simp
    with Pair Cons.IH [of "Suc i" ctx1] show ?thesis by (cases r) simp_all
  qed
qed

lemma LoadWithContext_undone:
  assumes "undoes env"
  shows "Rollback env (Db (snd (LoadWithContext env ctx data))) = Rollback env (Db ctx)"
  by (simp add: LoadWithContext_def load_rows_undone [OF assms] split: sum.splits)

lemma load_files_undone:
  assumes "undoes env"
  shows "Rollback env (Db (snd (load_files env filenames ctx))) = Rollback env (Db ctx)"
proof (induction filenames arbitrary: ctx)
  case Nil
  then show ?case by simp
next
  case (Cons f fs)
  show ?case
  proof (cases "ReadFile env f")
    case (Inl err)
    then show ?thesis by simp
  next
    case (Inr data)
    show ?thesis
    proof (cases "LoadWithContext env ctx data")
      case (Pair r ctx1)
      with LoadWithContext_undone [OF assms, of ctx data]
      have d: "Rollback env (Db ctx1) = Rollback env (Db ctx)" by simp
      with Pair Inr Cons.IH [of ctx1] show ?thesis by (cases r) simp_all
    qed
  qed
qed

lemma undoes_engine: "undoes (engine False files documents)"
  by (simp add: undoes_def engine_def statements_def scripted_def case_prod_unfold
      split: list.splits)


text \<open>
  C7, as the code has it. When a row fails, the loop stops there: the result of the batch
  is the failure of that row, and neither the result nor the state left behind depend on
  the rows after it. A failure of a row is a panic or an error that names the row, counted
  from 1. \<open>Load\<close>, \<open>LoadFile\<close> and \<open>LoadFiles\<close> return that failure without a commit, and the
  deferred rollback ends the transaction: the database is left as the rollback leaves the
  state the transaction reached. When the database undoes the statements of a
  transaction, that is the state before the call, the rows before the failing one and the
  files before the failing one included. What the database keeps of a statement outside
  the transaction, the rollback leaves: the loader sends \<open>setval\<close> for postgres, and
  PostgreSQL does not undo it.
\<close>

theorem failure_rolls_back:
  fixes env :: "'db Env" and db db1 :: 'db and ctx ctx1 ctx2 c :: "'db Context"
    and tx :: "'db Tx" and pre rest :: "Row list" and bad :: Row and e :: failure and j :: nat
    and data driver filename f :: string and filenames files0 files1 :: "string list"
  shows
    "(load_rows tx j pre ctx = (None, ctx1) \<and>
      load_row tx (j + length pre) bad ctx1 = (Some e, ctx2) \<longrightarrow>
        load_rows tx j (pre @ bad # rest) ctx = (Some e, ctx2) \<and>
        (e = Panic \<or> (\<exists>err. e = Error (NewProcessingError (j + length pre + 1) err)))) \<and>
     (Begin env db = (None, db1) \<and> Unmarshal env data = Inr (pre @ bad # rest) \<and>
      load_rows (transaction env) 0 pre (new_context env db1 driver) = (None, ctx1) \<and>
      load_row (transaction env) (length pre) bad ctx1 = (Some e, ctx2) \<longrightarrow>
        Load env data db driver = (Some e, Rollback env (Db ctx2)) \<and>
        (ReadFile env filename = Inr data \<longrightarrow>
           LoadFile env filename db driver = (Some e, Rollback env (Db ctx2))) \<and>
        (undoes env \<and> Rollback env db1 = db \<longrightarrow> Rollback env (Db ctx2) = db)) \<and>
     (Begin env db = (None, db1) \<and>
      load_files env files0 (new_context env db1 driver) = (None, c) \<and>
      ReadFile env f = Inr data \<and> Unmarshal env data = Inr (pre @ bad # rest) \<and>
      load_rows (transaction env) 0 pre c = (None, ctx1) \<and>
      load_row (transaction env) (length pre) bad ctx1 = (Some e, ctx2) \<longrightarrow>
        LoadFiles env (files0 @ f # files1) db driver = (Some e, Rollback env (Db ctx2)) \<and>
        (undoes env \<and> Rollback env db1 = db \<longrightarrow> Rollback env (Db ctx2) = db)) \<and>
     (undoes env \<and> Begin env db = (None, db1) \<and> Rollback env db1 = db \<longrightarrow>
        (fst (LoadWithContext env (new_context env db1 driver) data) \<noteq> None \<longrightarrow>
           Load env data db driver =
             (fst (LoadWithContext env (new_context env db1 driver) data), db) \<and>
           (ReadFile env filename = Inr data \<longrightarrow>
              LoadFile env filename db driver =
                (fst (LoadWithContext env (new_context env db1 driver) data), db))) \<and>
        (fst (load_files env filenames (new_context env db1 driver)) \<noteq> None \<longrightarrow>
           LoadFiles env filenames db driver =
             (fst (load_files env filenames (new_context env db1 driver)), db)))"
proof -
  have rows: "load_rows tx j pre ctx = (None, ctx1) \<and>
      load_row tx (j + length pre) bad ctx1 = (Some e, ctx2) \<longrightarrow>
        load_rows tx j (pre @ bad # rest) ctx = (Some e, ctx2) \<and>
        (e = Panic \<or> (\<exists>err. e = Error (NewProcessingError (j + length pre + 1) err)))"
    using load_row_failure [of "j + length pre" tx bad ctx1]
    by (auto simp: load_rows_stop row_failure_def)
  have one: "Load env data db driver = (Some e, Rollback env (Db ctx2)) \<and>
        (ReadFile env filename = Inr data \<longrightarrow>
           LoadFile env filename db driver = (Some e, Rollback env (Db ctx2))) \<and>
        (undoes env \<and> Rollback env db1 = db \<longrightarrow> Rollback env (Db ctx2) = db)"
    if b: "Begin env db = (None, db1)" and u: "Unmarshal env data = Inr (pre @ bad # rest)"
      and p: "load_rows (transaction env) 0 pre (new_context env db1 driver) = (None, ctx1)"
      and l: "load_row (transaction env) (length pre) bad ctx1 = (Some e, ctx2)"
  proof -
    from load_rows_stop [of "transaction env" 0 pre "new_context env db1 driver" ctx1 bad e ctx2
        rest] p l
    have s: "load_rows (transaction env) 0 (pre @ bad # rest) (new_context env db1 driver) =
        (Some e, ctx2)"
      by simp
    have "Rollback env (Db ctx2) = db" if "undoes env" "Rollback env db1 = db"
      using load_rows_undone [OF that(1), of 0 "pre @ bad # rest" "new_context env db1 driver"]
        that(2) s
      by (simp add: new_context_def)
    with b u s show ?thesis
      by (simp add: Load_def LoadFile_def LoadWithContext_def)
  qed
  have many: "LoadFiles env (files0 @ f # files1) db driver = (Some e, Rollback env (Db ctx2)) \<and>
        (undoes env \<and> Rollback env db1 = db \<longrightarrow> Rollback env (Db ctx2) = db)"
    if b: "Begin env db = (None, db1)"
      and fs: "load_files env files0 (new_context env db1 driver) = (None, c)"
      and r: "ReadFile env f = Inr data" and u: "Unmarshal env data = Inr (pre @ bad # rest)"
      and p: "load_rows (transaction env) 0 pre c = (None, ctx1)"
      and l: "load_row (transaction env) (length pre) bad ctx1 = (Some e, ctx2)"
  proof -
    from load_rows_stop [of "transaction env" 0 pre c ctx1 bad e ctx2 rest] p l
    have s: "load_rows (transaction env) 0 (pre @ bad # rest) c = (Some e, ctx2)"
      by simp
    with fs r u have a: "load_files env (files0 @ f # files1) (new_context env db1 driver) =
        (Some e, ctx2)"
      by (simp add: load_files_append LoadWithContext_def)
    have "Rollback env (Db ctx2) = db" if "undoes env" "Rollback env db1 = db"
      using load_files_undone [OF that(1), of "files0 @ f # files1" "new_context env db1 driver"]
        that(2) a
      by (simp add: new_context_def)
    with b a show ?thesis
      by (simp add: LoadFiles_def)
  qed
  have any: "(fst (LoadWithContext env (new_context env db1 driver) data) \<noteq> None \<longrightarrow>
           Load env data db driver =
             (fst (LoadWithContext env (new_context env db1 driver) data), db) \<and>
           (ReadFile env filename = Inr data \<longrightarrow>
              LoadFile env filename db driver =
                (fst (LoadWithContext env (new_context env db1 driver) data), db))) \<and>
        (fst (load_files env filenames (new_context env db1 driver)) \<noteq> None \<longrightarrow>
           LoadFiles env filenames db driver =
             (fst (load_files env filenames (new_context env db1 driver)), db))"
    if un: "undoes env" and b: "Begin env db = (None, db1)" and r: "Rollback env db1 = db"
  proof -
    from LoadWithContext_undone [OF un, of "new_context env db1 driver" data] r
    have w: "Rollback env (Db (snd (LoadWithContext env (new_context env db1 driver) data))) = db"
      by (simp add: new_context_def)
    from load_files_undone [OF un, of filenames "new_context env db1 driver"] r
    have fs: "Rollback env (Db (snd (load_files env filenames (new_context env db1 driver)))) = db"
      by (simp add: new_context_def)
    from b w fs show ?thesis
      by (auto simp: Load_def LoadFile_def LoadFiles_def split: prod.splits option.splits)
  qed
  from rows one many any show ?thesis by blast
qed

theorem failure_rolls_back_counterexample:
  "Load serial_env ''tags'' (idle serial_db) ''postgres'' =
     (Some (Error ''Error loading row 2: pq: relation posts does not exist''),
      (idle serial_db)\<lparr>sequences := [''tags_id_seq'']\<rparr>) \<and>
   sequences (idle serial_db) = [] \<and>
   sequences (snd (Load serial_env ''tags'' (idle serial_db) ''postgres'')) = [''tags_id_seq''] \<and>
   snd (Load serial_env ''tags'' (idle serial_db) ''postgres'') \<noteq> idle serial_db \<and>
   Unmarshal serial_env ''tags'' = Inr [tag_row, post_row] \<and>
   sent (snd (load_rows (transaction serial_env) 0 [tag_row, post_row]
     (new_context serial_env (idle serial_db) ''postgres''))) =
     [QueryRow (''SELECT COUNT(*) FROM '' @ quoted ''tags'' @ '' WHERE id = $1'') [Lit (Num 9)],
      Exec (''INSERT INTO '' @ quoted ''tags'' @ ''('' @ quoted ''id'' @ '', '' @
            quoted ''label'' @ '') VALUES($1, $2)'') [Lit (Num 9), Lit (Str ''new'')],
      QueryRow sequence_query [Lit (Str ''tags''), Lit (Str ''id'')],
      Exec (setval_query ''id'' ''tags'') [Lit (Str ''tags_id_seq'')],
      QueryRow (''SELECT COUNT(*) FROM '' @ quoted ''posts'' @ '' WHERE id = $1'') [Lit (Num 5)],
      Exec (''INSERT INTO '' @ quoted ''posts'' @ ''('' @ quoted ''id'' @ '', '' @
            quoted ''body'' @ '', '' @ quoted ''title'' @ '') VALUES($1, $2, $3)'')
        [Lit (Num 5), Lit (Str ''text''), Lit (Str ''Hello'')]]"
  by (intro conjI) code_simp+


theorem failure_rolls_back_witness:
  "undoes batch_env \<and>
   Begin batch_env (idle one_insert) = (None, idle one_insert) \<and>
   Rollback batch_env (idle one_insert) = idle one_insert \<and>
   Unmarshal batch_env ''all'' = Inr ([user_row] @ pet_row # [visit_row]) \<and>
   fst (load_rows (transaction batch_env) 0 [user_row]
     (new_context batch_env (idle one_insert) ''mysql'')) = None \<and>
   sent (snd (load_rows (transaction batch_env) 0 [user_row]
     (new_context batch_env (idle one_insert) ''mysql''))) =
     [Exec (''INSERT INTO '' @ quoted ''users'' @ ''('' @ quoted ''name'' @ '') VALUES(?)'')
        [Lit (Str ''Alice'')]] \<and>
   results (working (Db (snd (load_rows (transaction batch_env) 0 [user_row]
     (new_context batch_env (idle one_insert) ''mysql''))))) = [] \<and>
   results (working (idle one_insert)) = [Inr (Inr 12)] \<and>
   fst (load_row (transaction batch_env) (length [user_row]) pet_row
     (snd (load_rows (transaction batch_env) 0 [user_row]
       (new_context batch_env (idle one_insert) ''mysql'')))) =
     Some (Error ''Error loading row 2: sql: no rows in result set'') \<and>
   load_rows (transaction batch_env) 0 ([user_row] @ pet_row # [visit_row])
       (new_context batch_env (idle one_insert) ''mysql'') =
     (Some (Error ''Error loading row 2: sql: no rows in result set''),
      snd (load_row (transaction batch_env) (length [user_row]) pet_row
        (snd (load_rows (transaction batch_env) 0 [user_row]
          (new_context batch_env (idle one_insert) ''mysql''))))) \<and>
   Load batch_env ''all'' (idle one_insert) ''mysql'' =
     (Some (Error ''Error loading row 2: sql: no rows in result set''), idle one_insert) \<and>
   fst (load_files batch_env [''users.yml'', ''pets.yml'']
     (new_context batch_env (idle one_insert) ''mysql'')) =
     Some (Error ''Error loading row 1: sql: no rows in result set'') \<and>
   LoadFiles batch_env [''users.yml'', ''pets.yml''] (idle one_insert) ''mysql'' =
     (Some (Error ''Error loading row 1: sql: no rows in result set''), idle one_insert)"
proof -
  let ?tx = "transaction batch_env"
  let ?db = "idle one_insert"
  let ?ctx = "new_context batch_env ?db ''mysql''"
  let ?e = "Error ''Error loading row 2: sql: no rows in result set''"
  let ?c1 = "snd (load_rows ?tx 0 [user_row] ?ctx)"
  let ?c2 = "snd (load_row ?tx (length [user_row]) pet_row ?c1)"
  have un: "undoes batch_env"
    by (simp add: batch_env_def undoes_engine)
  have bg: "Begin batch_env ?db = (None, ?db)" and rb: "Rollback batch_env ?db = ?db"
    by (simp_all add: batch_env_def engine_def idle_def)
  have u: "Unmarshal batch_env ''all'' = Inr ([user_row] @ pet_row # [visit_row])"
    and p: "fst (load_rows ?tx 0 [user_row] ?ctx) = None"
    and s: "sent ?c1 =
     [Exec (''INSERT INTO '' @ quoted ''users'' @ ''('' @ quoted ''name'' @ '') VALUES(?)'')
        [Lit (Str ''Alice'')]]"
    and w: "results (working (Db ?c1)) = []" "results (working ?db) = [Inr (Inr 12)]"
    and b: "fst (load_row ?tx (length [user_row]) pet_row ?c1) = Some ?e"
    and fs: "fst (load_files batch_env [''users.yml'', ''pets.yml''] ?ctx) =
     Some (Error ''Error loading row 1: sql: no rows in result set'')"
    by code_simp+
  from p have p': "load_rows ?tx 0 [user_row] ?ctx = (None, ?c1)"
    by (simp add: prod_eq_iff)
  from b have b': "load_row ?tx (length [user_row]) pet_row ?c1 = (Some ?e, ?c2)"
    by (simp add: prod_eq_iff)
  from b' have b0: "load_row ?tx (0 + length [user_row]) pet_row ?c1 = (Some ?e, ?c2)"
    by simp
  from fs have n: "fst (load_files batch_env [''users.yml'', ''pets.yml''] ?ctx) \<noteq> None"
    by simp
  from failure_rolls_back [where env = batch_env and data = "''all''" and db = ?db
      and ?db1.0 = ?db and driver = "''mysql''" and filenames = "[''users.yml'', ''pets.yml'']"
      and tx = ?tx and j = 0 and pre = "[user_row]" and ctx = ?ctx and bad = pet_row
      and rest = "[visit_row]" and e = ?e and ?ctx1.0 = ?c1 and ?ctx2.0 = ?c2]
    un bg rb u p s w b fs p' b' b0 n
  show ?thesis by (simp only: prod.collapse) blast
qed


text \<open>What a row does to the registry.\<close>

lemma fix_sequence_map:
  "primaryKeysMap (snd (fix_sequence tx i row columns ctx)) = primaryKeysMap ctx"
  by (simp add: fix_sequence_def fixPostgresPKSequence_eq case_prod_unfold
      split: list.splits option.splits sum.splits)

lemma insert_or_update_map:
  "primaryKeysMap (snd (insert_or_update tx i row ctx)) = primaryKeysMap ctx"
  by (simp add: insert_or_update_def QueryRowScanInt_eq DbExec_eq fix_sequence_map
      split: option.splits sum.splits)

lemma insert_generated_map:
  "primaryKeysMap (snd (insert_generated tx i row name ctx)) = primaryKeysMap ctx \<or>
   (\<exists>entries key. primaryKeysMap ctx = Some entries \<and>
      primaryKeysMap (snd (insert_generated tx i row name ctx)) =
        Some (entries(name \<mapsto> Int64 key)))"
  by (auto simp: insert_generated_def QueryRowScanInt_eq DbExec_eq Let_def Set_key_def
      split: list.splits sum.splits option.splits)

lemma load_row_map:
  "primaryKeysMap (snd (load_row tx i row0 ctx)) = primaryKeysMap ctx \<or>
   (\<exists>name entries key.
      generator (GetPKValues (primaryKeys ctx) (compiled ctx row0)) = Some name \<and>
      primaryKeysMap ctx = Some entries \<and>
      primaryKeysMap (snd (load_row tx i row0 ctx)) = Some (entries(name \<mapsto> Int64 key)))"
proof (cases "generator (GetPKValues (primaryKeys ctx) (compiled ctx row0))")
  case None
  then show ?thesis
    by (simp add: load_row_skipped [OF None [unfolded compiled_def]] insert_or_update_map)
next
  case (Some name)
  with insert_generated_map [of tx i "compiled ctx row0" name
      "ctx\<lparr>clock := snd (Init (SetUpdatedAtOnInsert ctx) row0 (clock ctx))\<rparr>"]
  show ?thesis by (auto simp: load_row_generated)
qed

lemma generates_generator:
  "generates name row0 \<Longrightarrow>
     generator (GetPKValues (primaryKeys ctx) (compiled ctx row0)) = Some name"
  by (simp add: generates_def GetPKValues_def compiled_frame)

lemma generator_generates:
  assumes k: "keys_only (primaryKeys ctx)"
    and g: "generator (GetPKValues (primaryKeys ctx) (compiled ctx row0)) = Some name"
  shows "generates name row0"
proof -
  let ?vs = "map (\<lambda>pkKey. pkValue (index (PK row0) pkKey)) (sorted_keys (PK row0))"
  from g have r: "map (resolved (primaryKeys ctx)) ?vs = [PrimaryKeyGenerator name]"
    by (simp add: generator_Some_iff GetPKValues_def resolve_map compiled_frame)
  then obtain v where v: "?vs = [v]" "resolved (primaryKeys ctx) v = PrimaryKeyGenerator name"
    by (cases ?vs) auto
  from v(2) k have "v = PrimaryKeyGenerator name"
    by (cases v) (auto simp: resolved_def Get_def keys_only_def split: option.splits)
  with v(1) show ?thesis by (simp add: generates_def)
qed

lemma load_row_keeps:
  assumes k: "keys_only (primaryKeys ctx)" and n: "\<not> generates name row0"
  shows "primaryKeys (snd (load_row tx i row0 ctx)) name = primaryKeys ctx name"
  using load_row_map [of tx i row0 ctx] generator_generates [OF k, of row0] n
  by (auto simp: primaryKeys_def)

lemma load_row_keys_only:
  assumes k: "keys_only (primaryKeys ctx)"
  shows "keys_only (primaryKeys (snd (load_row tx i row0 ctx)))"
  using load_row_map [of tx i row0 ctx] k
  by (auto simp: primaryKeys_def keys_only_def split: if_splits)

lemma load_rows_keeps:
  "keys_only (primaryKeys ctx) \<Longrightarrow> \<forall>r \<in> set rows. \<not> generates name r \<Longrightarrow>
     primaryKeys (snd (load_rows tx i rows ctx)) name = primaryKeys ctx name \<and>
     keys_only (primaryKeys (snd (load_rows tx i rows ctx)))"
proof (induction rows arbitrary: i ctx)
  case Nil
  then show ?case by simp
next
  case (Cons row rows)
  show ?case
  proof (cases "load_row tx i row ctx")
    case (Pair r ctx1)
    with load_row_keeps [of ctx name row tx i] load_row_keys_only [of ctx tx i row] Cons.prems
    have d: "primaryKeys ctx1 name = primaryKeys ctx name" "keys_only (primaryKeys ctx1)"
      by simp_all
    with Pair Cons.IH [of ctx1 "Suc i"] Cons.prems show ?thesis by (cases r) simp_all
  qed
qed

lemma load_rows_keys_only:
  "keys_only (primaryKeys ctx) \<Longrightarrow> keys_only (primaryKeys (snd (load_rows tx i rows ctx)))"
proof (induction rows arbitrary: i ctx)
  case Nil
  then show ?case by simp
next
  case (Cons row rows)
  show ?case
  proof (cases "load_row tx i row ctx")
    case (Pair r ctx1)
    with load_row_keys_only [of ctx tx i row] Cons.prems
    have d: "keys_only (primaryKeys ctx1)"
      by simp
    with Pair Cons.IH [of ctx1 "Suc i"] show ?thesis by (cases r) simp_all
  qed
qed

lemma LoadWithContext_keeps:
  "keys_only (primaryKeys ctx) \<Longrightarrow>
   (\<And>rows. Unmarshal env data = Inr rows \<Longrightarrow> \<forall>r \<in> set rows. \<not> generates name r) \<Longrightarrow>
     primaryKeys (snd (LoadWithContext env ctx data)) name = primaryKeys ctx name \<and>
     keys_only (primaryKeys (snd (LoadWithContext env ctx data)))"
  by (cases "Unmarshal env data") (simp_all add: LoadWithContext_def load_rows_keeps)

lemma LoadWithContext_keys_only:
  "keys_only (primaryKeys ctx) \<Longrightarrow> keys_only (primaryKeys (snd (LoadWithContext env ctx data)))"
  by (cases "Unmarshal env data") (simp_all add: LoadWithContext_def load_rows_keys_only)

lemma load_files_keeps:
  "keys_only (primaryKeys ctx) \<Longrightarrow>
   \<forall>f \<in> set filenames. \<forall>r \<in> set (rows_of env f). \<not> generates name r \<Longrightarrow>
     primaryKeys (snd (load_files env filenames ctx)) name = primaryKeys ctx name \<and>
     keys_only (primaryKeys (snd (load_files env filenames ctx)))"
proof (induction filenames arbitrary: ctx)
  case Nil
  then show ?case by simp
next
  case (Cons f fs)
  show ?case
  proof (cases "ReadFile env f")
    case (Inl err)
    with Cons.prems show ?thesis by simp
  next
    case (Inr data)
    with Cons.prems(2) have
      "\<And>rows. Unmarshal env data = Inr rows \<Longrightarrow> \<forall>r \<in> set rows. \<not> generates name r"
      by (simp add: rows_of_def)
    from LoadWithContext_keeps [OF Cons.prems(1) this]
    have d: "primaryKeys (snd (LoadWithContext env ctx data)) name = primaryKeys ctx name"
      "keys_only (primaryKeys (snd (LoadWithContext env ctx data)))"
      by simp_all
    show ?thesis
    proof (cases "LoadWithContext env ctx data")
      case (Pair r ctx1)
      with d have d1: "primaryKeys ctx1 name = primaryKeys ctx name" "keys_only (primaryKeys ctx1)"
        by simp_all
      with Pair Inr Cons.IH [of ctx1] Cons.prems(2) show ?thesis by (cases r) simp_all
    qed
  qed
qed

lemma load_files_keys_only:
  "keys_only (primaryKeys ctx) \<Longrightarrow> keys_only (primaryKeys (snd (load_files env filenames ctx)))"
proof (induction filenames arbitrary: ctx)
  case Nil
  then show ?case by simp
next
  case (Cons f fs)
  show ?case
  proof (cases "ReadFile env f")
    case (Inl err)
    with Cons.prems show ?thesis by simp
  next
    case (Inr data)
    show ?thesis
    proof (cases "LoadWithContext env ctx data")
      case (Pair r ctx1)
      with LoadWithContext_keys_only [OF Cons.prems, of env data]
      have d1: "keys_only (primaryKeys ctx1)"
        by simp
      with Pair Inr Cons.IH [of ctx1] show ?thesis by (cases r) simp_all
    qed
  qed
qed

lemma load_row_generates:
  assumes g: "generates name row0" and ok: "fst (load_row tx i row0 ctx) = None"
  shows "\<exists>key pkColumn.
     pkColumns (compiled ctx row0) = [pkColumn] \<and>
     generated_key tx ctx (compiled ctx row0) pkColumn = Inr key \<and>
     primaryKeys (snd (load_row tx i row0 ctx)) = (primaryKeys ctx)(name \<mapsto> Int64 key)"
proof -
  let ?row = "compiled ctx row0"
  let ?ctx = "ctx\<lparr>clock := snd (Init (SetUpdatedAtOnInsert ctx) row0 (clock ctx))\<rparr>"
  note gen = generates_generator [OF g, of ctx]
  from g have "length (pkValues ?row) = 1"
    by (simp add: generates_def compiled_frame)
  with compiled_lengths(3) [of ctx row0] obtain pkColumn where c: "pkColumns ?row = [pkColumn]"
    by (cases "pkColumns ?row") auto
  note ig = insert_generated_Init [OF c compiled_lengths(1), where tx = tx and i = i
      and name = name and ctx = ?ctx, folded load_row_generated [OF gen], simplified]
  show ?thesis
  proof (cases "generated_key tx ctx ?row pkColumn")
    case (Inl err)
    with ig(2) ok show ?thesis by simp
  next
    case (Inr key)
    show ?thesis
    proof (cases "primaryKeysMap ctx")
      case None
      with ig(4) [OF Inr] ok show ?thesis by simp
    next
      case (Some entries)
      with ig(3) [OF Inr Some] c Inr show ?thesis by (auto simp: primaryKeys_def)
    qed
  qed
qed


lemma reference_bound:
  assumes "reg name = Some v"
  shows "resolved reg (PrimaryKeyReference name) = v"
    and "j < length (insertValues row) \<Longrightarrow> insertValues row ! j = PrimaryKeyReference name \<Longrightarrow>
      GetInsertValues reg row ! j = v \<and>
      GetPKAndInsertValues reg row ! (length (pkValues row) + j) = v"
    and "j < length (updateValues row) \<Longrightarrow> updateValues row ! j = PrimaryKeyReference name \<Longrightarrow>
      GetUpdateValues reg row ! j = v"
    and "j < length (pkValues row) \<Longrightarrow> pkValues row ! j = PrimaryKeyReference name \<Longrightarrow>
      GetPKValues reg row ! j = v \<and> GetPKAndInsertValues reg row ! j = v"
  using assms
  by (auto simp: resolved_def Get_def GetInsertValues_def GetPKAndInsertValues_def
      GetUpdateValues_def GetPKValues_def resolve_map nth_append)

lemma generated_then_kept:
  fixes env :: "'db Env" and ctx ctxa ctxb ctxc :: "'db Context"
  assumes k: "keys_only (primaryKeys ctx)" and g: "generates name g"
    and tail: "load_rows (transaction env) i (g # rest) ctx = (None, ctxa)"
    and rest: "\<forall>r \<in> set rest. \<not> generates name r"
    and files: "load_files env files ctxa = (None, ctxb)"
    and others: "\<forall>f \<in> set files. \<forall>r \<in> set (rows_of env f). \<not> generates name r"
    and before: "load_rows (transaction env) 0 pre ctxb = (None, ctxc)"
    and pre: "\<forall>r \<in> set pre. \<not> generates name r"
  shows "\<exists>key pkColumn.
     pkColumns (compiled ctx g) = [pkColumn] \<and>
     generated_key (transaction env) ctx (compiled ctx g) pkColumn = Inr key \<and>
     primaryKeys ctxc name = Some (Int64 key)"
proof -
  let ?tx = "transaction env"
  obtain r ctxg where l: "load_row ?tx i g ctx = (r, ctxg)" by (cases "load_row ?tx i g ctx")
  with tail have r: "r = None" and after: "load_rows ?tx (Suc i) rest ctxg = (None, ctxa)"
    by (cases r; simp)+
  from l r have "fst (load_row ?tx i g ctx) = None" by simp
  from load_row_generates [OF g this] l obtain key pkColumn where
    c: "pkColumns (compiled ctx g) = [pkColumn]"
      "generated_key ?tx ctx (compiled ctx g) pkColumn = Inr key"
    and s: "primaryKeys ctxg = (primaryKeys ctx)(name \<mapsto> Int64 key)"
    by auto
  from load_row_keys_only [OF k, of ?tx i g] l have kg: "keys_only (primaryKeys ctxg)" by simp
  from load_rows_keeps [OF kg rest, of ?tx "Suc i"] after s
  have a: "primaryKeys ctxa name = Some (Int64 key)" "keys_only (primaryKeys ctxa)"
    by simp_all
  from load_files_keeps [OF a(2) others] files a(1)
  have b: "primaryKeys ctxb name = Some (Int64 key)" "keys_only (primaryKeys ctxb)"
    by simp_all
  from load_rows_keeps [OF b(2) pre, of ?tx 0] before b(1)
  have "primaryKeys ctxc name = Some (Int64 key)"
    by simp
  with c show ?thesis by blast
qed

text \<open>
  C6. \<open>LoadFiles\<close> begins one transaction and makes one context, with a registry made
  empty, for the whole batch, and the loop hands the context each file leaves to the next
  file. A row whose primary key is the single marker \<open>PK_GENERATE(name)\<close> stores, when it
  succeeds, the key the database gave for it; the rows and the files after it that do not
  generate under the same name leave the entry as it is. So a reference to the name in a
  later file of the call is bound to the key the earlier file was given. The files share
  the transaction: when a later file fails, the rollback undoes the statements of the
  earlier files with it, on a database that undoes the statements of a transaction; when
  no file fails, one commit follows the last file.
\<close>

theorem files_share_context:
  fixes env :: "'db Env" and db db1 :: 'db and ctx ctx1 ctxa ctxb ctxc :: "'db Context"
    and tx :: "'db Tx" and files0 files1 files filenames :: "string list"
    and f data driver name :: string and g row0 row :: Row and rows rest pre :: "Row list"
    and i :: nat
  shows
    "load_files env (files0 @ files1) ctx =
       (case load_files env files0 ctx of
          (Some err, ctx1) \<Rightarrow> (Some err, ctx1)
        | (None, ctx1) \<Rightarrow> load_files env files1 ctx1) \<and>
     (load_files env files0 ctx = (None, ctx1) \<and> ReadFile env f = Inr data \<and>
      Unmarshal env data = Inr (row0 # rows) \<longrightarrow>
        load_files env (files0 @ f # files1) ctx =
          (case load_row (transaction env) 0 row0 ctx1 of
             (Some err, ctx2) \<Rightarrow> (Some err, ctx2)
           | (None, ctx2) \<Rightarrow>
              (case load_rows (transaction env) 1 rows ctx2 of
                 (Some err, ctx3) \<Rightarrow> (Some err, ctx3)
               | (None, ctx3) \<Rightarrow> load_files env files1 ctx3))) \<and>
     (Begin env db = (None, db1) \<longrightarrow>
        LoadFiles env filenames db driver =
          (case load_files env filenames (new_context env db1 driver) of
             (Some err, ctx1) \<Rightarrow> (Some err, Rollback env (Db ctx1))
           | (None, ctx1) \<Rightarrow>
              (case Commit env (Db ctx1) of
                 (Some err, db2) \<Rightarrow> (Some (Error err), db2)
               | (None, db2) \<Rightarrow> (None, db2)))) \<and>
     primaryKeysMap (new_context env db1 driver) = Some Map.empty \<and>
     keys_only (primaryKeys (new_context env db1 driver)) \<and>
     (keys_only (primaryKeys ctx) \<longrightarrow>
        keys_only (primaryKeys (snd (load_rows tx i rows ctx))) \<and>
        keys_only (primaryKeys (snd (load_files env filenames ctx)))) \<and>
     (generates name g \<and> fst (load_row tx i g ctx) = None \<longrightarrow>
        (\<exists>key pkColumn.
           pkColumns (compiled ctx g) = [pkColumn] \<and>
           generated_key tx ctx (compiled ctx g) pkColumn = Inr key \<and>
           primaryKeys (snd (load_row tx i g ctx)) = (primaryKeys ctx)(name \<mapsto> Int64 key))) \<and>
     (keys_only (primaryKeys ctx) \<and> (\<forall>r \<in> set rows. \<not> generates name r) \<longrightarrow>
        primaryKeys (snd (load_rows tx i rows ctx)) name = primaryKeys ctx name) \<and>
     (keys_only (primaryKeys ctx) \<and>
      (\<forall>f \<in> set filenames. \<forall>r \<in> set (rows_of env f). \<not> generates name r) \<longrightarrow>
        primaryKeys (snd (load_files env filenames ctx)) name = primaryKeys ctx name) \<and>
     (keys_only (primaryKeys ctx) \<and> generates name g \<and>
      load_rows (transaction env) i (g # rest) ctx = (None, ctxa) \<and>
      (\<forall>r \<in> set rest. \<not> generates name r) \<and>
      load_files env files ctxa = (None, ctxb) \<and>
      (\<forall>f \<in> set files. \<forall>r \<in> set (rows_of env f). \<not> generates name r) \<and>
      load_rows (transaction env) 0 pre ctxb = (None, ctxc) \<and>
      (\<forall>r \<in> set pre. \<not> generates name r) \<longrightarrow>
        (\<exists>key pkColumn.
           pkColumns (compiled ctx g) = [pkColumn] \<and>
           generated_key (transaction env) ctx (compiled ctx g) pkColumn = Inr key \<and>
           primaryKeys ctxc name = Some (Int64 key) \<and>
           resolved (primaryKeys ctxc) (PrimaryKeyReference name) = Int64 key \<and>
           (\<forall>j < length (insertValues row).
              insertValues row ! j = PrimaryKeyReference name \<longrightarrow>
                GetInsertValues (primaryKeys ctxc) row ! j = Int64 key \<and>
                GetPKAndInsertValues (primaryKeys ctxc) row ! (length (pkValues row) + j) =
                  Int64 key) \<and>
           (\<forall>j < length (updateValues row).
              updateValues row ! j = PrimaryKeyReference name \<longrightarrow>
                GetUpdateValues (primaryKeys ctxc) row ! j = Int64 key) \<and>
           (\<forall>j < length (pkValues row).
              pkValues row ! j = PrimaryKeyReference name \<longrightarrow>
                GetPKValues (primaryKeys ctxc) row ! j = Int64 key \<and>
                GetPKAndInsertValues (primaryKeys ctxc) row ! j = Int64 key))) \<and>
     (undoes env \<and> Begin env db = (None, db1) \<and> Rollback env db1 = db \<and>
      load_files env files0 (new_context env db1 driver) = (None, ctx1) \<and>
      fst (load_files env files1 ctx1) \<noteq> None \<longrightarrow>
        LoadFiles env (files0 @ files1) db driver = (fst (load_files env files1 ctx1), db))"
proof -
  have first: "load_files env files0 ctx = (None, ctx1) \<and> ReadFile env f = Inr data \<and>
      Unmarshal env data = Inr (row0 # rows) \<longrightarrow>
        load_files env (files0 @ f # files1) ctx =
          (case load_row (transaction env) 0 row0 ctx1 of
             (Some err, ctx2) \<Rightarrow> (Some err, ctx2)
           | (None, ctx2) \<Rightarrow>
              (case load_rows (transaction env) 1 rows ctx2 of
                 (Some err, ctx3) \<Rightarrow> (Some err, ctx3)
               | (None, ctx3) \<Rightarrow> load_files env files1 ctx3))"
    by (auto simp: load_files_append LoadWithContext_def split: prod.splits option.splits)
  have entry: "Begin env db = (None, db1) \<longrightarrow>
        LoadFiles env filenames db driver =
          (case load_files env filenames (new_context env db1 driver) of
             (Some err, ctx1) \<Rightarrow> (Some err, Rollback env (Db ctx1))
           | (None, ctx1) \<Rightarrow>
              (case Commit env (Db ctx1) of
                 (Some err, db2) \<Rightarrow> (Some (Error err), db2)
               | (None, db2) \<Rightarrow> (None, db2)))"
    by (simp add: LoadFiles_def)
  have made: "primaryKeysMap (new_context env db1 driver) = Some Map.empty"
    "keys_only (primaryKeys (new_context env db1 driver))"
    by (simp_all add: new_context_def keys_only_def primaryKeys_def)
  have inv: "keys_only (primaryKeys ctx) \<longrightarrow>
        keys_only (primaryKeys (snd (load_rows tx i rows ctx))) \<and>
        keys_only (primaryKeys (snd (load_files env filenames ctx)))"
    by (simp add: load_rows_keys_only load_files_keys_only)
  have gen: "generates name g \<and> fst (load_row tx i g ctx) = None \<longrightarrow>
        (\<exists>key pkColumn.
           pkColumns (compiled ctx g) = [pkColumn] \<and>
           generated_key tx ctx (compiled ctx g) pkColumn = Inr key \<and>
           primaryKeys (snd (load_row tx i g ctx)) = (primaryKeys ctx)(name \<mapsto> Int64 key))"
    using load_row_generates [of name g tx i ctx] by blast
  have keep_rows: "keys_only (primaryKeys ctx) \<and> (\<forall>r \<in> set rows. \<not> generates name r) \<longrightarrow>
        primaryKeys (snd (load_rows tx i rows ctx)) name = primaryKeys ctx name"
    using load_rows_keeps [of ctx rows name tx i] by blast
  have keep_files: "keys_only (primaryKeys ctx) \<and>
      (\<forall>f \<in> set filenames. \<forall>r \<in> set (rows_of env f). \<not> generates name r) \<longrightarrow>
        primaryKeys (snd (load_files env filenames ctx)) name = primaryKeys ctx name"
    using load_files_keeps [of ctx filenames env name] by blast
  have later: "\<exists>key pkColumn.
           pkColumns (compiled ctx g) = [pkColumn] \<and>
           generated_key (transaction env) ctx (compiled ctx g) pkColumn = Inr key \<and>
           primaryKeys ctxc name = Some (Int64 key) \<and>
           resolved (primaryKeys ctxc) (PrimaryKeyReference name) = Int64 key \<and>
           (\<forall>j < length (insertValues row).
              insertValues row ! j = PrimaryKeyReference name \<longrightarrow>
                GetInsertValues (primaryKeys ctxc) row ! j = Int64 key \<and>
                GetPKAndInsertValues (primaryKeys ctxc) row ! (length (pkValues row) + j) =
                  Int64 key) \<and>
           (\<forall>j < length (updateValues row).
              updateValues row ! j = PrimaryKeyReference name \<longrightarrow>
                GetUpdateValues (primaryKeys ctxc) row ! j = Int64 key) \<and>
           (\<forall>j < length (pkValues row).
              pkValues row ! j = PrimaryKeyReference name \<longrightarrow>
                GetPKValues (primaryKeys ctxc) row ! j = Int64 key \<and>
                GetPKAndInsertValues (primaryKeys ctxc) row ! j = Int64 key)"
    if "keys_only (primaryKeys ctx)" "generates name g"
      "load_rows (transaction env) i (g # rest) ctx = (None, ctxa)"
      "\<forall>r \<in> set rest. \<not> generates name r"
      "load_files env files ctxa = (None, ctxb)"
      "\<forall>f \<in> set files. \<forall>r \<in> set (rows_of env f). \<not> generates name r"
      "load_rows (transaction env) 0 pre ctxb = (None, ctxc)"
      "\<forall>r \<in> set pre. \<not> generates name r"
  proof -
    from generated_then_kept [OF that] obtain key pkColumn where
      c: "pkColumns (compiled ctx g) = [pkColumn]"
        "generated_key (transaction env) ctx (compiled ctx g) pkColumn = Inr key"
      and s: "primaryKeys ctxc name = Some (Int64 key)"
      by blast
    note b = reference_bound(1) [where reg = "primaryKeys ctxc" and name = name
        and v = "Int64 key", OF s]
      reference_bound(2-4) [where reg = "primaryKeys ctxc" and name = name
        and v = "Int64 key" and row = row, OF s]
    from c s b show ?thesis by blast
  qed
  have shared: "LoadFiles env (files0 @ files1) db driver = (fst (load_files env files1 ctx1), db)"
    if un: "undoes env" and b: "Begin env db = (None, db1)" and r: "Rollback env db1 = db"
      and fs: "load_files env files0 (new_context env db1 driver) = (None, ctx1)"
      and n: "fst (load_files env files1 ctx1) \<noteq> None"
  proof -
    from fs have a: "load_files env (files0 @ files1) (new_context env db1 driver) =
        load_files env files1 ctx1"
      by (simp add: load_files_append)
    from load_files_undone [OF un, of "files0 @ files1" "new_context env db1 driver"] r a
    have "Rollback env (Db (snd (load_files env files1 ctx1))) = db"
      by (simp add: new_context_def)
    with b a n show ?thesis
      by (auto simp: LoadFiles_def split: prod.splits option.splits)
  qed
  from first entry made inv gen keep_rows keep_files later shared load_files_append [of env files0 files1 ctx]
  show ?thesis by blast
qed


theorem files_share_context_witness:
  "generates ''uid'' user_row \<and>
   load_rows (transaction family_env) 0 (user_row # [tag_row]) family_ctx = (None, after_users) \<and>
   load_files family_env [''posts.yml''] after_users = (None, after_posts) \<and>
   load_rows (transaction family_env) 0 [country_row] after_posts = (None, before_pet) \<and>
   (\<exists>key pkColumn.
      pkColumns (compiled family_ctx user_row) = [pkColumn] \<and>
      generated_key (transaction family_env) family_ctx (compiled family_ctx user_row) pkColumn =
        Inr key \<and>
      primaryKeys before_pet ''uid'' = Some (Int64 key) \<and>
      resolved (primaryKeys before_pet) (PrimaryKeyReference ''uid'') = Int64 key \<and>
      GetInsertValues (primaryKeys before_pet) (compiled before_pet pet_row) ! 0 = Int64 key) \<and>
   insertValues (compiled before_pet pet_row) ! 0 = PrimaryKeyReference ''uid'' \<and>
   generated_key (transaction family_env) family_ctx (compiled family_ctx user_row) ''id'' =
     Inr 12 \<and>
   primaryKeys before_pet ''uid'' = Some (Int64 12) \<and>
   sent (snd (load_files family_env [''users.yml'', ''posts.yml'', ''pets.yml''] family_ctx)) =
     sent (snd (load_row (transaction family_env) 1 pet_row before_pet)) \<and>
   fst (LoadFiles family_env [''users.yml'', ''posts.yml'', ''pets.yml''] (idle family_db)
     ''mysql'') = None \<and>
   sent (snd (load_files family_env [''users.yml'', ''posts.yml'', ''pets.yml''] family_ctx)) =
     [Exec (''INSERT INTO '' @ quoted ''users'' @ ''('' @ quoted ''name'' @ '') VALUES(?)'')
        [Lit (Str ''Alice'')],
      QueryRow (''SELECT COUNT(*) FROM '' @ quoted ''tags'' @ '' WHERE id = ?'') [Lit (Num 9)],
      Exec (''INSERT INTO '' @ quoted ''tags'' @ ''('' @ quoted ''id'' @ '', '' @
            quoted ''label'' @ '') VALUES(?, ?)'') [Lit (Num 9), Lit (Str ''new'')],
      QueryRow (''SELECT COUNT(*) FROM '' @ quoted ''posts'' @ '' WHERE id = ?'') [Lit (Num 5)],
      Exec (''INSERT INTO '' @ quoted ''posts'' @ ''('' @ quoted ''id'' @ '', '' @
            quoted ''body'' @ '', '' @ quoted ''title'' @ '') VALUES(?, ?, ?)'')
        [Lit (Num 5), Lit (Str ''text''), Lit (Str ''Hello'')],
      QueryRow (''SELECT COUNT(*) FROM '' @ quoted ''countries'' @ '' WHERE code = ?'')
        [Lit (Str ''nz'')],
      Exec (''INSERT INTO '' @ quoted ''countries'' @ ''('' @ quoted ''code'' @ '', '' @
            quoted ''name'' @ '') VALUES(?, ?)'') [Lit (Str ''nz''), Lit (Str ''Aotearoa'')],
      QueryRow (''SELECT COUNT(*) FROM '' @ quoted ''pets'' @ '' WHERE id = ?'') [Lit (Num 1)],
      Exec (''INSERT INTO '' @ quoted ''pets'' @ ''('' @ quoted ''id'' @ '', '' @
            quoted ''owner_id'' @ '') VALUES(?, ?)'')
        [Lit (Num 1), Int64 12]] \<and>
   undoes batch_env \<and>
   Begin batch_env (idle one_insert) = (None, idle one_insert) \<and>
   Rollback batch_env (idle one_insert) = idle one_insert \<and>
   fst (load_files batch_env [''users.yml'']
     (new_context batch_env (idle one_insert) ''mysql'')) = None \<and>
   fst (load_files batch_env [''pets.yml'']
     (snd (load_files batch_env [''users.yml'']
       (new_context batch_env (idle one_insert) ''mysql'')))) =
     Some (Error ''Error loading row 1: sql: no rows in result set'') \<and>
   LoadFiles batch_env ([''users.yml''] @ [''pets.yml'']) (idle one_insert) ''mysql'' =
     (Some (Error ''Error loading row 1: sql: no rows in result set''), idle one_insert)"
proof -
  let ?tx = "transaction family_env"
  let ?row = "compiled before_pet pet_row"
  let ?bctx = "new_context batch_env (idle one_insert) ''mysql''"
  let ?b1 = "snd (load_files batch_env [''users.yml''] ?bctx)"
  have k: "keys_only (primaryKeys family_ctx)"
    by (simp add: family_ctx_def keys_only_def)
  have g: "generates ''uid'' user_row"
    and n1: "\<forall>r \<in> set [tag_row]. \<not> generates ''uid'' r"
    and n2: "\<forall>f \<in> set [''posts.yml'']. \<forall>r \<in> set (rows_of family_env f). \<not> generates ''uid'' r"
    and n3: "\<forall>r \<in> set [country_row]. \<not> generates ''uid'' r"
    and a: "fst (load_rows ?tx 0 (user_row # [tag_row]) family_ctx) = None"
    and b: "fst (load_files family_env [''posts.yml''] after_users) = None"
    and c: "fst (load_rows ?tx 0 [country_row] after_posts) = None"
    and v: "0 < length (insertValues ?row)" "insertValues ?row ! 0 = PrimaryKeyReference ''uid''"
    and gk: "generated_key ?tx family_ctx (compiled family_ctx user_row) ''id'' = Inr 12"
    and pk: "primaryKeys before_pet ''uid'' = Some (Int64 12)"
    and all: "sent (snd (load_files family_env [''users.yml'', ''posts.yml'', ''pets.yml'']
       family_ctx)) = sent (snd (load_row ?tx 1 pet_row before_pet))"
    and ok: "fst (LoadFiles family_env [''users.yml'', ''posts.yml'', ''pets.yml'']
       (idle family_db) ''mysql'') = None"
    and t: "sent (snd (load_files family_env [''users.yml'', ''posts.yml'', ''pets.yml'']
       family_ctx)) =
     [Exec (''INSERT INTO '' @ quoted ''users'' @ ''('' @ quoted ''name'' @ '') VALUES(?)'')
        [Lit (Str ''Alice'')],
      QueryRow (''SELECT COUNT(*) FROM '' @ quoted ''tags'' @ '' WHERE id = ?'') [Lit (Num 9)],
      Exec (''INSERT INTO '' @ quoted ''tags'' @ ''('' @ quoted ''id'' @ '', '' @
            quoted ''label'' @ '') VALUES(?, ?)'') [Lit (Num 9), Lit (Str ''new'')],
      QueryRow (''SELECT COUNT(*) FROM '' @ quoted ''posts'' @ '' WHERE id = ?'') [Lit (Num 5)],
      Exec (''INSERT INTO '' @ quoted ''posts'' @ ''('' @ quoted ''id'' @ '', '' @
            quoted ''body'' @ '', '' @ quoted ''title'' @ '') VALUES(?, ?, ?)'')
        [Lit (Num 5), Lit (Str ''text''), Lit (Str ''Hello'')],
      QueryRow (''SELECT COUNT(*) FROM '' @ quoted ''countries'' @ '' WHERE code = ?'')
        [Lit (Str ''nz'')],
      Exec (''INSERT INTO '' @ quoted ''countries'' @ ''('' @ quoted ''code'' @ '', '' @
            quoted ''name'' @ '') VALUES(?, ?)'') [Lit (Str ''nz''), Lit (Str ''Aotearoa'')],
      QueryRow (''SELECT COUNT(*) FROM '' @ quoted ''pets'' @ '' WHERE id = ?'') [Lit (Num 1)],
      Exec (''INSERT INTO '' @ quoted ''pets'' @ ''('' @ quoted ''id'' @ '', '' @
            quoted ''owner_id'' @ '') VALUES(?, ?)'')
        [Lit (Num 1), Int64 12]]"
    and f0: "fst (load_files batch_env [''users.yml''] ?bctx) = None"
    and f1: "fst (load_files batch_env [''pets.yml''] ?b1) =
       Some (Error ''Error loading row 1: sql: no rows in result set'')"
    by code_simp+
  from a have a': "load_rows ?tx 0 (user_row # [tag_row]) family_ctx = (None, after_users)"
    by (simp add: prod_eq_iff after_users_def)
  from b have b': "load_files family_env [''posts.yml''] after_users = (None, after_posts)"
    by (simp add: prod_eq_iff after_posts_def)
  from c have c': "load_rows ?tx 0 [country_row] after_posts = (None, before_pet)"
    by (simp add: prod_eq_iff before_pet_def)
  have un: "undoes batch_env"
    by (simp add: batch_env_def undoes_engine)
  have bg: "Begin batch_env (idle one_insert) = (None, idle one_insert)"
    and rb: "Rollback batch_env (idle one_insert) = idle one_insert"
    by (simp_all add: batch_env_def engine_def idle_def)
  from f0 have f0': "load_files batch_env [''users.yml''] ?bctx = (None, ?b1)"
    by (simp add: prod_eq_iff)
  from f1 have f1': "fst (load_files batch_env [''pets.yml''] ?b1) \<noteq> None"
    by simp
  note later = files_share_context [where env = family_env and ctx = family_ctx
      and name = "''uid''" and g = user_row and i = 0 and rest = "[tag_row]"
      and ctxa = after_users and files = "[''posts.yml'']" and ctxb = after_posts
      and pre = "[country_row]" and ctxc = before_pet and row = ?row
      and tx = "transaction family_env" and ?files0.0 = "[''users.yml'', ''posts.yml'']"
      and f = "''pets.yml''" and data = "''pets''" and ?row0.0 = country_row
      and rows = "[pet_row]" and ?files1.0 = "[]" and filenames = "[''posts.yml'', ''pets.yml'']"
      and db = "idle family_db" and ?db1.0 = "idle family_db" and driver = "''mysql''"
      and ?ctx1.0 = after_posts]
  note shared = files_share_context [where env = batch_env and db = "idle one_insert"
      and ?db1.0 = "idle one_insert" and driver = "''mysql''" and ?files0.0 = "[''users.yml'']"
      and ?files1.0 = "[''pets.yml'']" and ?ctx1.0 = ?b1
      and ctx = ?bctx and name = "''uid''" and g = user_row and i = 0 and rest = "[]"
      and ctxa = ?b1 and files = "[]" and ctxb = ?b1 and pre = "[]" and ctxc = ?b1
      and row = user_row and tx = "transaction batch_env" and f = "''pets.yml''"
      and data = "''pets''" and ?row0.0 = pet_row and rows = "[visit_row]"
      and filenames = "[''users.yml'', ''pets.yml'']"]
  from later k g a' n1 b' n2 c' n3 v
  have e: "\<exists>key pkColumn.
      pkColumns (compiled family_ctx user_row) = [pkColumn] \<and>
      generated_key ?tx family_ctx (compiled family_ctx user_row) pkColumn = Inr key \<and>
      primaryKeys before_pet ''uid'' = Some (Int64 key) \<and>
      resolved (primaryKeys before_pet) (PrimaryKeyReference ''uid'') = Int64 key \<and>
      GetInsertValues (primaryKeys before_pet) ?row ! 0 = Int64 key"
    by blast
  from shared un bg rb f0' f1'
  have "LoadFiles batch_env ([''users.yml''] @ [''pets.yml'']) (idle one_insert) ''mysql'' =
     (fst (load_files batch_env [''pets.yml''] ?b1), idle one_insert)"
    by blast
  with f1
  have s: "LoadFiles batch_env ([''users.yml''] @ [''pets.yml'']) (idle one_insert) ''mysql'' =
     (Some (Error ''Error loading row 1: sql: no rows in result set''), idle one_insert)"
    by (simp only:)
  from e s g a' b' c' v gk pk all ok t un bg rb f0 f1 show ?thesis by blast
qed

end
